(* ===== verification/S0_Prelude.thy ===== *)
theory S0_Prelude
  imports Main "HOL-Library.Word" "HOL-Library.Char_ord" "HOL-Library.List_Lexorder"
    "HOL-Library.Sublist"
begin

text \<open>
  What every component of the gateway shares: the machine integers of the Rust source and their
  saturating operations, the parts of Rust's standard library for strings that the source calls
  (\<open>split\<close>, \<open>split_once\<close>, \<open>strip_prefix\<close>, \<open>trim\<close>, \<open>to_ascii_lowercase\<close>,
  \<open>parse::<u64>\<close>, \<open>String::from_utf8\<close> and \<open>from_utf8_lossy\<close>), and the lemmas about them.

  A Rust \<open>String\<close> is a HOL \<^typ>\<open>string\<close>: the list of its UTF-8 bytes. Rust compares strings
  byte by byte, which is the lexicographic order of \<open>List_Lexorder\<close> over \<open>Char_ord\<close>.
  A Rust \<open>Result<T, E>\<close> is the sum \<open>'e + 'a\<close> with \<open>Inl\<close> for \<open>Err\<close>.
\<close>

section \<open>Collections of facts\<close>

named_theorems sat_nat \<open>saturating word arithmetic read as natural numbers\<close>
named_theorems rust_str \<open>the string library\<close>
named_theorems gate_defs \<open>definitions unfolded when a single operation is executed symbolically\<close>

section \<open>Machine integers\<close>

type_synonym u64 = "64 word"
type_synonym u32 = "32 word"
type_synonym 'a res = "string + 'a"

definition sat_add :: "'a::len word \<Rightarrow> 'a word \<Rightarrow> 'a word" where
  "sat_add a b = (if unat a + unat b < 2 ^ LENGTH('a) then a + b else - 1)"

definition sat_sub :: "'a::len word \<Rightarrow> 'a word \<Rightarrow> 'a word" where
  "sat_sub a b = (if b \<le> a then a - b else 0)"

lemma unat_max_word: "unat (- 1 :: 'a::len word) = 2 ^ LENGTH('a) - 1"
  by (simp add: unsigned_minus_1_eq_mask mask_eq_exp_minus_1)

lemma unat_sat_add [sat_nat]:
  "unat (sat_add a b) = min (unat a + unat b) (2 ^ LENGTH('a) - 1)" for a b :: "'a::len word"
proof (cases "unat a + unat b < 2 ^ LENGTH('a)")
  case True
  then show ?thesis by (simp add: sat_add_def unat_word_ariths)
next
  case False
  then show ?thesis by (simp add: sat_add_def unat_max_word)
qed

lemma unat_sat_sub [sat_nat]: "unat (sat_sub a b) = unat a - unat b"
  by (simp add: sat_sub_def unat_sub word_le_nat_alt)

lemma unat_sat_add_le: "unat (sat_add a b) \<le> unat a + unat b"
  by (simp add: sat_nat)

lemma unat_bounded: "unat a \<le> 2 ^ LENGTH('a) - 1" for a :: "'a::len word"
proof -
  have "unat a < 2 ^ LENGTH('a)" by (rule unsigned_less)
  then show ?thesis by linarith
qed

lemma sat_add_0 [simp]: "sat_add a 0 = a" "sat_add 0 a = a"
  by (simp_all add: sat_add_def unsigned_less)

lemma sat_sub_0 [simp]: "sat_sub a 0 = a"
  by (simp add: sat_sub_def)

lemma sat_sub_sat_add_cancel:
  assumes "unat a + unat b < 2 ^ LENGTH('a)"
  shows "sat_sub (sat_add a b) b = (a :: 'a::len word)"
proof -
  have "unat (sat_sub (sat_add a b) b) = unat a"
    using assms by (simp add: sat_nat)
  then show ?thesis by (simp add: word_unat_eq_iff)
qed

section \<open>Ascending lists\<close>

text \<open>Strict order checked on neighbours only: linear where \<open>sorted_wrt\<close> compares every pair.\<close>

fun ascending :: "'a::linorder list \<Rightarrow> bool" where
  "ascending (x # y # zs) \<longleftrightarrow> x < y \<and> ascending (y # zs)"
| "ascending _ \<longleftrightarrow> True"

lemma ascending_sorted_wrt: "ascending xs \<Longrightarrow> sorted_wrt (<) xs"
  by (induction xs rule: ascending.induct) (auto dest: less_trans)

section \<open>Strings\<close>

subsection \<open>Prefixes and suffixes\<close>

definition starts_with :: "string \<Rightarrow> string \<Rightarrow> bool" where
  "starts_with s p \<longleftrightarrow> prefix p s"

definition ends_with :: "string \<Rightarrow> string \<Rightarrow> bool" where
  "ends_with s p \<longleftrightarrow> suffix p s"

definition strip_prefix :: "string \<Rightarrow> string \<Rightarrow> string option" where
  "strip_prefix s p = (if prefix p s then Some (drop (length p) s) else None)"

lemma strip_prefix_Some [rust_str]: "strip_prefix s p = Some r \<longleftrightarrow> s = p @ r"
  by (auto simp: strip_prefix_def prefix_def)

lemma strip_prefix_None [rust_str]: "strip_prefix s p = None \<longleftrightarrow> \<not> prefix p s"
  by (simp add: strip_prefix_def)

lemma strip_prefix_append [simp]: "strip_prefix (p @ r) p = Some r"
  by (simp add: rust_str)

subsection \<open>Splitting and joining\<close>

fun split_on :: "'a \<Rightarrow> 'a list \<Rightarrow> 'a list list" where
  "split_on c [] = [[]]"
| "split_on c (x # xs) =
     (if x = c then [] # split_on c xs
      else (case split_on c xs of [] \<Rightarrow> [[x]] | p # ps \<Rightarrow> (x # p) # ps))"

fun join :: "'a list \<Rightarrow> 'a list list \<Rightarrow> 'a list" where
  "join sep [] = []"
| "join sep [p] = p"
| "join sep (p # q # ps) = p @ sep @ join sep (q # ps)"

lemma split_on_not_Nil [simp]: "split_on c xs \<noteq> []"
  by (induction xs) (auto split: list.splits)

lemma join_Cons: "ps \<noteq> [] \<Longrightarrow> join sep (p # ps) = p @ sep @ join sep ps"
  by (cases ps) auto

lemma split_on_no_sep: "c \<notin> set xs \<Longrightarrow> split_on c xs = [xs]"
  by (induction xs) auto

lemma split_on_append_sep:
  "c \<notin> set p \<Longrightarrow> split_on c (p @ c # xs) = p # split_on c xs"
  by (induction p) auto

lemma join_split_on [rust_str]: "join [c] (split_on c xs) = xs"
proof (induction xs)
  case Nil
  then show ?case by simp
next
  case (Cons x xs)
  obtain p ps where ps: "split_on c xs = p # ps"
    by (cases "split_on c xs") auto
  with Cons show ?case
    by (cases ps) auto
qed

lemma split_on_join [rust_str]:
  "ps \<noteq> [] \<Longrightarrow> \<forall>p \<in> set ps. c \<notin> set p \<Longrightarrow> split_on c (join [c] ps) = ps"
proof (induction ps rule: induct_list012)
  case 1
  then show ?case by simp
next
  case (2 p)
  then show ?case by (simp add: split_on_no_sep)
next
  case (3 p q ps)
  then show ?case by (simp add: split_on_append_sep)
qed

lemma split_on_parts [rust_str]: "p \<in> set (split_on c xs) \<Longrightarrow> c \<notin> set p"
  by (induction xs arbitrary: p) (auto split: list.splits if_splits)

lemma split_on_parts_subset: "p \<in> set (split_on c xs) \<Longrightarrow> set p \<subseteq> set xs"
proof (induction xs arbitrary: p)
  case Nil
  then show ?case by simp
next
  case (Cons x xs)
  obtain q qs where q: "split_on c xs = q # qs"
    by (cases "split_on c xs") auto
  from Cons.prems q Cons.IH show ?case
    by (auto split: if_splits) blast+
qed

definition split_once :: "'a \<Rightarrow> 'a list \<Rightarrow> ('a list \<times> 'a list) option" where
  "split_once c xs =
     (if c \<in> set xs then Some (takeWhile (\<lambda>x. x \<noteq> c) xs, tl (dropWhile (\<lambda>x. x \<noteq> c) xs)) else None)"

definition rsplit_once :: "'a \<Rightarrow> 'a list \<Rightarrow> ('a list \<times> 'a list) option" where
  "rsplit_once c xs =
     (case split_once c (rev xs) of None \<Rightarrow> None | Some (a, b) \<Rightarrow> Some (rev b, rev a))"

lemma split_once_append [simp]:
  "c \<notin> set a \<Longrightarrow> split_once c (a @ c # b) = Some (a, b)"
proof (induction a)
  case (Cons x a)
  then have "x \<noteq> c" by auto
  with Cons show ?case by (simp add: split_once_def)
qed (simp add: split_once_def)

lemma split_once_Some [rust_str]:
  "split_once c xs = Some (a, b) \<longleftrightarrow> xs = a @ c # b \<and> c \<notin> set a"
proof
  assume *: "split_once c xs = Some (a, b)"
  then have "c \<in> set xs" by (auto simp: split_once_def split: if_splits)
  then obtain u v where uv: "xs = u @ c # v" "c \<notin> set u"
    by (meson split_list_first)
  with * show "xs = a @ c # b \<and> c \<notin> set a" by simp
qed auto

lemma split_once_None [rust_str]: "split_once c xs = None \<longleftrightarrow> c \<notin> set xs"
  by (simp add: split_once_def)

lemma rsplit_once_append [simp]:
  "c \<notin> set b \<Longrightarrow> rsplit_once c (a @ c # b) = Some (a, b)"
  by (simp add: rsplit_once_def)

lemma rsplit_once_Some [rust_str]:
  "rsplit_once c xs = Some (a, b) \<longleftrightarrow> xs = a @ c # b \<and> c \<notin> set b"
proof
  assume "rsplit_once c xs = Some (a, b)"
  then have "split_once c (rev xs) = Some (rev b, rev a)"
    by (auto simp: rsplit_once_def split: option.splits)
  then have "rev xs = rev b @ c # rev a" "c \<notin> set b"
    by (simp_all add: split_once_Some)
  then have "rev (rev xs) = rev (rev b @ c # rev a)" by simp
  with \<open>c \<notin> set b\<close> show "xs = a @ c # b \<and> c \<notin> set b" by simp
qed auto

subsection \<open>Substring search\<close>

text \<open>\<open>str::find\<close> for a string needle: the remainder after the first occurrence, if any.\<close>

fun after_first :: "'a list \<Rightarrow> 'a list \<Rightarrow> 'a list option" where
  "after_first n [] = (if n = [] then Some [] else None)"
| "after_first n (x # xs) =
     (if prefix n (x # xs) then Some (drop (length n) (x # xs)) else after_first n xs)"

definition contains_str :: "string \<Rightarrow> string \<Rightarrow> bool" where
  "contains_str s n \<longleftrightarrow> after_first n s \<noteq> None"

lemma after_first_Some:
  "after_first n xs = Some r \<Longrightarrow> \<exists>u. xs = u @ n @ r"
proof (induction n xs rule: after_first.induct)
  case (1 n)
  then show ?case by (auto split: if_splits)
next
  case (2 n x xs)
  show ?case
  proof (cases "prefix n (x # xs)")
    case True
    with 2(2) have "r = drop (length n) (x # xs)" by simp
    with True have "x # xs = n @ r" by (metis append_eq_conv_conj prefix_def)
    then show ?thesis by (metis append_Nil)
  next
    case False
    with 2 obtain u where "xs = u @ n @ r" by auto
    then have "x # xs = (x # u) @ n @ r" by simp
    then show ?thesis by blast
  qed
qed

text \<open>The first occurrence leaves the longest remainder.\<close>

lemma after_first_earliest:
  "xs = u @ n @ r \<Longrightarrow> \<exists>r' w. after_first n xs = Some r' \<and> r' = w @ r"
proof (induction n xs arbitrary: u rule: after_first.induct)
  case (1 n)
  then show ?case by simp
next
  case (2 n x xs)
  show ?case
  proof (cases "prefix n (x # xs)")
    case True
    then obtain t where t: "x # xs = n @ t" by (auto simp: prefix_def)
    have "length r \<le> length t"
      using arg_cong [OF t, of length] arg_cong [OF 2(2), of length] by simp
    moreover have "suffix r (x # xs)" "suffix t (x # xs)"
      using 2(2) t by (metis append_assoc suffixI)+
    ultimately have "suffix r t" using suffix_length_suffix by blast
    moreover have "after_first n (x # xs) = Some t" 
      using True by (simp add: t [symmetric]) (simp add: t)
    ultimately show ?thesis by (auto simp: suffix_def)
  next
    case False
    with 2(2) obtain u' where "u = x # u'"
      by (cases u) auto
    with 2(2) have "xs = u' @ n @ r" by simp
    with 2(1) False show ?thesis by auto
  qed
qed

lemma contains_str_iff [rust_str]: "contains_str s n \<longleftrightarrow> sublist n s"
proof
  assume "contains_str s n"
  then obtain r where "after_first n s = Some r" by (auto simp: contains_str_def)
  then show "sublist n s" using after_first_Some by (fastforce simp: sublist_def)
next
  assume "sublist n s"
  then obtain u r where "s = u @ n @ r" by (auto simp: sublist_def)
  then show "contains_str s n" using after_first_earliest by (fastforce simp: contains_str_def)
qed

subsection \<open>ASCII\<close>

abbreviation code_of :: "char \<Rightarrow> nat" where
  "code_of c \<equiv> of_char c"

definition is_digit :: "char \<Rightarrow> bool" where
  "is_digit c \<longleftrightarrow> 48 \<le> code_of c \<and> code_of c \<le> 57"

definition is_upper :: "char \<Rightarrow> bool" where
  "is_upper c \<longleftrightarrow> 65 \<le> code_of c \<and> code_of c \<le> 90"

definition is_lower :: "char \<Rightarrow> bool" where
  "is_lower c \<longleftrightarrow> 97 \<le> code_of c \<and> code_of c \<le> 122"

definition is_alpha :: "char \<Rightarrow> bool" where
  "is_alpha c \<longleftrightarrow> is_upper c \<or> is_lower c"

definition is_alphanumeric :: "char \<Rightarrow> bool" where
  "is_alphanumeric c \<longleftrightarrow> is_alpha c \<or> is_digit c"

definition is_hexdigit :: "char \<Rightarrow> bool" where
  "is_hexdigit c \<longleftrightarrow> is_digit c \<or> (97 \<le> code_of c \<and> code_of c \<le> 102)
     \<or> (65 \<le> code_of c \<and> code_of c \<le> 70)"

definition lower :: "char \<Rightarrow> char" where
  "lower c = (if is_upper c then char_of (code_of c + 32) else c)"

definition to_ascii_lowercase :: "string \<Rightarrow> string" where
  "to_ascii_lowercase s = map lower s"

definition eq_ignore_ascii_case :: "string \<Rightarrow> string \<Rightarrow> bool" where
  "eq_ignore_ascii_case a b \<longleftrightarrow> to_ascii_lowercase a = to_ascii_lowercase b"

text \<open>\<open>str::trim\<close> on the ASCII whitespace it removes: tab to carriage return, and the space.
  Every string the source trims is a header or parameter value.\<close>

definition is_space :: "char \<Rightarrow> bool" where
  "is_space c \<longleftrightarrow> (9 \<le> code_of c \<and> code_of c \<le> 13) \<or> code_of c = 32"

definition trim_start :: "string \<Rightarrow> string" where
  "trim_start s = dropWhile is_space s"

definition trim :: "string \<Rightarrow> string" where
  "trim s = rev (dropWhile is_space (rev (dropWhile is_space s)))"

lemma lower_lower [simp]: "lower (lower c) = lower c"
  by (simp add: lower_def is_upper_def)

lemma trim_id: "s \<noteq> [] \<Longrightarrow> \<not> is_space (hd s) \<Longrightarrow> \<not> is_space (last s) \<Longrightarrow> trim s = s"
  by (simp add: trim_def dropWhile_eq_self_iff [THEN iffD2] hd_rev)

lemma trim_no_space: "\<forall>c \<in> set s. \<not> is_space c \<Longrightarrow> trim s = s"
  by (cases "s = []") (simp_all add: trim_id, simp add: trim_def)

lemma set_trim_subset: "set (trim s) \<subseteq> set s"
  by (auto simp: trim_def dest!: set_dropWhileD)

subsection \<open>Decimal numbers\<close>

definition digit_value :: "char \<Rightarrow> nat" where
  "digit_value c = code_of c - 48"

definition decimal_value :: "string \<Rightarrow> nat" where
  "decimal_value ds = foldl (\<lambda>n c. 10 * n + digit_value c) 0 ds"

text \<open>\<open>str::parse::<u64>\<close>: an optional \<open>+\<close>, then at least one digit and nothing else, and a
  value below \<open>2^64\<close>.\<close>

definition parse_u64 :: "string \<Rightarrow> u64 option" where
  "parse_u64 s =
     (let ds = (if s \<noteq> [] \<and> hd s = CHR ''+'' then tl s else s)
      in if ds \<noteq> [] \<and> list_all is_digit ds \<and> decimal_value ds < 2 ^ 64
         then Some (of_nat (decimal_value ds)) else None)"

text \<open>\<open>str::parse::<i64>\<close> on a string of digits.\<close>

definition parse_i64_digits :: "string \<Rightarrow> int option" where
  "parse_i64_digits ds =
     (if ds \<noteq> [] \<and> list_all is_digit ds \<and> decimal_value ds < 2 ^ 63
      then Some (int (decimal_value ds)) else None)"

fun nat_digits :: "nat \<Rightarrow> string" where
  "nat_digits n =
     (if n < 10 then [char_of (48 + n)] else nat_digits (n div 10) @ [char_of (48 + n mod 10)])"

declare nat_digits.simps [simp del]

lemma nat_digits_not_Nil [simp]: "nat_digits n \<noteq> []"
  by (subst nat_digits.simps) simp

lemma nat_digits_are_digits: "list_all is_digit (nat_digits n)"
proof (induction n rule: nat_digits.induct)
  case (1 n)
  show ?case
  proof (cases "n < 10")
    case True
    then show ?thesis by (subst nat_digits.simps) (simp add: is_digit_def)
  next
    case False
    have "48 + n mod 10 < 256" by (simp add: order.strict_trans1 [of _ 57])
    with False 1 show ?thesis
      by (subst nat_digits.simps) (simp add: is_digit_def [of "char_of _"])
  qed
qed

lemma decimal_value_snoc:
  "decimal_value (ds @ [c]) = 10 * decimal_value ds + digit_value c"
  by (simp add: decimal_value_def)

lemma decimal_value_nat_digits [simp]: "decimal_value (nat_digits n) = n"
proof (induction n rule: nat_digits.induct)
  case (1 n)
  show ?case
  proof (cases "n < 10")
    case True
    then show ?thesis
      by (subst nat_digits.simps) (simp add: decimal_value_def digit_value_def)
  next
    case False
    have "48 + n mod 10 < 256" by (simp add: order.strict_trans1 [of _ 57])
    with False 1 show ?thesis
      by (subst nat_digits.simps) (simp add: decimal_value_snoc digit_value_def)
  qed
qed

lemma nat_digits_head_not_plus: "nat_digits n = c # cs \<Longrightarrow> c \<noteq> CHR ''+''"
  using nat_digits_are_digits [of n] by (auto simp: is_digit_def)

lemma parse_u64_nat_digits:
  assumes "n < 2 ^ 64"
  shows "parse_u64 (nat_digits n) = Some (of_nat n)"
proof -
  have "hd (nat_digits n) \<noteq> CHR ''+''"
    using nat_digits_head_not_plus [of n] by (cases "nat_digits n") auto
  then show ?thesis
    using assms nat_digits_are_digits [of n] by (simp add: parse_u64_def)
qed

subsection \<open>UTF-8\<close>

text \<open>\<open>utf8_step\<close> looks at the front of a byte sequence: \<open>(True, n)\<close> when its first \<open>n\<close> bytes encode
  one character, \<open>(False, n)\<close> when they are a maximal ill-formed part. This is the table of
  \<open>core::str::lossy\<close>, which \<open>String::from_utf8_lossy\<close> runs.\<close>

definition is_cont :: "char \<Rightarrow> bool" where
  "is_cont c \<longleftrightarrow> 128 \<le> code_of c \<and> code_of c \<le> 191"

definition utf8_second3 :: "char \<Rightarrow> char \<Rightarrow> bool" where
  "utf8_second3 a b \<longleftrightarrow>
     (if code_of a = 224 then 160 \<le> code_of b \<and> code_of b \<le> 191
      else if code_of a = 237 then 128 \<le> code_of b \<and> code_of b \<le> 159
      else is_cont b)"

definition utf8_second4 :: "char \<Rightarrow> char \<Rightarrow> bool" where
  "utf8_second4 a b \<longleftrightarrow>
     (if code_of a = 240 then 144 \<le> code_of b \<and> code_of b \<le> 191
      else if code_of a = 244 then 128 \<le> code_of b \<and> code_of b \<le> 143
      else is_cont b)"

definition fits :: "nat \<Rightarrow> (char \<Rightarrow> bool) \<Rightarrow> string \<Rightarrow> bool" where
  "fits i f s \<longleftrightarrow> i < length s \<and> f (s ! i)"

definition utf8_step :: "string \<Rightarrow> bool \<times> nat" where
  "utf8_step s =
     (let a = hd s; n = code_of a in
      if n < 128 then (True, 1)
      else if 194 \<le> n \<and> n \<le> 223 then
        (if fits 1 is_cont s then (True, 2) else (False, 1))
      else if 224 \<le> n \<and> n \<le> 239 then
        (if \<not> fits 1 (utf8_second3 a) s then (False, 1)
         else if \<not> fits 2 is_cont s then (False, 2)
         else (True, 3))
      else if 240 \<le> n \<and> n \<le> 244 then
        (if \<not> fits 1 (utf8_second4 a) s then (False, 1)
         else if \<not> fits 2 is_cont s then (False, 2)
         else if \<not> fits 3 is_cont s then (False, 3)
         else (True, 4))
      else (False, 1))"

lemma utf8_step_pos: "0 < snd (utf8_step s)"
  by (simp add: utf8_step_def Let_def)

lemma utf8_step_le: "s \<noteq> [] \<Longrightarrow> snd (utf8_step s) \<le> length s"
  by (auto simp: utf8_step_def Let_def fits_def Suc_le_eq)

lemma utf8_step_drop: "s \<noteq> [] \<Longrightarrow> (ok, n) = utf8_step s \<Longrightarrow> length s - n < length s"
  using utf8_step_pos [of s] by (cases "utf8_step s") simp

function valid_utf8 :: "string \<Rightarrow> bool" where
  "valid_utf8 s \<longleftrightarrow>
     (if s = [] then True else case utf8_step s of (ok, n) \<Rightarrow> ok \<and> valid_utf8 (drop n s))"
  by pat_completeness auto
termination
  by (relation "measure length") (auto intro: utf8_step_drop)

definition replacement_character :: string where
  "replacement_character = [CHR 0xEF, CHR 0xBF, CHR 0xBD]"

function from_utf8_lossy :: "string \<Rightarrow> string" where
  "from_utf8_lossy s =
     (if s = [] then []
      else case utf8_step s of (ok, n) \<Rightarrow>
        (if ok then take n s else replacement_character) @ from_utf8_lossy (drop n s))"
  by pat_completeness auto
termination
  by (relation "measure length") (auto intro: utf8_step_drop)

declare valid_utf8.simps [simp del] from_utf8_lossy.simps [simp del]

lemma valid_utf8_Nil [simp]: "valid_utf8 []"
  by (simp add: valid_utf8.simps)

lemma from_utf8_lossy_Nil [simp]: "from_utf8_lossy [] = []"
  by (simp add: from_utf8_lossy.simps)

lemma from_utf8_lossy_valid [simp]: "valid_utf8 s \<Longrightarrow> from_utf8_lossy s = s"
proof (induction s rule: valid_utf8.induct)
  case (1 s)
  show ?case
  proof (cases "s = []")
    case False
    obtain ok n where n: "utf8_step s = (ok, n)" by (cases "utf8_step s")
    with 1(2) False have "ok" "valid_utf8 (drop n s)"
      by (subst (asm) valid_utf8.simps, simp)+
    with 1(1) n False have "from_utf8_lossy (drop n s) = drop n s" by auto
    then show ?thesis
      using False n \<open>ok\<close> by (subst from_utf8_lossy.simps) simp
  qed simp
qed

lemma valid_utf8_ascii: "\<forall>c \<in> set s. code_of c < (128 :: nat) \<Longrightarrow> valid_utf8 s"
proof (induction s)
  case (Cons a s)
  then show ?case by (subst valid_utf8.simps) (simp add: utf8_step_def Let_def)
qed simp

definition from_utf8 :: "string \<Rightarrow> string option" where
  "from_utf8 s = (if valid_utf8 s then Some s else None)"

subsection \<open>Hexadecimal digits and percent-decoding\<close>

definition hex_val :: "char \<Rightarrow> nat option" where
  "hex_val c =
     (let n = code_of c in
      if 48 \<le> n \<and> n \<le> 57 then Some (n - 48)
      else if 97 \<le> n \<and> n \<le> 102 then Some (n - 97 + 10)
      else if 65 \<le> n \<and> n \<le> 70 then Some (n - 65 + 10)
      else None)"

fun percent_decode_bytes :: "string \<Rightarrow> string" where
  "percent_decode_bytes (a # b # c # s) =
     (if a = CHR ''%'' then
        (case (hex_val b, hex_val c) of
           (Some h, Some l) \<Rightarrow> char_of (16 * h + l) # percent_decode_bytes s
         | _ \<Rightarrow> a # percent_decode_bytes (b # c # s))
      else a # percent_decode_bytes (b # c # s))"
| "percent_decode_bytes s = s"

definition percent_decode :: "string \<Rightarrow> string" where
  "percent_decode s = from_utf8_lossy (percent_decode_bytes s)"

definition hex_digit :: "nat \<Rightarrow> char" where
  "hex_digit n = char_of (if n < 10 then 48 + n else 55 + n)"

definition percent_encode :: "string \<Rightarrow> string" where
  "percent_encode s =
     concat (map (\<lambda>c. [CHR ''%'', hex_digit (code_of c div 16), hex_digit (code_of c mod 16)]) s)"

lemma hex_val_hex_digit: "n < 16 \<Longrightarrow> hex_val (hex_digit n) = Some n"
  by (auto simp: hex_val_def hex_digit_def Let_def)

lemma hex_digit_hex: "n < 16 \<Longrightarrow> is_hexdigit (hex_digit n)"
  by (auto simp: hex_digit_def is_hexdigit_def is_digit_def)

lemma percent_decode_bytes_encode: "percent_decode_bytes (percent_encode s) = s"
proof (induction s)
  case (Cons c s)
  have "code_of c div 16 < (16 :: nat)" "code_of c mod 16 < (16 :: nat)"
    by (simp_all add: less_mult_imp_div_less)
  with Cons show ?case
    by (simp add: percent_encode_def hex_val_hex_digit)
qed (simp add: percent_encode_def)

lemma percent_decode_encode [simp]: "valid_utf8 s \<Longrightarrow> percent_decode (percent_encode s) = s"
  by (simp add: percent_decode_def percent_decode_bytes_encode)

lemma set_percent_encode: "c \<in> set (percent_encode s) \<Longrightarrow> c = CHR ''%'' \<or> is_hexdigit c"
proof (induction s)
  case (Cons d s)
  then have "c = CHR ''%'' \<or> c = hex_digit (code_of d div 16) \<or> c = hex_digit (code_of d mod 16)
      \<or> c \<in> set (percent_encode s)"
    by (simp add: percent_encode_def)
  with Cons.IH show ?case
    using hex_digit_hex [of "code_of d div 16"] hex_digit_hex [of "code_of d mod 16"]
    by (auto simp: less_mult_imp_div_less)
qed (simp add: percent_encode_def)

subsection \<open>Debug formatting\<close>

text \<open>\<open>{:?}\<close> of a string, on ASCII: quotes around it, and the escapes of \<open>char::escape_debug\<close>. A byte
  of a non-ASCII character is copied, as it is for every printable character.\<close>

fun hex_lower :: "nat \<Rightarrow> string" where
  "hex_lower n =
     (let d = (\<lambda>k. char_of (if k < 10 then 48 + k else 87 + k) :: char)
      in if n < 16 then [d n] else hex_lower (n div 16) @ [d (n mod 16)])"

definition escape_debug :: "char \<Rightarrow> string" where
  "escape_debug c =
     (let n = code_of c in
      if n = 0 then [CHR 0x5C, CHR ''0'']
      else if n = 9 then [CHR 0x5C, CHR ''t'']
      else if n = 10 then [CHR 0x5C, CHR ''n'']
      else if n = 13 then [CHR 0x5C, CHR ''r'']
      else if n = 34 \<or> n = 92 then [CHR 0x5C, c]
      else if n < 32 \<or> n = 127 then [CHR 0x5C] @ ''u{'' @ hex_lower n @ ''}''
      else [c])"

definition debug_str :: "string \<Rightarrow> string" where
  "debug_str s = [CHR 0x22] @ concat (map escape_debug s) @ [CHR 0x22]"

end
