(* ===== verification/S0_Model.thy ===== *)
theory S0_Model
  imports S0_Prelude
begin

text \<open>
  The vocabulary shared by the gateway: \<open>src/src/model.rs\<close> (the six verbs, backends, principals),
  \<open>src/src/identity.rs\<close> (the resolved principal), \<open>src/src/authz/input.rs\<close> (the question put to
  the policy decision point, its JSON form and its cache identity) and
  \<open>src/src/authz/decision.rs\<close> (the verdict and its obligations). JSON values are those of
  \<open>serde_json\<close> without the \<open>preserve_order\<close> feature: an object is a \<open>BTreeMap\<close>, here an
  association list in strictly ascending key order.
\<close>

section \<open>Ordered maps and JSON values\<close>

type_synonym 'v btree = "(string \<times> 'v) list"

fun btree_insert :: "string \<Rightarrow> 'v \<Rightarrow> 'v btree \<Rightarrow> 'v btree" where
  "btree_insert k v [] = [(k, v)]"
| "btree_insert k v ((k', v') # m) =
     (if k < k' then (k, v) # (k', v') # m
      else if k = k' then (k, v) # m
      else (k', v') # btree_insert k v m)"

definition btree_of :: "(string \<times> 'v) list \<Rightarrow> 'v btree" where
  "btree_of kvs = fold (\<lambda>(k, v). btree_insert k v) kvs []"

definition btree_remove :: "string \<Rightarrow> 'v btree \<Rightarrow> 'v btree" where
  "btree_remove k m = filter (\<lambda>(k', _). k' \<noteq> k) m"

definition btree_ok :: "'v btree \<Rightarrow> bool" where
  "btree_ok m \<longleftrightarrow> sorted_wrt (<) (map fst m)"

lemma map_of_btree_insert [simp]: "map_of (btree_insert k v m) = (map_of m)(k \<mapsto> v)"
  by (induction k v m rule: btree_insert.induct) (auto simp: fun_eq_iff)

lemma set_btree_insert: "fst ` set (btree_insert k v m) = insert k (fst ` set m)"
  by (induction k v m rule: btree_insert.induct) auto

lemma btree_insert_ok: "btree_ok m \<Longrightarrow> btree_ok (btree_insert k v m)"
proof (induction k v m rule: btree_insert.induct)
  case (2 k v k' v' m)
  have "\<forall>x \<in> fst ` set (btree_insert k v m). k' < x" if "\<not> k < k'" "k \<noteq> k'"
    using 2(2) that unfolding set_btree_insert by (auto simp: btree_ok_def)
  with 2 show ?case
    by (auto simp: btree_ok_def)
qed (simp add: btree_ok_def)

lemma btree_of_ok: "btree_ok (btree_of kvs)"
proof -
  have "btree_ok m \<Longrightarrow> btree_ok (fold (\<lambda>(k, v). btree_insert k v) kvs m)" for m
    by (induction kvs arbitrary: m) (auto simp: btree_insert_ok)
  then show ?thesis by (simp add: btree_of_def btree_ok_def)
qed

lemma map_of_btree_of: "map_of (btree_of kvs) = map_of (rev kvs)"
proof -
  have "map_of (fold (\<lambda>(k, v). btree_insert k v) kvs m) = map_of m ++ map_of (rev kvs)" for m
    by (induction kvs arbitrary: m) (auto simp: map_add_def fun_eq_iff split: option.splits)
  then show ?thesis by (simp add: btree_of_def)
qed

lemma btree_remove_ok: "btree_ok m \<Longrightarrow> btree_ok (btree_remove k m)"
  by (induction m) (auto simp: btree_ok_def btree_remove_def)

lemma map_of_btree_remove: "map_of (btree_remove k m) = (map_of m)(k := None)"
  by (induction m) (auto simp: btree_remove_def fun_eq_iff)

lemma btree_eqI:
  assumes "btree_ok a" "btree_ok b" "map_of a = map_of b"
  shows "a = b"
proof -
  have d: "distinct (map fst a)" "distinct (map fst b)" "sorted (map fst a)" "sorted (map fst b)"
    using assms(1,2) by (auto simp: btree_ok_def strict_sorted_iff)
  have "set a = set b"
    using assms(3) d by (metis map_of_eqI map_of_inject_set)
  then have "map fst a = map fst b"
    using d by (metis image_set sorted_distinct_set_unique)
  then show ?thesis
    using \<open>set a = set b\<close> d by (metis distinct_map inj_on_def map_inj_on Un_absorb)
qed

datatype jnum = PosInt u64 | NegInt int | Float u64

datatype json =
    JNull
  | JBool bool
  | JNum jnum
  | JStr string
  | JArr "json list"
  | JObj "json btree"

fun jget :: "string \<Rightarrow> json \<Rightarrow> json option" where
  "jget k (JObj m) = map_of m k"
| "jget k _ = None"

fun as_u64 :: "json \<Rightarrow> u64 option" where
  "as_u64 (JNum (PosInt n)) = Some n"
| "as_u64 _ = None"

fun as_str_json :: "json \<Rightarrow> string option" where
  "as_str_json (JStr s) = Some s"
| "as_str_json _ = None"

fun as_array :: "json \<Rightarrow> json list option" where
  "as_array (JArr xs) = Some xs"
| "as_array _ = None"

fun as_object :: "json \<Rightarrow> json btree option" where
  "as_object (JObj m) = Some m"
| "as_object _ = None"

section \<open>Verbs, backends and principals\<close>

datatype action =
    ReadObjects
  | WriteObjects
  | DeleteObjects
  | WriteObjectTags
  | ListObjects
  | Read

definition action_all :: "action list" where
  "action_all = [ReadObjects, WriteObjects, DeleteObjects, WriteObjectTags, ListObjects, Read]"

fun action_as_str :: "action \<Rightarrow> string" where
  "action_as_str ReadObjects = ''read_objects''"
| "action_as_str WriteObjects = ''write_objects''"
| "action_as_str DeleteObjects = ''delete_objects''"
| "action_as_str WriteObjectTags = ''write_object_tags''"
| "action_as_str ListObjects = ''list_objects''"
| "action_as_str Read = ''read''"

definition is_write :: "action \<Rightarrow> bool" where
  "is_write a \<longleftrightarrow> a = WriteObjects \<or> a = DeleteObjects \<or> a = WriteObjectTags"

definition is_bucket_scoped :: "action \<Rightarrow> bool" where
  "is_bucket_scoped a \<longleftrightarrow> a = Read"

definition is_account_scoped :: "action \<Rightarrow> bool" where
  "is_account_scoped a \<longleftrightarrow> a = Read"

datatype backend_kind = Ceph | S3

fun backend_kind_as_str :: "backend_kind \<Rightarrow> string" where
  "backend_kind_as_str Ceph = ''ceph''"
| "backend_kind_as_str S3 = ''s3''"

datatype backend_profile = Generic

definition backend_profile_all :: "backend_profile list" where
  "backend_profile_all = [Generic]"

fun backend_profile_as_str :: "backend_profile \<Rightarrow> string" where
  "backend_profile_as_str Generic = ''generic''"

definition backend_profile_deserialize :: "string \<Rightarrow> backend_profile res" where
  "backend_profile_deserialize wire =
     (case find (\<lambda>p. backend_profile_as_str p = wire) backend_profile_all of
        Some p \<Rightarrow> Inr p
      | None \<Rightarrow> Inl (''unknown profile '' @ [CHR 0x27] @ wire @ [CHR 0x27]
                  @ '' (expected one of: generic)''))"

datatype principal_type = User | ServiceAccount

type_synonym backend_id = string
type_synonym tenant = string
type_synonym org_id = string

record pool_key =
  pk_backend :: backend_id
  pk_tenant :: tenant

section \<open>The question put to the policy decision point\<close>

record principal_attributes =
  pa_groups :: "string list"
  pa_extra :: "json btree"

record principal =
  p_sub :: string
  p_kind :: principal_type
  p_attributes :: principal_attributes

record opa_backend =
  be_id :: string
  be_kind :: backend_kind

record copy_source =
  cs_bucket :: string
  cs_key :: string

record request_meta =
  rm_method :: string
  rm_params :: "string option"
  rm_headers_subset :: "string btree"

datatype acl_grant = AclGrant (ag_source: string) (ag_value: string)

instantiation acl_grant :: linorder
begin

definition less_eq_acl_grant :: "acl_grant \<Rightarrow> acl_grant \<Rightarrow> bool" where
  "less_eq_acl_grant a b \<longleftrightarrow>
     ag_source a < ag_source b \<or> (ag_source a = ag_source b \<and> ag_value a \<le> ag_value b)"

definition less_acl_grant :: "acl_grant \<Rightarrow> acl_grant \<Rightarrow> bool" where
  "less_acl_grant a b \<longleftrightarrow>
     ag_source a < ag_source b \<or> (ag_source a = ag_source b \<and> ag_value a < ag_value b)"

instance
  by standard (auto simp: less_eq_acl_grant_def less_acl_grant_def intro: acl_grant.expand)

end

record opa_input =
  oi_principal :: principal
  oi_backend :: opa_backend
  oi_tenant :: string
  oi_organization_id :: string
  oi_action :: action
  oi_bucket :: string
  oi_object :: "string option"
  oi_prefix :: "string option"
  oi_copy_source :: "copy_source option"
  oi_delete_keys :: "string list option"
  oi_object_tags :: "string btree option"
  oi_requested_tags :: "string btree option"
  oi_acl_grants :: "acl_grant list"
  oi_bypass_governance :: bool
  oi_request :: request_meta

record resolved_principal =
  rp_sub :: string
  rp_principal_type :: principal_type
  rp_groups :: "string list"
  rp_tenant :: string
  rp_organization_id :: string

definition to_opa_principal :: "resolved_principal \<Rightarrow> principal" where
  "to_opa_principal r =
     \<lparr>p_sub = rp_sub r, p_kind = rp_principal_type r,
      p_attributes = \<lparr>pa_groups = rp_groups r, pa_extra = []\<rparr>\<rparr>"

subsection \<open>Its JSON form\<close>

definition opt_field :: "string \<Rightarrow> ('a \<Rightarrow> json) \<Rightarrow> 'a option \<Rightarrow> (string \<times> json) list" where
  "opt_field k f x = (case x of None \<Rightarrow> [] | Some v \<Rightarrow> [(k, f v)])"

definition jstrs :: "string list \<Rightarrow> json" where
  "jstrs xs = JArr (map JStr xs)"

definition jtags :: "string btree \<Rightarrow> json" where
  "jtags m = JObj (map (\<lambda>(k, v). (k, JStr v)) m)"

fun principal_type_as_str :: "principal_type \<Rightarrow> string" where
  "principal_type_as_str User = ''user''"
| "principal_type_as_str ServiceAccount = ''service_account''"

definition acl_grant_value :: "acl_grant \<Rightarrow> json" where
  "acl_grant_value g = JObj (btree_of [(''source'', JStr (ag_source g)), (''value'', JStr (ag_value g))])"

definition principal_attributes_value :: "principal_attributes \<Rightarrow> json" where
  "principal_attributes_value a = JObj (btree_of ((''groups'', jstrs (pa_groups a)) # pa_extra a))"

definition principal_value :: "principal \<Rightarrow> json" where
  "principal_value p =
     JObj (btree_of [(''sub'', JStr (p_sub p)), (''type'', JStr (principal_type_as_str (p_kind p))),
       (''attributes'', principal_attributes_value (p_attributes p))])"

definition opa_backend_value :: "opa_backend \<Rightarrow> json" where
  "opa_backend_value b =
     JObj (btree_of [(''id'', JStr (be_id b)), (''kind'', JStr (backend_kind_as_str (be_kind b)))])"

definition copy_source_value :: "copy_source \<Rightarrow> json" where
  "copy_source_value c =
     JObj (btree_of [(''bucket'', JStr (cs_bucket c)), (''key'', JStr (cs_key c))])"

definition request_meta_value :: "request_meta \<Rightarrow> json" where
  "request_meta_value r =
     JObj (btree_of ([(''method'', JStr (rm_method r))] @ opt_field ''params'' JStr (rm_params r) @
       (if rm_headers_subset r = [] then [] else [(''headers_subset'', jtags (rm_headers_subset r))])))"

definition opa_input_fields :: "opa_input \<Rightarrow> (string \<times> json) list" where
  "opa_input_fields i =
     [(''principal'', principal_value (oi_principal i)),
      (''backend'', opa_backend_value (oi_backend i)),
      (''tenant'', JStr (oi_tenant i)),
      (''organization_id'', JStr (oi_organization_id i)),
      (''action'', JStr (action_as_str (oi_action i))),
      (''bucket'', JStr (oi_bucket i))]
     @ opt_field ''object'' JStr (oi_object i)
     @ opt_field ''prefix'' JStr (oi_prefix i)
     @ opt_field ''copy_source'' copy_source_value (oi_copy_source i)
     @ opt_field ''delete_keys'' jstrs (oi_delete_keys i)
     @ opt_field ''object_tags'' jtags (oi_object_tags i)
     @ opt_field ''requested_tags'' jtags (oi_requested_tags i)
     @ [(''acl_grants'', JArr (map acl_grant_value (oi_acl_grants i))),
        (''bypass_governance'', JBool (oi_bypass_governance i)),
        (''request'', request_meta_value (oi_request i))]"

definition resource_key_excluded :: "string list" where
  "resource_key_excluded = [''principal'', ''object_tags'']"

definition resource_doc :: "opa_input \<Rightarrow> json" where
  "resource_doc i = JObj (fold btree_remove resource_key_excluded (btree_of (opa_input_fields i)))"

text \<open>\<open>sha256_hex\<close> (the hex of a SHA-256 digest) and \<open>show_json\<close> (\<open>serde_json\<close>'s compact printer)
  are third-party code and stay parameters.\<close>

definition resource_key :: "(string \<Rightarrow> string) \<Rightarrow> (json \<Rightarrow> string) \<Rightarrow> opa_input \<Rightarrow> string" where
  "resource_key sha256_hex show_json i =
     sha256_hex (''s0.authz.resource_key.v1'' @ [CHR 0x0A] @
       show_json (resource_doc i))"

definition has_on_demand_data :: "opa_input \<Rightarrow> bool" where
  "has_on_demand_data i \<longleftrightarrow> oi_object_tags i \<noteq> None"

section \<open>The verdict\<close>

record obligations =
  ob_narrow_prefix :: "string option"
  ob_allowed_prefixes :: "string list"
  ob_visible_buckets :: "string list"
  ob_all_buckets_visible :: bool
  ob_must_understand :: "string list"

record decision =
  d_allow :: bool
  d_reason :: string
  d_obligations :: obligations

definition obligations_default :: obligations where
  "obligations_default =
     \<lparr>ob_narrow_prefix = None, ob_allowed_prefixes = [], ob_visible_buckets = [],
      ob_all_buckets_visible = False, ob_must_understand = []\<rparr>"

definition implemented_obligations :: "string list" where
  "implemented_obligations =
     [''narrow_prefix'', ''allowed_prefixes'', ''visible_buckets'', ''all_buckets_visible'']"

definition unimplemented :: "obligations \<Rightarrow> string list" where
  "unimplemented ob = filter (\<lambda>n. n \<notin> set implemented_obligations) (ob_must_understand ob)"

definition decision_deny :: "string \<Rightarrow> decision" where
  "decision_deny r = \<lparr>d_allow = False, d_reason = r, d_obligations = obligations_default\<rparr>"

definition decision_allow :: "string \<Rightarrow> decision" where
  "decision_allow r = \<lparr>d_allow = True, d_reason = r, d_obligations = obligations_default\<rparr>"

section \<open>Lemmas\<close>

lemma action_as_str_inject [simp]: "action_as_str a = action_as_str b \<longleftrightarrow> a = b"
  by (cases a; cases b) simp_all

lemma backend_kind_as_str_inject [simp]: "backend_kind_as_str a = backend_kind_as_str b \<longleftrightarrow> a = b"
  by (cases a; cases b) simp_all

lemma action_all_complete: "a \<in> set action_all"
  by (cases a) (simp_all add: action_all_def)

lemma opa_backend_value_inject [simp]: "opa_backend_value a = opa_backend_value b \<longleftrightarrow> a = b"
  by (auto simp: opa_backend_value_def btree_of_def)

lemma copy_source_value_inject [simp]: "copy_source_value a = copy_source_value b \<longleftrightarrow> a = b"
  by (auto simp: copy_source_value_def btree_of_def)

lemma acl_grant_value_inject [simp]: "acl_grant_value a = acl_grant_value b \<longleftrightarrow> a = b"
  by (cases a; cases b) (auto simp: acl_grant_value_def btree_of_def)

lemma jstrs_inject [simp]: "jstrs a = jstrs b \<longleftrightarrow> a = b"
  by (simp add: jstrs_def inj_map_eq_map inj_def)

lemma jtags_inject [simp]: "jtags a = jtags b \<longleftrightarrow> a = b"
proof -
  have "inj (\<lambda>(k :: string, v). (k, JStr v))" by (auto intro!: injI)
  then show ?thesis by (simp add: jtags_def inj_map_eq_map)
qed

lemma request_meta_value_inject [simp]: "request_meta_value a = request_meta_value b \<longleftrightarrow> a = b"
  by (cases a; cases b)
    (auto simp: request_meta_value_def btree_of_def opt_field_def split: option.splits if_splits)

text \<open>The resource document determines every field of the input that is not excluded.\<close>

lemma jget_resource_doc:
  "jget k (resource_doc i) =
     (if k = ''principal'' \<or> k = ''object_tags'' then None else map_of (rev (opa_input_fields i)) k)"
  by (simp add: resource_doc_def resource_key_excluded_def map_of_btree_remove map_of_btree_of)

lemma map_of_opt_field:
  "map_of (rev (opt_field k f x)) = (\<lambda>k'. if k' = k then map_option f x else None)"
  by (auto simp: opt_field_def fun_eq_iff split: option.splits)

lemma resource_doc_fields:
  "jget ''backend'' (resource_doc i) = Some (opa_backend_value (oi_backend i))"
  "jget ''tenant'' (resource_doc i) = Some (JStr (oi_tenant i))"
  "jget ''organization_id'' (resource_doc i) = Some (JStr (oi_organization_id i))"
  "jget ''action'' (resource_doc i) = Some (JStr (action_as_str (oi_action i)))"
  "jget ''bucket'' (resource_doc i) = Some (JStr (oi_bucket i))"
  "jget ''object'' (resource_doc i) = map_option JStr (oi_object i)"
  "jget ''prefix'' (resource_doc i) = map_option JStr (oi_prefix i)"
  "jget ''copy_source'' (resource_doc i) = map_option copy_source_value (oi_copy_source i)"
  "jget ''delete_keys'' (resource_doc i) = map_option jstrs (oi_delete_keys i)"
  "jget ''requested_tags'' (resource_doc i) = map_option jtags (oi_requested_tags i)"
  "jget ''acl_grants'' (resource_doc i) = Some (JArr (map acl_grant_value (oi_acl_grants i)))"
  "jget ''bypass_governance'' (resource_doc i) = Some (JBool (oi_bypass_governance i))"
  "jget ''request'' (resource_doc i) = Some (request_meta_value (oi_request i))"
  by (simp_all add: jget_resource_doc opa_input_fields_def map_of_opt_field map_add_def
      split: option.split)

lemma map_option_inject_eq: "inj f \<Longrightarrow> map_option f x = map_option f y \<longleftrightarrow> x = y"
  by (simp add: option.inj_map inj_eq)

lemma inj_doc_values: "inj JStr" "inj copy_source_value" "inj jstrs" "inj jtags" "inj acl_grant_value"
  by (auto intro!: injI)

lemma resource_doc_inject:
  assumes "resource_doc a = resource_doc b"
  shows "a\<lparr>oi_principal := p, oi_object_tags := t\<rparr> = b\<lparr>oi_principal := p, oi_object_tags := t\<rparr>"
proof -
  have *: "jget k (resource_doc a) = jget k (resource_doc b)" for k
    using assms by simp
  show ?thesis
    using *[of "''backend''"] *[of "''tenant''"] *[of "''organization_id''"] *[of "''action''"]
      *[of "''bucket''"] *[of "''object''"] *[of "''prefix''"] *[of "''copy_source''"]
      *[of "''delete_keys''"] *[of "''requested_tags''"] *[of "''acl_grants''"]
      *[of "''bypass_governance''"] *[of "''request''"]
    by (cases a; cases b)
      (simp add: resource_doc_fields map_option_inject_eq inj_doc_values inj_map_eq_map)
qed

end
