(* ===== verification/S0_Optable.thy ===== *)
theory S0_Optable
  imports S0_Model
begin

text \<open>
  The operation table of \<open>src/src/access/optable.rs\<close>: one classification per S3 operation, the
  binary search that reads it, and the deny-by-default gate \<open>gate_op\<close> that \<open>S3Access::check\<close>
  calls before anything else about the operation is looked at. The table is the whole table of
  the source, in its order, split over six definitions. \<open>binary_search_by\<close> is the loop of Rust's
  \<open>slice::binary_search_by\<close>.
\<close>

section \<open>Classification\<close>

datatype coverage = Enforced | Denied

datatype resource_shape =
    Account
  | Bucket
  | BucketSubresource
  | Object
  | ObjectBatch
  | Listing
  | Copy
  | Unaddressable

datatype danger_tier = Routine | Mutating | PostureAltering | NeverImplement

definition gateway_verbs :: "string list" where
  "gateway_verbs =
     [''read_objects'', ''list_objects'', ''write_objects'', ''delete_objects'',
      ''write_object_tags'', ''read'']"

definition non_gateway_verbs :: "string list" where
  "non_gateway_verbs =
     [''create_bucket'', ''delete_bucket'', ''read_bucket_config'', ''write_bucket_config'',
      ''write_object_acl'']"

record op_spec =
  os_name :: string
  os_coverage :: coverage
  os_verb :: "string option"
  os_shape :: resource_shape
  os_tier :: danger_tier
  os_blind_spots :: "string list"

definition enforced :: "string \<Rightarrow> string \<Rightarrow> resource_shape \<Rightarrow> danger_tier \<Rightarrow> string list \<Rightarrow> op_spec" where
  "enforced nm verb shape tier spots =
     \<lparr>os_name = nm, os_coverage = Enforced, os_verb = Some verb, os_shape = shape, os_tier = tier,
      os_blind_spots = spots\<rparr>"

definition denied :: "string \<Rightarrow> string \<Rightarrow> resource_shape \<Rightarrow> danger_tier \<Rightarrow> op_spec" where
  "denied nm verb shape tier =
     \<lparr>os_name = nm, os_coverage = Denied, os_verb = Some verb, os_shape = shape, os_tier = tier,
      os_blind_spots = []\<rparr>"

definition unauthorizable :: "string \<Rightarrow> resource_shape \<Rightarrow> op_spec" where
  "unauthorizable nm shape =
     \<lparr>os_name = nm, os_coverage = Denied, os_verb = None, os_shape = shape,
      os_tier = NeverImplement, os_blind_spots = []\<rparr>"

section \<open>The table\<close>

definition op_table_1 :: "op_spec list" where
  "op_table_1 =
    [enforced ''AbortMultipartUpload'' ''write_objects'' Object Mutating
        [''the upload id is not bound to the principal that created it''],
     enforced ''CompleteMultipartUpload'' ''write_objects'' Object Mutating
        [''the part list is not re-authorized against the parts actually uploaded''],
     enforced ''CopyObject'' ''write_objects'' Copy Mutating
        [''under the default `x-amz-tagging-directive: COPY` the destination inherits the SOURCE object's tags, which the gateway does not read '' @ [CHR 0xE2] @ [CHR 0x80] @ [CHR 0x94] @ '' so a tag the policy conditions on can be moved onto a new key without a write_object_tags decision. Only a REPLACE directive (or an explicit x-amz-tagging) is authorized as a tag write'',
         ''object-lock headers (mode, retain-until-date, legal-hold) are not inspected: a write grant can make the new object undeletable''],
     denied ''CreateBucket'' ''create_bucket'' Bucket Mutating,
     denied ''CreateBucketMetadataTableConfiguration'' ''write_bucket_config'' Bucket PostureAltering,
     enforced ''CreateMultipartUpload'' ''write_objects'' Object Mutating
        [''object-lock headers (mode, retain-until-date, legal-hold) are not inspected: a write grant can make the completed object undeletable''],
     unauthorizable ''CreateSession'' Bucket,
     denied ''DeleteBucket'' ''delete_bucket'' Bucket Mutating,
     denied ''DeleteBucketAnalyticsConfiguration'' ''write_bucket_config'' BucketSubresource PostureAltering,
     denied ''DeleteBucketCors'' ''write_bucket_config'' Bucket PostureAltering,
     denied ''DeleteBucketEncryption'' ''write_bucket_config'' Bucket PostureAltering,
     denied ''DeleteBucketIntelligentTieringConfiguration'' ''write_bucket_config'' BucketSubresource Mutating,
     denied ''DeleteBucketInventoryConfiguration'' ''write_bucket_config'' BucketSubresource PostureAltering,
     denied ''DeleteBucketLifecycle'' ''write_bucket_config'' Bucket PostureAltering,
     denied ''DeleteBucketMetadataTableConfiguration'' ''write_bucket_config'' Bucket PostureAltering,
     denied ''DeleteBucketMetricsConfiguration'' ''write_bucket_config'' BucketSubresource Mutating,
     denied ''DeleteBucketOwnershipControls'' ''write_bucket_config'' Bucket PostureAltering,
     denied ''DeleteBucketPolicy'' ''write_bucket_config'' Bucket PostureAltering,
     denied ''DeleteBucketReplication'' ''write_bucket_config'' Bucket PostureAltering,
     denied ''DeleteBucketTagging'' ''write_bucket_config'' Bucket Mutating,
     denied ''DeleteBucketWebsite'' ''write_bucket_config'' Bucket PostureAltering]"

definition op_table_2 :: "op_spec list" where
  "op_table_2 =
    [enforced ''DeleteObject'' ''delete_objects'' Object Mutating
        [''version_id (a versioned delete is not distinguished from a delete marker)''],
     enforced ''DeleteObjectTagging'' ''write_object_tags'' Object PostureAltering
        [''version_id (tags are removed from whichever version the id names)'',
         ''the tags being removed are not read first, so a policy cannot condition on what is being cleared''],
     enforced ''DeleteObjects'' ''delete_objects'' ObjectBatch Mutating
        [''per-key version_id''],
     denied ''DeletePublicAccessBlock'' ''write_bucket_config'' Bucket PostureAltering,
     denied ''GetBucketAccelerateConfiguration'' ''read_bucket_config'' Bucket Routine,
     denied ''GetBucketAcl'' ''read_bucket_config'' Bucket Routine,
     denied ''GetBucketAnalyticsConfiguration'' ''read_bucket_config'' BucketSubresource Routine,
     denied ''GetBucketCors'' ''read_bucket_config'' Bucket Routine,
     denied ''GetBucketEncryption'' ''read_bucket_config'' Bucket Routine,
     denied ''GetBucketIntelligentTieringConfiguration'' ''read_bucket_config'' BucketSubresource Routine,
     denied ''GetBucketInventoryConfiguration'' ''read_bucket_config'' BucketSubresource Routine,
     denied ''GetBucketLifecycleConfiguration'' ''read_bucket_config'' Bucket Routine,
     enforced ''GetBucketLocation'' ''read'' Bucket Routine
        [''the response names the backend region, which is not tenant-specific''],
     denied ''GetBucketLogging'' ''read_bucket_config'' Bucket Routine,
     denied ''GetBucketMetadataTableConfiguration'' ''read_bucket_config'' Bucket Routine,
     denied ''GetBucketMetricsConfiguration'' ''read_bucket_config'' BucketSubresource Routine,
     denied ''GetBucketNotificationConfiguration'' ''read_bucket_config'' Bucket Routine,
     denied ''GetBucketOwnershipControls'' ''read_bucket_config'' Bucket Routine,
     denied ''GetBucketPolicy'' ''read_bucket_config'' Bucket Routine,
     denied ''GetBucketPolicyStatus'' ''read_bucket_config'' Bucket Routine,
     denied ''GetBucketReplication'' ''read_bucket_config'' Bucket Routine,
     denied ''GetBucketRequestPayment'' ''read_bucket_config'' Bucket Routine]"

definition op_table_3 :: "op_spec list" where
  "op_table_3 =
    [denied ''GetBucketTagging'' ''read_bucket_config'' Bucket Routine,
     denied ''GetBucketVersioning'' ''read_bucket_config'' Bucket Routine,
     denied ''GetBucketWebsite'' ''read_bucket_config'' Bucket Routine,
     enforced ''GetObject'' ''read_objects'' Object Routine
        [''version_id (an old version reads under the current key's grant)''],
     denied ''GetObjectAcl'' ''read_objects'' Object Routine,
     enforced ''GetObjectAttributes'' ''read_objects'' Object Routine
        [''ObjectParts reveals the multipart structure (part count, sizes, checksums) to any read-granted principal; the requested attribute list is not authorized separately '' @ [CHR 0xE2] @ [CHR 0x80] @ [CHR 0x94] @ '' noted, not solved'',
         ''version_id (an old version's attributes read under the current key's grant)''],
     denied ''GetObjectLegalHold'' ''read_objects'' Object Routine,
     denied ''GetObjectLockConfiguration'' ''read_bucket_config'' Bucket Routine,
     denied ''GetObjectRetention'' ''read_objects'' Object Routine,
     enforced ''GetObjectTagging'' ''read_objects'' Object Routine
        [''version_id''],
     denied ''GetObjectTorrent'' ''read_objects'' Object Routine,
     denied ''GetPublicAccessBlock'' ''read_bucket_config'' Bucket Routine,
     enforced ''HeadBucket'' ''read'' Bucket Routine
        [''a HEAD response carries no body, so a denial is a bare 403: the client cannot distinguish 'no such bucket' from 'not yours'. That is the safe direction, and it is also why the deny reason only reaches the audit record''],
     enforced ''HeadObject'' ''read_objects'' Object Routine
        [''version_id''],
     denied ''ListBucketAnalyticsConfigurations'' ''read_bucket_config'' Bucket Routine,
     denied ''ListBucketIntelligentTieringConfigurations'' ''read_bucket_config'' Bucket Routine,
     denied ''ListBucketInventoryConfigurations'' ''read_bucket_config'' Bucket Routine,
     denied ''ListBucketMetricsConfigurations'' ''read_bucket_config'' Bucket Routine]"

definition op_table_4 :: "op_spec list" where
  "op_table_4 =
    [enforced ''ListBuckets'' ''read'' Account Routine
        [''the merged listing is GATEWAY-ordered, not backend-ordered: the response is sorted by name gateway-side and paginated with a gateway-owned cursor, because RGW promises no stable order across ListBuckets pages'',
         ''one request drains the tenant's entire bucket list from the backend, bounded by limits.max_bucket_list_pages; a tenant over that bound is refused rather than under-reported'',
         ''the Owner element is withheld wholesale rather than mapped to the caller '' @ [CHR 0xE2] @ [CHR 0x80] @ [CHR 0x94] @ '' the backend reports the shared tenant-owner identity, which is not the requester's'',
         ''creation_date and bucket_region ride through as the backend reported them'',
         ''bucket_patterns is NOT implemented: a policy emitting it denies (there is no settled pattern grammar, and an unvalidated glob in a visibility allowlist widens rather than narrows)''],
     denied ''ListDirectoryBuckets'' ''read'' Account Routine,
     enforced ''ListMultipartUploads'' ''list_objects'' Listing Routine
        [''the request prefix is narrowed and the response is re-filtered against it, but a multi-prefix grant still fails closed rather than fanning out'',
         ''the upload id and initiation time of an in-scope upload are forwarded; only owner/initiator (the shared tenant-owner identity) are stripped''],
     denied ''ListObjectVersions'' ''list_objects'' Listing Routine,
     enforced ''ListObjects'' ''list_objects'' Listing Routine
        [''the response is not filtered; only the request prefix is narrowed, and a multi-prefix grant fails closed''],
     enforced ''ListObjectsV2'' ''list_objects'' Listing Routine
        [''the response is not filtered; the request prefix is narrowed or fanned out instead'',
         ''delimiter listing across several granted prefixes is refused, not merged''],
     enforced ''ListParts'' ''read_objects'' Object Routine
        [''the upload id is not bound to the principal that created it'',
         ''part sizes, ETags and checksums are forwarded '' @ [CHR 0xE2] @ [CHR 0x80] @ [CHR 0x94] @ '' they describe the object the caller already holds read on; only owner/initiator (the shared tenant-owner identity) are stripped''],
     enforced ''PostObject'' ''write_objects'' Object Mutating
        [''the file is aggregated into memory by s3s BEFORE check runs, so limits.post_object_max_file_size '' @ [CHR 0xE2] @ [CHR 0x80] @ [CHR 0x94] @ '' not the decision '' @ [CHR 0xE2] @ [CHR 0x80] @ [CHR 0x94] @ '' is what bounds an unauthorized allocation'',
         ''success_action_redirect is forwarded as given'',
         ''object-lock form fields are not inspected''],
     denied ''PutBucketAccelerateConfiguration'' ''write_bucket_config'' Bucket Mutating,
     denied ''PutBucketAcl'' ''write_bucket_config'' Bucket PostureAltering,
     denied ''PutBucketAnalyticsConfiguration'' ''write_bucket_config'' BucketSubresource PostureAltering,
     denied ''PutBucketCors'' ''write_bucket_config'' Bucket PostureAltering,
     denied ''PutBucketEncryption'' ''write_bucket_config'' Bucket PostureAltering,
     denied ''PutBucketIntelligentTieringConfiguration'' ''write_bucket_config'' BucketSubresource Mutating,
     denied ''PutBucketInventoryConfiguration'' ''write_bucket_config'' BucketSubresource PostureAltering,
     denied ''PutBucketLifecycleConfiguration'' ''write_bucket_config'' Bucket PostureAltering]"

definition op_table_5 :: "op_spec list" where
  "op_table_5 =
    [denied ''PutBucketLogging'' ''write_bucket_config'' Bucket PostureAltering,
     denied ''PutBucketMetricsConfiguration'' ''write_bucket_config'' BucketSubresource Mutating,
     denied ''PutBucketNotificationConfiguration'' ''write_bucket_config'' Bucket PostureAltering,
     denied ''PutBucketOwnershipControls'' ''write_bucket_config'' Bucket PostureAltering,
     denied ''PutBucketPolicy'' ''write_bucket_config'' Bucket PostureAltering,
     denied ''PutBucketReplication'' ''write_bucket_config'' Bucket PostureAltering,
     denied ''PutBucketRequestPayment'' ''write_bucket_config'' Bucket Mutating,
     denied ''PutBucketTagging'' ''write_bucket_config'' Bucket Mutating,
     denied ''PutBucketVersioning'' ''write_bucket_config'' Bucket PostureAltering,
     denied ''PutBucketWebsite'' ''write_bucket_config'' Bucket PostureAltering,
     enforced ''PutObject'' ''write_objects'' Object Mutating
        [''object-lock headers (mode, retain-until-date, legal-hold) are not inspected: a write grant can make an object undeletable. Note the asymmetry '' @ [CHR 0xE2] @ [CHR 0x80] @ [CHR 0x94] @ '' the opposite direction, destroying a retained object, is refused in code''],
     denied ''PutObjectAcl'' ''write_object_acl'' Object PostureAltering,
     denied ''PutObjectLegalHold'' ''write_objects'' Object PostureAltering,
     denied ''PutObjectLockConfiguration'' ''write_bucket_config'' Bucket PostureAltering,
     denied ''PutObjectRetention'' ''write_objects'' Object PostureAltering,
     enforced ''PutObjectTagging'' ''write_object_tags'' Object PostureAltering
        [''the reserved-key guard is only as good as the list the control plane publishes: a key a policy conditions on but which is absent from org_settings.reserved_tag_keys is writable by anyone holding write_object_tags. (An absent list denies every tag write, so the failure mode is a list that is present and incomplete, not a missing one.) A control plane is expected to DERIVE the list from the grants it publishes '' @ [CHR 0xE2] @ [CHR 0x80] @ [CHR 0x94] @ '' the union of its own namespace and every `tag:<key>` a grant in the same document conditions on '' @ [CHR 0xE2] @ [CHR 0x80] @ [CHR 0x94] @ '' so a key a projected GRANT conditions on cannot be omitted. What remains is a key some policy reads from outside the grant projection.'',
         ''version_id''],
     denied ''PutPublicAccessBlock'' ''write_bucket_config'' Bucket PostureAltering,
     denied ''RestoreObject'' ''write_objects'' Object PostureAltering,
     denied ''SelectObjectContent'' ''read_objects'' Object Routine,
     enforced ''UploadPart'' ''write_objects'' Object Mutating
        [''the upload id is not bound to the principal that created it'']]"

definition op_table_6 :: "op_spec list" where
  "op_table_6 =
    [enforced ''UploadPartCopy'' ''write_objects'' Copy Mutating
        [''the upload id is not bound to the principal that created it'',
         ''copy-source range and version id''],
     unauthorizable ''WriteGetObjectResponse'' Unaddressable]"

definition op_table :: "op_spec list" where
  "op_table =
     op_table_1 @ op_table_2 @ op_table_3 @ op_table_4 @ op_table_5 @ op_table_6"

section \<open>Lookup and the gate\<close>

datatype gate_denial = Unknown | Unauthorizable | NotEnforced

fun gate_denial_as_str :: "gate_denial \<Rightarrow> string" where
  "gate_denial_as_str Unknown = ''unknown operation''"
| "gate_denial_as_str Unauthorizable = ''operation cannot be authorized by the gateway''"
| "gate_denial_as_str NotEnforced = ''operation is not permitted by the gateway''"

datatype ordering = Less | Equal | Greater

definition cmp :: "'a::linorder \<Rightarrow> 'a \<Rightarrow> ordering" where
  "cmp a b = (if a < b then Less else if a = b then Equal else Greater)"

function binary_search_loop :: "('a \<Rightarrow> ordering) \<Rightarrow> 'a list \<Rightarrow> nat \<Rightarrow> nat \<Rightarrow> nat" where
  "binary_search_loop f xs base len =
     (if len > 1
      then let half = len div 2;
               mid = base + half
           in binary_search_loop f xs (if f (xs ! mid) = Greater then base else mid) (len - half)
      else base)"
  by pat_completeness auto
termination
  by (relation "measure (\<lambda>(f, xs, base, len). len)") auto

declare binary_search_loop.simps [simp del]

definition binary_search_by :: "('a \<Rightarrow> ordering) \<Rightarrow> 'a list \<Rightarrow> nat + nat" where
  "binary_search_by f xs =
     (if xs = [] then Inl 0
      else let base = binary_search_loop f xs 0 (length xs)
           in case f (xs ! base) of
                Equal \<Rightarrow> Inr base
              | Less \<Rightarrow> Inl (base + 1)
              | Greater \<Rightarrow> Inl base)"

definition op_spec_of :: "string \<Rightarrow> op_spec option" where
  "op_spec_of op =
     (case binary_search_by (\<lambda>s. cmp (os_name s) op) op_table of
        Inr i \<Rightarrow> Some (op_table ! i)
      | Inl _ \<Rightarrow> None)"

definition gate_op :: "string \<Rightarrow> gate_denial + op_spec" where
  "gate_op op =
     (case op_spec_of op of
        None \<Rightarrow> Inl Unknown
      | Some s \<Rightarrow>
          if os_tier s = NeverImplement then Inl Unauthorizable
          else if os_coverage s \<noteq> Enforced then Inl NotEnforced
          else Inr s)"

definition enforced_ops :: "string list" where
  "enforced_ops = map os_name (filter (\<lambda>s. os_coverage s = Enforced) op_table)"

definition action_for :: "op_spec \<Rightarrow> action option" where
  "action_for s =
     (case os_verb s of
        None \<Rightarrow> None
      | Some verb \<Rightarrow> find (\<lambda>a. action_as_str a = verb) action_all)"

section \<open>Binary search is a lookup\<close>

lemma cmp_simps [simp]: "cmp a b = Equal \<longleftrightarrow> a = b" "cmp a b = Less \<longleftrightarrow> a < b" "cmp a b = Greater \<longleftrightarrow> b < a"
  by (auto simp: cmp_def)

lemma binary_search_loop_inv:
  assumes "sorted_wrt (<) (map key xs)" "0 < len" "base + len \<le> length xs"
    "\<forall>i < length xs. key (xs ! i) = k \<longrightarrow> base \<le> i \<and> i < base + len"
    "r = binary_search_loop (\<lambda>x. cmp (key x) k) xs base len"
  shows "r < length xs \<and> (\<forall>i < length xs. key (xs ! i) = (k :: 'b::linorder) \<longrightarrow> i = r)"
  using assms
proof (induction len arbitrary: base r rule: less_induct)
  case (less len)
  have mono: "key (xs ! i) < key (xs ! j)" if "i < j" "j < length xs" for i j
    using less.prems(1) that by (simp add: sorted_wrt_iff_nth_less)
  show ?case
  proof (cases "len > 1")
    case False
    have "len = 1" using False less.prems(2) by linarith
    moreover have "r = base"
      using less.prems(5) False by (subst (asm) binary_search_loop.simps) simp
    ultimately show ?thesis using less.prems(3,4) by (auto simp: le_less_Suc_eq)
  next
    case True
    define half where "half = len div 2"
    define mid where "mid = base + half"
    have h: "0 < half" "half < len" using True by (auto simp: half_def)
    have m: "mid < length xs" using h less.prems(3) by (simp add: mid_def)
    define base' where "base' = (if cmp (key (xs ! mid)) k = Greater then base else mid)"
    have r: "r = binary_search_loop (\<lambda>x. cmp (key x) k) xs base' (len - half)"
      using less.prems(5) True
      by (subst (asm) binary_search_loop.simps) (simp add: Let_def base'_def mid_def half_def)
    have hh: "half \<le> len - half" by (simp add: half_def)
    have "\<forall>i < length xs. key (xs ! i) = k \<longrightarrow> base' \<le> i \<and> i < base' + (len - half)"
    proof (intro allI impI)
      fix i assume i: "i < length xs" "key (xs ! i) = k"
      from less.prems(4) i have b: "base \<le> i" "i < base + len" by auto
      show "base' \<le> i \<and> i < base' + (len - half)"
      proof (cases "cmp (key (xs ! mid)) k = Greater")
        case True
        then have "k < key (xs ! mid)" by simp
        then have "i < mid" 
          using mono [of mid i] i m by (cases i mid rule: linorder_cases) auto
        then show ?thesis using True b hh by (simp add: base'_def mid_def)
      next
        case False
        then have "key (xs ! mid) \<le> k" by simp
        then have "mid \<le> i" 
          using mono [of i mid] i m by (cases i mid rule: linorder_cases) auto
        then show ?thesis using False b h by (simp add: base'_def mid_def)
      qed
    qed
    moreover have "base' + (len - half) \<le> length xs"
      using less.prems(3) h by (auto simp: base'_def mid_def)
    ultimately show ?thesis
      using less.IH [OF _ less.prems(1) _ _ _ r] h by simp
  qed
qed

lemma binary_search_by_find:
  fixes k :: "'b::linorder"
  assumes "sorted_wrt (<) (map key xs)"
  shows "(case binary_search_by (\<lambda>x. cmp (key x) k) xs of Inr i \<Rightarrow> Some (xs ! i) | Inl _ \<Rightarrow> None)
     = find (\<lambda>x. key x = k) xs"
proof (cases "xs = []")
  case True
  then show ?thesis by (simp add: binary_search_by_def)
next
  case False
  define r where "r = binary_search_loop (\<lambda>x. cmp (key x) k) xs 0 (length xs)"
  have "r < length xs \<and> (\<forall>i < length xs. key (xs ! i) = k \<longrightarrow> i = r)"
    by (rule binary_search_loop_inv [OF assms _ _ _ r_def]) (use False in simp_all)
  then have r: "r < length xs" "\<forall>i < length xs. key (xs ! i) = k \<longrightarrow> i = r"
    by blast+
  show ?thesis
  proof (cases "key (xs ! r) = k")
    case True
    have "\<forall>j < r. key (xs ! j) \<noteq> k"
      using r by (auto dest: less_trans)
    then have "find (\<lambda>x. key x = k) xs = Some (xs ! r)"
      using r(1) True unfolding find_Some_iff by blast
    then show ?thesis
      using False True by (simp add: binary_search_by_def Let_def split: ordering.split flip: r_def)
  next
    case no: False
    have "find (\<lambda>x. key x = k) xs = None"
      using r no unfolding find_None_iff in_set_conv_nth by blast
    then show ?thesis
      using False no by (simp add: binary_search_by_def Let_def split: ordering.split flip: r_def)
  qed
qed

section \<open>Facts about the table\<close>

lemmas op_table_defs =
  op_table_def op_table_1_def op_table_2_def op_table_3_def op_table_4_def op_table_5_def
  op_table_6_def enforced_def denied_def unauthorizable_def

lemma op_table_sorted: "sorted_wrt (<) (map os_name op_table)"
  by (rule ascending_sorted_wrt) (simp add: op_table_defs)

lemma op_spec_of_find: "op_spec_of op = find (\<lambda>s. os_name s = op) op_table"
  unfolding op_spec_of_def by (rule binary_search_by_find [OF op_table_sorted])

lemma op_table_names_distinct: "distinct (map os_name op_table)"
  using op_table_sorted by (simp add: strict_sorted_iff)

lemma op_spec_of_Some: "op_spec_of op = Some s \<longleftrightarrow> s \<in> set op_table \<and> os_name s = op"
proof
  assume "op_spec_of op = Some s"
  then show "s \<in> set op_table \<and> os_name s = op"
    by (auto simp: op_spec_of_find find_Some_iff)
next
  assume s: "s \<in> set op_table \<and> os_name s = op"
  then obtain s' where s': "find (\<lambda>s. os_name s = op) op_table = Some s'"
    by (metis (mono_tags, lifting) find_None_iff not_None_eq)
  then have "s' \<in> set op_table" "os_name s' = op"
    by (auto simp: find_Some_iff)
  with s op_table_names_distinct have "s' = s"
    by (metis distinct_map inj_onD)
  with s' show "op_spec_of op = Some s"
    by (simp add: op_spec_of_find)
qed

lemma op_spec_of_None: "op_spec_of op = None \<longleftrightarrow> op \<notin> os_name ` set op_table"
  by (auto simp: op_spec_of_find find_None_iff)

definition spec_ok :: "op_spec \<Rightarrow> bool" where
  "spec_ok s \<longleftrightarrow>
     (os_tier s = NeverImplement \<longleftrightarrow> os_verb s = None) \<and>
     (os_tier s = NeverImplement \<longrightarrow> os_coverage s = Denied) \<and>
     (case os_verb s of
        None \<Rightarrow> True
      | Some v \<Rightarrow> v \<in> set gateway_verbs \<or> (v \<in> set non_gateway_verbs \<and> os_coverage s = Denied))"

lemma op_table_ok: "list_all spec_ok op_table"
  by (simp add: op_table_defs spec_ok_def gateway_verbs_def non_gateway_verbs_def)

lemma gateway_verbs_are_actions: "set gateway_verbs = action_as_str ` set action_all"
  by (auto simp: gateway_verbs_def action_all_def)

lemma verb_sets_disjoint: "set gateway_verbs \<inter> set non_gateway_verbs = {}"
  by (simp add: gateway_verbs_def non_gateway_verbs_def)

lemma find_action: "find (\<lambda>a. action_as_str a = v) action_all = Some a \<longleftrightarrow> v = action_as_str a"
  by (cases a) (auto simp: action_all_def split: if_splits)

lemma action_for_Some: "action_for s = Some a \<longleftrightarrow> os_verb s = Some (action_as_str a)"
  by (auto simp: action_for_def find_action split: option.splits)

lemma enforced_tier: "s \<in> set op_table \<Longrightarrow> os_coverage s = Enforced \<Longrightarrow> os_tier s \<noteq> NeverImplement"
  using op_table_ok by (auto simp: list_all_iff spec_ok_def)

lemma gate_op_Inr:
  "gate_op op = Inr s \<longleftrightarrow> s \<in> set op_table \<and> os_name s = op \<and> os_coverage s = Enforced"
proof -
  have "gate_op op = Inr s \<longleftrightarrow> op_spec_of op = Some s \<and> os_coverage s = Enforced"
    using enforced_tier op_spec_of_Some [THEN iffD1, of op]
    by (cases "op_spec_of op") (auto simp: gate_op_def split: if_splits)
  then show ?thesis by (auto simp: op_spec_of_Some)
qed

lemma enforced_ops_member: "op \<in> set enforced_ops \<longleftrightarrow> (\<exists>s. gate_op op = Inr s)"
  by (auto simp: enforced_ops_def gate_op_Inr)

section \<open>Properties\<close>

text \<open>C26: The gate is the linear reading of the table. For every operation name, \<open>gate_op\<close> (which
  binary-searches) answers what the first entry of that name says: unknown when there is none,
  unauthorizable for a \<open>NeverImplement\<close> entry whatever its coverage, not enforced for a denied one,
  and the entry itself exactly for the rest.\<close>
theorem gate_op_reference:
  "gate_op op =
     (case find (\<lambda>s. os_name s = op) op_table of
        None \<Rightarrow> Inl Unknown
      | Some s \<Rightarrow>
          (case (os_tier s, os_coverage s) of
             (NeverImplement, _) \<Rightarrow> Inl Unauthorizable
           | (_, Denied) \<Rightarrow> Inl NotEnforced
           | (_, Enforced) \<Rightarrow> Inr s))"
  by (auto simp: gate_op_def op_spec_of_find split: option.split coverage.split danger_tier.split)

text \<open>Every operation the gate admits is decided against exactly one of the six gateway verbs, and
  no entry labelled with a control-plane authority is admitted or has a verb at all.\<close>
theorem enforced_vocabulary:
  assumes "gate_op op = Inr s" "os_verb t = Some v" "v \<in> set non_gateway_verbs"
  shows "(\<exists>!a. action_for s = Some a \<and> os_verb s = Some (action_as_str a)) \<and>
    action_for t = None \<and> gate_op op \<noteq> Inr t"
proof -
  from assms(1) have s: "s \<in> set op_table" "os_coverage s = Enforced" by (simp_all add: gate_op_Inr)
  then have "spec_ok s" using op_table_ok by (simp add: list_all_iff)
  with s have "\<exists>v. os_verb s = Some v \<and> v \<in> set gateway_verbs"
    by (auto simp: spec_ok_def split: option.splits)
  then obtain a where a: "os_verb s = Some (action_as_str a)"
    by (auto simp: gateway_verbs_are_actions)
  then have "action_as_str a \<in> set gateway_verbs"
    by (auto simp: gateway_verbs_are_actions action_all_complete)
  moreover have t: "action_for t \<noteq> Some b" for b
    using assms(2,3) verb_sets_disjoint action_all_complete
    by (auto simp: action_for_Some gateway_verbs_are_actions)
  ultimately show ?thesis
    using a assms verb_sets_disjoint by (auto simp: action_for_Some)
qed

theorem enforced_vocabulary_witness:
  "gate_op ''AbortMultipartUpload'' = Inr (hd op_table) \<and>
   (\<exists>!a. action_for (hd op_table) = Some a \<and> os_verb (hd op_table) = Some (action_as_str a))"
proof -
  have s: "gate_op ''AbortMultipartUpload'' = Inr (hd op_table)"
    by (simp add: gate_op_Inr op_table_def op_table_1_def enforced_def)
  show ?thesis
    using enforced_vocabulary [OF s, of "denied ''CreateBucket'' ''create_bucket'' Bucket Mutating"
        "''create_bucket''"] s
    by (auto simp: denied_def non_gateway_verbs_def)
qed

end
