(* ===== verification/S0_Headers.thy ===== *)
theory S0_Headers
  imports S0_Model
begin

text \<open>
  The riders of a write: \<open>src/src/access/headers.rs\<close> (ACL grants and their classification, the
  \<open>x-amz-tagging\<close> header, \<open>Content-Encoding\<close> without \<open>aws-chunked\<close>, the declared body length) and
  \<open>src/src/access/tagging.rs\<close> (the reserved tag keys a bundle publishes). \<open>hex_val\<close> and
  \<open>percent_decode\<close> of the source are in the prelude, because \<open>access/mod.rs\<close> repeats them.
\<close>

section \<open>ACL grants\<close>

definition no_op_canned_acls :: "string list" where
  "no_op_canned_acls = [''private'']"

definition public_canned_acls :: "string list" where
  "public_canned_acls = [''public-read'', ''public-read-write'', ''authenticated-read'']"

definition conferring_canned_acls :: "string list" where
  "conferring_canned_acls = [''bucket-owner-read'', ''bucket-owner-full-control'', ''aws-exec-read'']"

definition public_grantee_tokens :: "string list" where
  "public_grantee_tokens = [''allusers'', ''authenticatedusers'']"

record acl_fields =
  af_canned :: "string option"
  af_full_control :: "string option"
  af_read :: "string option"
  af_write :: "string option"
  af_read_acp :: "string option"
  af_write_acp :: "string option"

definition push_grant :: "string \<Rightarrow> string option \<Rightarrow> acl_grant list" where
  "push_grant source v = (case v of None \<Rightarrow> [] | Some x \<Rightarrow> [AclGrant source x])"

definition grants :: "acl_fields \<Rightarrow> acl_grant list" where
  "grants f =
     sort (push_grant ''acl'' (af_canned f)
       @ push_grant ''grant-full-control'' (af_full_control f)
       @ push_grant ''grant-read'' (af_read f)
       @ push_grant ''grant-write'' (af_write f)
       @ push_grant ''grant-read-acp'' (af_read_acp f)
       @ push_grant ''grant-write-acp'' (af_write_acp f))"

datatype acl_disposition =
    NoGrant
  | RefusedPublic string
  | RefusedConferring string

fun acl_refusal :: "acl_disposition \<Rightarrow> string option" where
  "acl_refusal NoGrant = None"
| "acl_refusal (RefusedPublic why) = Some why"
| "acl_refusal (RefusedConferring why) = Some why"

definition public_grant_reason :: "acl_grant \<Rightarrow> string option" where
  "public_grant_reason g =
     (if ag_source g = ''acl'' then
        let v = ag_value g in
        if v \<in> set no_op_canned_acls \<or> v \<in> set conferring_canned_acls then None
        else if v \<in> set public_canned_acls then
          Some (''the request carries the canned ACL '' @ debug_str v @
            '', which would grant access to every caller of this object store; public exposure is not brokered by this gateway and is refused in code, not by policy'')
        else
          Some (''the request carries the canned ACL '' @ debug_str v @
            '', which this gateway does not recognize and therefore cannot prove is not a public grant; refused'')
      else
        let lowered = to_ascii_lowercase (ag_value g) in
        (case find (\<lambda>t. contains_str lowered t) public_grantee_tokens of
           Some token \<Rightarrow>
             Some (''the request carries x-amz-'' @ ag_source g @ '' naming the '' @ token @
               '' group, which would grant access to every caller of this object store; public exposure is not brokered by this gateway and is refused in code, not by policy'')
         | None \<Rightarrow> None))"

definition conferring_reason :: "acl_grant \<Rightarrow> string" where
  "conferring_reason g =
     ''the request carries x-amz-'' @ ag_source g @ '' = '' @ debug_str (ag_value g) @
     '', which confers access on a principal this gateway did not grant it to. There is no verb that authorizes that: an object ACL is a second, backend-side access-control list the control plane does not project, cannot display and cannot revoke, so writing one through the gateway is a bypass of the managed access model. Refused in code, not by policy. Grant the principal access in the console instead''"

definition is_no_op_grant :: "acl_grant \<Rightarrow> bool" where
  "is_no_op_grant g \<longleftrightarrow> ag_source g = ''acl'' \<and> ag_value g \<in> set no_op_canned_acls"

fun classify_loop :: "acl_grant option \<Rightarrow> acl_grant list \<Rightarrow> acl_disposition" where
  "classify_loop conferring [] =
     (case conferring of None \<Rightarrow> NoGrant | Some g \<Rightarrow> RefusedConferring (conferring_reason g))"
| "classify_loop conferring (g # gs) =
     (case public_grant_reason g of
        Some reason \<Rightarrow> RefusedPublic reason
      | None \<Rightarrow>
          if is_no_op_grant g then classify_loop conferring gs
          else classify_loop (case conferring of None \<Rightarrow> Some g | Some c \<Rightarrow> Some c) gs)"

definition classify :: "acl_grant list \<Rightarrow> acl_disposition" where
  "classify gs = classify_loop None gs"

section \<open>The tagging header\<close>

fun parse_tagging_pairs :: "nat \<Rightarrow> nat \<Rightarrow> string btree \<Rightarrow> string list \<Rightarrow> string btree res" where
  "parse_tagging_pairs max_tags count tags [] = Inr tags"
| "parse_tagging_pairs max_tags count tags (pair # pairs) =
     (let count = count + 1 in
      if count > max_tags then
        Inl (''the x-amz-tagging header carries more than the '' @ nat_digits max_tags @ ''-tag cap'')
      else case split_once CHR ''='' pair of
        None \<Rightarrow>
          Inl (''the x-amz-tagging header carries '' @ debug_str pair @ '', which is not a key=value pair'')
      | Some (k, v) \<Rightarrow>
          let key = percent_decode k in
          if key = [] then Inl ''the x-amz-tagging header carries a tag with an empty key''
          else if map_of tags key \<noteq> None then
            Inl (''the x-amz-tagging header carries the key '' @ debug_str key @
              '' twice; the gateway will not authorize a tag set it cannot resolve the same way the backend will'')
          else parse_tagging_pairs max_tags count (btree_insert key (percent_decode v) tags) pairs)"

definition parse_tagging_header :: "string \<Rightarrow> nat \<Rightarrow> string btree res" where
  "parse_tagging_header header max_tags =
     (if CHR ''+'' \<in> set header then
        Inl ''the x-amz-tagging header contains a literal '+', which the gateway and the backend may decode differently (space vs plus); percent-encode it as %2B or %20''
      else if header = [] then Inr []
      else parse_tagging_pairs max_tags 0 [] (split_on CHR ''&'' header))"

record request_riders =
  rr_acl :: "acl_grant list"
  rr_tags :: "string btree option"
  rr_bypass_governance :: bool

definition riders_default :: request_riders where
  "riders_default = \<lparr>rr_acl = [], rr_tags = None, rr_bypass_governance = False\<rparr>"

definition riders_parse ::
  "acl_fields \<Rightarrow> string option \<Rightarrow> bool \<Rightarrow> nat \<Rightarrow> request_riders res" where
  "riders_parse acl tagging bypass max_tags =
     (case tagging of
        None \<Rightarrow> Inr \<lparr>rr_acl = grants acl, rr_tags = None, rr_bypass_governance = bypass\<rparr>
      | Some t \<Rightarrow>
          (case parse_tagging_header t max_tags of
             Inl e \<Rightarrow> Inl e
           | Inr tags \<Rightarrow>
               Inr \<lparr>rr_acl = grants acl, rr_tags = Some tags, rr_bypass_governance = bypass\<rparr>))"

definition riders_is_empty :: "request_riders \<Rightarrow> bool" where
  "riders_is_empty r \<longleftrightarrow> rr_acl r = [] \<and> rr_tags r = None \<and> \<not> rr_bypass_governance r"

section \<open>Body framing\<close>

definition strip_aws_chunked :: "string option \<Rightarrow> string option" where
  "strip_aws_chunked encoding =
     (case encoding of
        None \<Rightarrow> None
      | Some v \<Rightarrow>
          let kept = filter (\<lambda>c. c \<noteq> [] \<and> \<not> eq_ignore_ascii_case c ''aws-chunked'')
                (map trim (split_on CHR '','' v))
          in if kept \<noteq> [] then Some (join '','' kept) else None)"

text \<open>\<open>http::HeaderMap\<close>: lower-case names with their values in order of appearance. A header value is
  a byte string; \<open>to_str\<close> succeeds on visible ASCII, space and tab.\<close>

type_synonym header_map = "(string \<times> string) list"

definition get_all :: "header_map \<Rightarrow> string \<Rightarrow> string list" where
  "get_all hs n = map snd (filter (\<lambda>(k, _). k = n) hs)"

definition get_header :: "header_map \<Rightarrow> string \<Rightarrow> string option" where
  "get_header hs n = map_of hs n"

definition to_str :: "string \<Rightarrow> string option" where
  "to_str v =
     (if list_all (\<lambda>c. (32 \<le> code_of c \<and> code_of c < (127 :: nat)) \<or> code_of c = (9 :: nat)) v
      then Some v else None)"

definition is_aws_chunked :: "header_map \<Rightarrow> bool" where
  "is_aws_chunked hs \<longleftrightarrow>
     list_ex (\<lambda>c. eq_ignore_ascii_case (trim c) ''aws-chunked'')
       (concat (map (split_on CHR '','') (List.map_filter to_str (get_all hs ''content-encoding''))))
     \<or> (case get_header hs ''x-amz-content-sha256'' of
          None \<Rightarrow> False
        | Some v \<Rightarrow>
            (case to_str v of None \<Rightarrow> False | Some s \<Rightarrow> starts_with s ''STREAMING-''))"

definition declared_body_length :: "header_map \<Rightarrow> int option \<Rightarrow> int option" where
  "declared_body_length hs content_length =
     (if \<not> is_aws_chunked hs then content_length
      else case get_all hs ''x-amz-decoded-content-length'' of
        [v] \<Rightarrow> (case to_str v of None \<Rightarrow> None | Some digits \<Rightarrow> parse_i64_digits digits)
      | _ \<Rightarrow> None)"

section \<open>Reserved tag keys\<close>

type_synonym reserved_tag_keys = "string list option"

definition bundle_path :: "string list" where
  "bundle_path = [''org_settings'', ''reserved_tag_keys'']"

fun json_path :: "string list \<Rightarrow> json \<Rightarrow> json option" where
  "json_path [] v = Some v"
| "json_path (seg # segs) v = (case jget seg v of None \<Rightarrow> None | Some w \<Rightarrow> json_path segs w)"

fun all_strings :: "json list \<Rightarrow> string list option" where
  "all_strings [] = Some []"
| "all_strings (v # vs) =
     (case as_str_json v of
        None \<Rightarrow> None
      | Some s \<Rightarrow> (case all_strings vs of None \<Rightarrow> None | Some ss \<Rightarrow> Some (s # ss)))"

definition from_bundle :: "json \<Rightarrow> reserved_tag_keys" where
  "from_bundle data =
     (case json_path bundle_path data of
        None \<Rightarrow> None
      | Some v \<Rightarrow> (case as_array v of None \<Rightarrow> None | Some items \<Rightarrow> all_strings items))"

definition denies_all_tag_writes :: "reserved_tag_keys \<Rightarrow> bool" where
  "denies_all_tag_writes r =
     (case r of None \<Rightarrow> True | Some ks \<Rightarrow> list_ex (\<lambda>k. k = ''*'') ks)"

definition inert_reason :: "reserved_tag_keys \<Rightarrow> string option" where
  "inert_reason r =
     (if \<not> denies_all_tag_writes r then None
      else Some (case r of
        None \<Rightarrow>
          ''tag writes are refused: the control plane has not published org_settings.reserved_tag_keys, and an absent list denies every tag write rather than reserving nothing '' @ [CHR 0xE2, CHR 0x80, CHR 0x94] @ '' a tag can satisfy an ABAC grant condition, so the key space a policy may depend on has to be stated before any caller is allowed to write into it''
      | Some _ \<Rightarrow>
          ''tag writes are refused: org_settings.reserved_tag_keys reserves the whole key space ('' @ debug_str ''*'' @ '')''))"

definition pattern_matches :: "string \<Rightarrow> string \<Rightarrow> bool" where
  "pattern_matches pat key =
     (if pat \<noteq> [] \<and> last pat = CHR ''*'' then starts_with key (butlast pat) else pat = key)"

fun check_keys :: "string list \<Rightarrow> string list \<Rightarrow> unit res" where
  "check_keys reserved [] = Inr ()"
| "check_keys reserved (key # keys) =
     (case find (\<lambda>p. pattern_matches p key) reserved of
        Some pat \<Rightarrow>
          Inl (''the tag key '' @ debug_str key @ '' is reserved by the control plane (matched '' @
            debug_str pat @
            ''); a policy may condition grants on it, so a caller that could write it could grant itself access'')
      | None \<Rightarrow> check_keys reserved keys)"

definition check_tags :: "reserved_tag_keys \<Rightarrow> string btree \<Rightarrow> unit res" where
  "check_tags r tags =
     (case inert_reason r of
        Some reason \<Rightarrow> Inl reason
      | None \<Rightarrow>
          (case r of
             None \<Rightarrow> Inl ''tag writes are refused: no reserved-key list is available''
           | Some reserved \<Rightarrow> check_keys reserved (map fst tags)))"

section \<open>Lemmas\<close>

subsection \<open>Classification\<close>

definition is_public_grant :: "acl_grant \<Rightarrow> bool" where
  "is_public_grant g \<longleftrightarrow> public_grant_reason g \<noteq> None"

lemma no_op_not_public: "is_no_op_grant g \<Longrightarrow> \<not> is_public_grant g"
  by (simp add: is_no_op_grant_def is_public_grant_def public_grant_reason_def Let_def)

lemma is_public_grant_iff:
  "is_public_grant g \<longleftrightarrow>
     (if ag_source g = ''acl'' then ag_value g \<notin> set no_op_canned_acls \<union> set conferring_canned_acls
      else sublist ''allusers'' (to_ascii_lowercase (ag_value g)) \<or>
           sublist ''authenticatedusers'' (to_ascii_lowercase (ag_value g)))"
  by (auto simp: is_public_grant_def public_grant_reason_def Let_def public_grantee_tokens_def
      contains_str_iff split: option.splits)

lemma classify_loop_spec:
  "classify_loop c gs =
     (case find is_public_grant gs of
        Some g \<Rightarrow> RefusedPublic (the (public_grant_reason g))
      | None \<Rightarrow>
          (case c of
             Some g \<Rightarrow> RefusedConferring (conferring_reason g)
           | None \<Rightarrow>
               (case find (\<lambda>g. \<not> is_no_op_grant g) gs of
                  None \<Rightarrow> NoGrant
                | Some g \<Rightarrow> RefusedConferring (conferring_reason g))))"
  by (induction c gs rule: classify_loop.induct)
    (auto simp: is_public_grant_def dest: no_op_not_public split: option.splits)

lemma set_grants:
  "set (grants f) =
     set (push_grant ''acl'' (af_canned f)) \<union> set (push_grant ''grant-full-control'' (af_full_control f))
     \<union> set (push_grant ''grant-read'' (af_read f)) \<union> set (push_grant ''grant-write'' (af_write f))
     \<union> set (push_grant ''grant-read-acp'' (af_read_acp f))
     \<union> set (push_grant ''grant-write-acp'' (af_write_acp f))"
  by (simp add: grants_def Un_assoc)

lemma list_all_find: "list_all P xs \<longleftrightarrow> find (\<lambda>x. \<not> P x) xs = None"
  by (auto simp: find_None_iff list_all_iff)

subsection \<open>Tagging header\<close>

definition tag_pair :: "string \<times> string \<Rightarrow> string" where
  "tag_pair kv = percent_encode (fst kv) @ ''='' @ percent_encode (snd kv)"

lemma not_in_percent_encode:
  "c \<in> {CHR ''='', CHR ''&'', CHR ''+''} \<Longrightarrow> c \<notin> set (percent_encode s)"
  by (auto dest: set_percent_encode simp: is_hexdigit_def is_digit_def)

lemma split_once_tag_pair:
  "split_once CHR ''='' (tag_pair kv) = Some (percent_encode (fst kv), percent_encode (snd kv))"
  by (simp add: tag_pair_def not_in_percent_encode)

lemma set_tag_pair: "CHR ''&'' \<notin> set (tag_pair kv)" "CHR ''+'' \<notin> set (tag_pair kv)" "tag_pair kv \<noteq> []"
  by (simp_all add: tag_pair_def not_in_percent_encode)

lemma set_join: "set (join sep ps) \<subseteq> set sep \<union> \<Union> (set ` set ps)"
  by (induction sep ps rule: join.induct) auto

lemma btree_insert_snoc:
  "btree_ok (m @ [(k, v)]) \<Longrightarrow> btree_insert k v m = m @ [(k, v)]"
  by (induction m) (auto simp: btree_ok_def)

lemma btree_ok_append: "btree_ok (a @ b) \<Longrightarrow> btree_ok a \<and> btree_ok b"
  by (auto simp: btree_ok_def sorted_wrt_append)

lemma btree_ok_snoc_fresh: "btree_ok (m @ (k, v) # r) \<Longrightarrow> map_of m k = None"
  by (force simp: btree_ok_def sorted_wrt_append map_of_eq_None_iff)

definition tag_set_ok :: "string btree \<Rightarrow> bool" where
  "tag_set_ok tags \<longleftrightarrow>
     btree_ok tags \<and> list_all (\<lambda>(k, v). k \<noteq> [] \<and> valid_utf8 k \<and> valid_utf8 v) tags"

lemma parse_tagging_pairs_roundtrip:
  assumes "btree_ok (acc @ todo)" "count + length todo \<le> max_tags"
    "list_all (\<lambda>(k, v). k \<noteq> [] \<and> valid_utf8 k \<and> valid_utf8 v) todo"
  shows "parse_tagging_pairs max_tags count acc (map tag_pair todo) = Inr (acc @ todo)"
  using assms
proof (induction todo arbitrary: acc count)
  case (Cons kv todo)
  obtain k v where kv: "kv = (k, v)" by (cases kv)
  have ok: "btree_ok ((acc @ [(k, v)]) @ todo)" using Cons.prems(1) kv by simp
  then have "btree_insert k v acc = acc @ [(k, v)]"
    by (intro btree_insert_snoc) (blast dest: btree_ok_append)
  moreover have "map_of acc k = None"
    using Cons.prems(1) kv by (simp add: btree_ok_snoc_fresh)
  moreover have "parse_tagging_pairs max_tags (count + 1) (acc @ [(k, v)]) (map tag_pair todo)
      = Inr ((acc @ [(k, v)]) @ todo)"
    using Cons.prems by (intro Cons.IH [OF ok]) auto
  ultimately show ?case
    using Cons.prems kv by (simp add: split_once_tag_pair)
qed simp

definition decoded_pair :: "string \<Rightarrow> string btree \<Rightarrow> bool" where
  "decoded_pair pair tags \<longleftrightarrow>
     (case split_once CHR ''='' pair of
        None \<Rightarrow> False
      | Some (k, v) \<Rightarrow> percent_decode k \<noteq> [] \<and> map_of tags (percent_decode k) = Some (percent_decode v))"

lemma length_btree_insert: "map_of m k = None \<Longrightarrow> length (btree_insert k v m) = Suc (length m)"
  by (induction m) (auto split: if_splits)

lemma parse_tagging_pairs_sound:
  assumes "parse_tagging_pairs max_tags count tags pairs = Inr out" "btree_ok tags"
  shows "btree_ok out \<and> length out = length tags + length pairs \<and>
    (pairs \<noteq> [] \<longrightarrow> count + length pairs \<le> max_tags) \<and>
    list_all (\<lambda>p. decoded_pair p out) pairs \<and> (\<forall>k v. map_of tags k = Some v \<longrightarrow> map_of out k = Some v)"
  using assms
proof (induction max_tags count tags pairs rule: parse_tagging_pairs.induct)
  case (2 max_tags count tags pair pairs)
  from 2(2) obtain k v where kv: "split_once CHR ''='' pair = Some (k, v)" "count + 1 \<le> max_tags"
      "percent_decode k \<noteq> []" "map_of tags (percent_decode k) = None"
      "parse_tagging_pairs max_tags (count + 1) (btree_insert (percent_decode k) (percent_decode v) tags) pairs = Inr out"
    by (auto simp: Let_def split: if_splits option.splits)
  have "btree_ok out \<and> length out = length (btree_insert (percent_decode k) (percent_decode v) tags) + length pairs \<and>
    (pairs \<noteq> [] \<longrightarrow> count + 1 + length pairs \<le> max_tags) \<and> list_all (\<lambda>p. decoded_pair p out) pairs \<and>
    (\<forall>k' v'. map_of (btree_insert (percent_decode k) (percent_decode v) tags) k' = Some v' \<longrightarrow> map_of out k' = Some v')"
    using 2(1) [OF refl _ kv(1) refl refl _ _ kv(5)] kv 2(3) by (simp add: btree_insert_ok)
  then have out: "btree_ok out" "length out = length tags + length (pair # pairs)"
      "pairs \<noteq> [] \<longrightarrow> count + 1 + length pairs \<le> max_tags" "list_all (\<lambda>p. decoded_pair p out) pairs"
    and kept: "((map_of tags)(percent_decode k \<mapsto> percent_decode v)) k' = Some v' \<Longrightarrow> map_of out k' = Some v'" for k' v'
    using kv(4) by (auto simp: length_btree_insert)
  have "decoded_pair pair out"
    using kv(1,3) kept [of "percent_decode k"] by (simp add: decoded_pair_def)
  moreover have "map_of out k' = Some v'" if "map_of tags k' = Some v'" for k' v'
    using kept [of k' v'] that kv(4) by (cases "k' = percent_decode k") auto
  moreover have "count + length (pair # pairs) \<le> max_tags"
    using out(3) kv(2) by (cases pairs) auto
  ultimately show ?case using out by simp
qed simp

subsection \<open>Content-Encoding\<close>

lemma trim_trim [simp]: "trim (trim s) = trim s"
proof (cases "trim s = []")
  case False
  define t where "t = dropWhile is_space s"
  have t: "trim s = rev (dropWhile is_space (rev t))" by (simp add: trim_def t_def)
  with False have ne: "dropWhile is_space (rev t) \<noteq> []" by simp
  then have l: "\<not> is_space (last (trim s))"
    using hd_dropWhile [OF ne] by (simp add: t last_rev)
  have "prefix (trim s) t"
    unfolding t by (metis rev_rev_ident suffix_dropWhile suffix_to_prefix)
  then obtain u where u: "t = trim s @ u" by (auto simp: prefix_def)
  then have "hd (trim s) = hd t" "t \<noteq> []" using False by auto
  moreover have "\<not> is_space (hd t)" if "t \<noteq> []"
    using that hd_dropWhile [of is_space s] by (simp add: t_def dropWhile_eq_Nil_conv)
  ultimately show ?thesis using False l by (simp add: trim_id)
next
  case True
  have "trim [] = []" by (simp add: trim_def)
  with True show ?thesis by simp
qed

lemma strip_aws_chunked_parts:
  fixes e
  defines "kept \<equiv> filter (\<lambda>c. c \<noteq> [] \<and> \<not> eq_ignore_ascii_case c ''aws-chunked'') (map trim (split_on CHR '','' e))"
  shows "filter (\<lambda>c. c \<noteq> [] \<and> \<not> eq_ignore_ascii_case c ''aws-chunked'') (map trim kept) = kept"
    "\<forall>p \<in> set kept. CHR '','' \<notin> set p"
proof -
  have "map trim kept = kept" by (auto simp: kept_def intro!: map_idI)
  then show "filter (\<lambda>c. c \<noteq> [] \<and> \<not> eq_ignore_ascii_case c ''aws-chunked'') (map trim kept) = kept"
    by (simp only:) (simp add: kept_def)
  show "\<forall>p \<in> set kept. CHR '','' \<notin> set p"
    using set_trim_subset split_on_parts by (fastforce simp: kept_def)
qed

subsection \<open>Reserved keys\<close>

lemma check_keys_ok:
  "check_keys reserved keys = Inr () \<longleftrightarrow> list_all (\<lambda>k. list_all (\<lambda>p. \<not> pattern_matches p k) reserved) keys"
  by (induction reserved keys rule: check_keys.induct) (auto simp: list_all_find split: option.splits)

lemma pattern_matches_star: "pattern_matches ''*'' key"
  by (simp add: pattern_matches_def starts_with_def)

section \<open>Properties\<close>

text \<open>The ACL screen. A request passes exactly when every grant is a no-op canned ACL. Otherwise the
  first grant that reaches a public audience decides, and outranks every conferring one wherever it
  stands; only without one is the first remaining grant refused as conferring. A canned name
  outside the closed lists is public.\<close>
theorem classify_spec:
  "(classify gs = NoGrant \<longleftrightarrow> list_all is_no_op_grant gs) \<and>
   classify gs =
     (case find is_public_grant gs of
        Some g \<Rightarrow> RefusedPublic (the (public_grant_reason g))
      | None \<Rightarrow>
          (case find (\<lambda>g. \<not> is_no_op_grant g) gs of
             Some g \<Rightarrow> RefusedConferring (conferring_reason g)
           | None \<Rightarrow> NoGrant)) \<and>
   is_public_grant (AclGrant ''acl'' v) = (v \<notin> set no_op_canned_acls \<union> set conferring_canned_acls)"
proof (intro conjI)
  have "find is_public_grant gs = None" if "list_all is_no_op_grant gs"
    using that no_op_not_public by (auto simp: find_None_iff list_all_iff)
  then show "classify gs = NoGrant \<longleftrightarrow> list_all is_no_op_grant gs"
    by (auto simp: classify_def classify_loop_spec list_all_find split: option.splits)
qed (simp_all add: classify_def classify_loop_spec is_public_grant_iff split: option.splits)

text \<open>Tagging round trip. Percent-encoding a tag set (sorted keys, none empty, UTF-8) into the header
  and parsing it back under a cap it respects gives exactly that tag set.\<close>
theorem parse_tagging_header_roundtrip:
  assumes "tag_set_ok tags" "tags \<noteq> []" "length tags \<le> max_tags"
  shows "parse_tagging_header (join ''&'' (map tag_pair tags)) max_tags = Inr tags"
proof -
  have nonempty: "join ''&'' (map tag_pair tags) \<noteq> []"
    using assms(2) set_tag_pair(3) by (cases tags; cases "tl tags") auto
  have "CHR ''+'' \<notin> set (join ''&'' (map tag_pair tags))"
    using set_join [of "''&''" "map tag_pair tags"] set_tag_pair(2) by auto
  moreover have "split_on CHR ''&'' (join ''&'' (map tag_pair tags)) = map tag_pair tags"
    using assms(2) set_tag_pair(1) by (intro split_on_join) auto
  ultimately show ?thesis
    using nonempty assms parse_tagging_pairs_roundtrip [of "[]" tags 0 max_tags]
    by (simp add: parse_tagging_header_def tag_set_ok_def)
qed

theorem parse_tagging_header_roundtrip_witness:
  "parse_tagging_header (join ''&'' (map tag_pair [(''a b'', ''1+1''), (''tier'', [])])) 10
     = Inr [(''a b'', ''1+1''), (''tier'', [])]"
  by (rule parse_tagging_header_roundtrip)
    (simp_all add: tag_set_ok_def btree_ok_def valid_utf8_ascii)

text \<open>What a parsed tagging header means. On success the header had no plus sign and at most
  \<open>max_tags\<close> pairs, every pair was a \<open>key=value\<close> with a non-empty decoded key mapped to its decoded
  value, and the result has one entry per pair, so no key was given twice.\<close>
theorem parse_tagging_header_sound:
  assumes "parse_tagging_header header max_tags = Inr tags" "header \<noteq> []"
  shows "CHR ''+'' \<notin> set header \<and> btree_ok tags \<and> length tags \<le> max_tags \<and>
    length tags = length (split_on CHR ''&'' header) \<and>
    list_all (\<lambda>p. decoded_pair p tags) (split_on CHR ''&'' header)"
proof -
  have plus: "CHR ''+'' \<notin> set header"
    using assms(1) by (auto simp: parse_tagging_header_def split: if_splits)
  with assms have "parse_tagging_pairs max_tags 0 [] (split_on CHR ''&'' header) = Inr tags"
    by (simp add: parse_tagging_header_def)
  from parse_tagging_pairs_sound [OF this] plus show ?thesis
    by (simp add: btree_ok_def)
qed

theorem parse_tagging_header_sound_witness:
  "length [(''k'', ''v''), (''z'', ''1 2'')] = length (split_on CHR ''&'' ''z=1%202&k=v'')"
proof -
  have "char_of (32 :: nat) = CHR '' ''" by code_simp
  then have "parse_tagging_header ''z=1%202&k=v'' 5 = Inr [(''k'', ''v''), (''z'', ''1 2'')]"
    by (simp add: parse_tagging_header_def split_once_def percent_decode_def hex_val_def
        valid_utf8_ascii)
  from parse_tagging_header_sound [OF this] show ?thesis by simp
qed

text \<open>Reserved tag keys fail closed. A tag write passes the screen exactly when the bundle publishes a
  list of strings at \<open>org_settings.reserved_tag_keys\<close>, that list does not reserve everything, and no
  key of the write matches an entry, exactly or by its trailing-star prefix.\<close>
theorem check_tags_fail_closed:
  "check_tags (from_bundle data) tags = Inr () \<longleftrightarrow>
     (\<exists>items reserved. json_path [''org_settings'', ''reserved_tag_keys''] data = Some (JArr items) \<and>
        items = map JStr reserved \<and> ''*'' \<notin> set reserved \<and>
        list_all (\<lambda>k. list_all (\<lambda>p. \<not> pattern_matches p k) reserved) (map fst tags))"
proof -
  have arr: "as_array v = Some items \<longleftrightarrow> v = JArr items" for v items
    by (cases v) auto
  have str: "as_str_json v = Some t \<longleftrightarrow> v = JStr t" for v t
    by (cases v) auto
  have "all_strings (map JStr ss) = Some ss" for ss
    by (induction ss) auto
  moreover have "items = map JStr ss" if "all_strings items = Some ss" for items ss
    using that by (induction items arbitrary: ss) (auto simp: str split: option.splits)
  ultimately have all: "all_strings items = Some ss \<longleftrightarrow> items = map JStr ss" for items ss
    by metis
  have "check_tags r tags = Inr () \<longleftrightarrow>
     (\<exists>ks. r = Some ks \<and> ''*'' \<notin> set ks \<and>
        list_all (\<lambda>k. list_all (\<lambda>p. \<not> pattern_matches p k) ks) (map fst tags))" for r
    by (cases r) (auto simp: check_tags_def inert_reason_def denies_all_tag_writes_def
        list_ex_iff check_keys_ok)
  moreover have "from_bundle data = Some ks \<longleftrightarrow>
     (\<exists>items. json_path bundle_path data = Some (JArr items) \<and> items = map JStr ks)" for ks
    by (auto simp: from_bundle_def all arr split: option.splits)
  ultimately show ?thesis by (auto simp: bundle_path_def)
qed

text \<open>Dropping \<open>aws-chunked\<close> from a \<open>Content-Encoding\<close> is idempotent, and no coding of the result is
  empty or \<open>aws-chunked\<close> in any case.\<close>
lemma strip_aws_chunked_idem:
  "strip_aws_chunked (strip_aws_chunked e) = strip_aws_chunked e \<and>
   (case strip_aws_chunked e of
      None \<Rightarrow> True
    | Some v \<Rightarrow> list_all (\<lambda>c. c \<noteq> [] \<and> \<not> eq_ignore_ascii_case c ''aws-chunked'') (split_on CHR '','' v))"
proof (cases e)
  case None
  then show ?thesis by (simp add: strip_aws_chunked_def)
next
  case (Some v)
  define kept where "kept = filter (\<lambda>c. c \<noteq> [] \<and> \<not> eq_ignore_ascii_case c ''aws-chunked'')
    (map trim (split_on CHR '','' v))"
  show ?thesis
  proof (cases "kept = []")
    case True
    then show ?thesis by (simp add: Some strip_aws_chunked_def kept_def)
  next
    case False
    then have "strip_aws_chunked e = Some (join '','' kept)"
      by (simp add: Some strip_aws_chunked_def kept_def)
    moreover have "split_on CHR '','' (join '','' kept) = kept"
      using False strip_aws_chunked_parts(2) [of v] by (intro split_on_join) (simp_all add: kept_def)
    moreover have "filter (\<lambda>c. c \<noteq> [] \<and> \<not> eq_ignore_ascii_case c ''aws-chunked'') (map trim kept) = kept"
      using strip_aws_chunked_parts(1) [of v] by (simp add: kept_def)
    ultimately show ?thesis
      using False by (auto simp: strip_aws_chunked_def list_all_iff Let_def kept_def)
  qed
qed

end
