(* ===== verification/S0_Error.thy ===== *)
theory S0_Error
  imports S0_Prelude
begin

text \<open>
  Errors, \<open>src/src/error.rs\<close>: the gateway's own error type, and the re-minting that turns a backend's
  \<open>S3Error\<close> into the gateway's before it reaches a client. Of an \<open>s3s::S3Error\<close> the model keeps the
  code, the message, the status, the request id, and whether it has a source (which is how the
  code tells a backend error from its own refusals).
\<close>

datatype gateway_error =
    Pdp string
  | Bundle string
  | Credentials string
  | Sts string
  | Backend string
  | Audit string
  | Config string
  | Io string
  | Json string

fun gateway_error_display :: "gateway_error \<Rightarrow> string" where
  "gateway_error_display (Pdp s) = ''policy engine error: '' @ s"
| "gateway_error_display (Bundle s) = ''bundle error: '' @ s"
| "gateway_error_display (Credentials s) = ''credential store error: '' @ s"
| "gateway_error_display (Sts s) = ''sts error: '' @ s"
| "gateway_error_display (Backend s) = ''backend proxy error: '' @ s"
| "gateway_error_display (Audit s) = ''audit error: '' @ s"
| "gateway_error_display (Config s) = ''configuration error: '' @ s"
| "gateway_error_display (Io s) = s"
| "gateway_error_display (Json s) = s"

datatype s3_code = Known string | Custom string

fun s3_code_as_str :: "s3_code \<Rightarrow> string" where
  "s3_code_as_str (Known s) = s"
| "s3_code_as_str (Custom s) = s"

record s3_error =
  se_code :: s3_code
  se_message :: "string option"
  se_status :: "nat option"
  se_request_id :: "string option"
  se_has_source :: bool

definition s3_error_of :: "string \<Rightarrow> string \<Rightarrow> s3_error" where
  "s3_error_of code msg =
     \<lparr>se_code = Known code, se_message = Some msg, se_status = None, se_request_id = None,
      se_has_source = False\<rparr>"

definition is_backend_error :: "s3_error \<Rightarrow> bool" where
  "is_backend_error e \<longleftrightarrow> se_has_source e"

definition reminted_code :: "s3_code \<Rightarrow> s3_code" where
  "reminted_code code =
     (case code of
        Custom raw \<Rightarrow>
          if length raw \<le> 64 \<and> raw \<noteq> [] \<and> is_alpha (hd raw) \<and> list_all is_alphanumeric raw
          then code else Known ''InternalError''
      | Known _ \<Rightarrow> code)"

definition gateway_messages :: "(string \<times> string) list" where
  "gateway_messages =
     [(''AccessDenied'', ''Access Denied.''),
      (''AuthorizationHeaderMalformed'', ''The storage backend did not accept the gateway's credentials for this request.''),
      (''InvalidAccessKeyId'', ''The storage backend did not accept the gateway's credentials for this request.''),
      (''SignatureDoesNotMatch'', ''The storage backend did not accept the gateway's credentials for this request.''),
      (''BadDigest'', ''The Content-MD5 or checksum you specified did not match what was received.''),
      (''BucketNotEmpty'', ''The bucket you tried to delete is not empty.''),
      (''ConditionalRequestConflict'', ''A conflicting operation is in progress against this resource. Please try again.''),
      (''OperationAborted'', ''A conflicting operation is in progress against this resource. Please try again.''),
      (''EntityTooLarge'', ''Your proposed upload exceeds the maximum allowed object size.''),
      (''EntityTooSmall'', ''Your proposed upload is smaller than the minimum allowed object size.''),
      (''IncompleteBody'', ''You did not provide the number of bytes specified by the Content-Length HTTP header.''),
      (''InternalError'', ''The storage backend encountered an internal error. Please try again.''),
      (''InvalidArgument'', ''Invalid argument.''),
      (''InvalidBucketName'', ''The specified bucket is not valid.''),
      (''InvalidDigest'', ''The Content-MD5 or checksum you specified is not valid.''),
      (''InvalidObjectState'', ''The operation is not valid for the current state of the object.''),
      (''InvalidPart'', ''One or more of the specified parts could not be found.''),
      (''InvalidPartOrder'', ''The list of parts was not in ascending order.''),
      (''InvalidRange'', ''The requested range is not satisfiable.''),
      (''InvalidRequest'', ''Invalid request.''),
      (''InvalidStorageClass'', ''The storage class you specified is not valid.''),
      (''InvalidTag'', ''The tag provided was not a valid tag.''),
      (''KeyTooLongError'', ''Your key is too long.''),
      (''MalformedXML'', ''The XML you provided was not well-formed or did not validate.''),
      (''MethodNotAllowed'', ''The specified method is not allowed against this resource.''),
      (''MissingContentLength'', ''You must provide the Content-Length HTTP header.''),
      (''NoSuchBucket'', ''The specified bucket does not exist.''),
      (''NoSuchKey'', ''The specified key does not exist.''),
      (''NoSuchTagSet'', ''There is no tag set associated with the object.''),
      (''NoSuchUpload'', ''The specified multipart upload does not exist.''),
      (''NoSuchVersion'', ''The specified version does not exist.''),
      (''NotImplemented'', ''The storage backend does not implement this functionality.''),
      (''NotModified'', ''Not Modified.''),
      (''PreconditionFailed'', ''At least one of the preconditions you specified did not hold.''),
      (''QuotaExceeded'', ''The storage quota for this bucket or tenant has been exceeded.''),
      (''RequestTimeTooSkewed'', ''The difference between the request time and the storage backend's time is too large.''),
      (''RequestTimeout'', ''The storage backend timed out waiting for the request.''),
      (''ServiceUnavailable'', ''The storage backend is unavailable. Please try again.''),
      (''SlowDown'', ''Please reduce your request rate.''),
      (''TooManyParts'', ''The upload has more parts than the storage backend allows.''),
      (''XAmzContentSHA256Mismatch'', ''The provided x-amz-content-sha256 header does not match what was computed.'')]"

definition gateway_message :: "s3_code \<Rightarrow> nat option \<Rightarrow> string" where
  "gateway_message code status =
     (case map_of gateway_messages (s3_code_as_str code) of
        Some msg \<Rightarrow> msg
      | None \<Rightarrow>
          (case status of
             Some s \<Rightarrow>
               if 400 \<le> s \<and> s \<le> 499 then ''The storage backend refused the request.''
               else ''The storage backend could not complete the request.''
           | None \<Rightarrow> ''The storage backend could not complete the request.''))"

definition remint_backend_error :: "s3_error \<Rightarrow> string \<Rightarrow> s3_error" where
  "remint_backend_error err request_id =
     (let code = reminted_code (se_code err); status = se_status err in
      \<lparr>se_code = code, se_message = Some (gateway_message code status), se_status = status,
       se_request_id = Some request_id, se_has_source = True\<rparr>)"

definition plain_code :: "s3_code \<Rightarrow> bool" where
  "plain_code code \<longleftrightarrow>
     (case code of
        Known _ \<Rightarrow> True
      | Custom raw \<Rightarrow> raw \<noteq> [] \<and> length raw \<le> 64 \<and> list_all is_alphanumeric raw)"

definition fixed_messages :: "string list" where
  "fixed_messages =
     map snd gateway_messages @
     [''The storage backend refused the request.'', ''The storage backend could not complete the request.'']"

text \<open>C28: No backend text crosses. What a client is told of a backend error is its code (one \<open>s3s\<close> knows, or
  a plain alphanumeric identifier of at most 64 characters), its status, one of the gateway's own
  fixed messages and the gateway's request id; two backend errors with the same code and status
  are answered identically whatever else they say.\<close>
theorem remint_reveals_code_and_status_only:
  "plain_code (se_code (remint_backend_error e rid)) \<and>
   se_status (remint_backend_error e rid) = se_status e \<and>
   se_request_id (remint_backend_error e rid) = Some rid \<and>
   (\<exists>msg. se_message (remint_backend_error e rid) = Some msg \<and> msg \<in> set fixed_messages) \<and>
   remint_backend_error (e\<lparr>se_message := m, se_request_id := r\<rparr>) rid = remint_backend_error e rid"
proof -
  have "gateway_message code status \<in> set fixed_messages" for code status
  proof (cases "map_of gateway_messages (s3_code_as_str code)")
    case None
    then show ?thesis by (simp add: gateway_message_def fixed_messages_def split: option.split)
  next
    case (Some msg)
    then have "msg \<in> set (map snd gateway_messages)"
      by (force dest: map_of_SomeD)
    with Some show ?thesis by (simp add: gateway_message_def fixed_messages_def)
  qed
  then show ?thesis
    by (auto simp: remint_backend_error_def Let_def plain_code_def reminted_code_def split: s3_code.splits)
qed

end
