(* ===== verification/S0_Quota.thy ===== *)
theory S0_Quota
  imports S0_Model S0_Error
begin

text \<open>
  Byte quotas, \<open>src/src/quota.rs\<close>: reading a quota out of a bundle, the per-level counters and their
  one-second slots, the ledger's admission of a write at its bucket, tenant and backend under one
  lock, the reservation an admitted write holds until the backend's answer settles it, and the
  tracked client body. Times are nanoseconds since the epoch. The RFC 3339 reader and writer and
  the JSON printer are third-party code and parameters here; \<open>Utc::now()\<close> is an argument.
\<close>

section \<open>Quotas as a bundle states them\<close>

record quota =
  q_limit_bytes :: u64
  q_used_bytes :: u64
  q_collected_at :: int

definition quota_bytes_field :: "json btree \<Rightarrow> string \<Rightarrow> u64 res" where
  "quota_bytes_field object field =
     (case map_of object field of
        None \<Rightarrow> Inl (field @ '' is missing or not an unsigned integer'')
      | Some v \<Rightarrow>
          (case as_u64 v of
             None \<Rightarrow> Inl (field @ '' is missing or not an unsigned integer'')
           | Some n \<Rightarrow> Inr n))"

definition quota_from_value :: "(json \<Rightarrow> string) \<Rightarrow> (string \<Rightarrow> int option) \<Rightarrow> json \<Rightarrow> quota res" where
  "quota_from_value show_json parse_from_rfc3339 v =
     (case as_object v of
        None \<Rightarrow> Inl (''not an object: '' @ show_json v)
      | Some object \<Rightarrow>
          (case quota_bytes_field object ''limit_bytes'' of
             Inl e \<Rightarrow> Inl e
           | Inr limit \<Rightarrow>
               (case quota_bytes_field object ''used_bytes'' of
                  Inl e \<Rightarrow> Inl e
                | Inr used \<Rightarrow>
                    (case Option.bind (Option.bind (map_of object ''collected_at'') as_str_json)
                            parse_from_rfc3339 of
                       None \<Rightarrow> Inl ''collected_at is missing or not RFC 3339''
                     | Some t \<Rightarrow>
                         Inr \<lparr>q_limit_bytes = limit, q_used_bytes = used, q_collected_at = t\<rparr>))))"

datatype quota_spec = Limit quota | UnreadableSpec string

definition quota_spec_read ::
  "(json \<Rightarrow> string) \<Rightarrow> (string \<Rightarrow> int option) \<Rightarrow> json option \<Rightarrow> quota_spec option" where
  "quota_spec_read show_json parse_from_rfc3339 v =
     (case v of
        None \<Rightarrow> None
      | Some w \<Rightarrow>
          if w = JNull then None
          else Some (case quota_from_value show_json parse_from_rfc3339 w of
                       Inr q \<Rightarrow> Limit q
                     | Inl why \<Rightarrow> UnreadableSpec why))"

datatype quota_scope = ScopeBucket string | ScopeTenant string | ScopeBackend string

record write_target =
  wt_backend :: string
  wt_tenant :: string
  wt_bucket :: string

definition quota_scope_of :: "write_target \<Rightarrow> quota_scope list" where
  "quota_scope_of t =
     [ScopeBucket (wt_bucket t), ScopeTenant (wt_tenant t), ScopeBackend (wt_backend t)]"

fun quota_scope_describe :: "quota_scope \<Rightarrow> string" where
  "quota_scope_describe (ScopeBucket name) = ''bucket '' @ debug_str name"
| "quota_scope_describe (ScopeTenant name) = ''tenant '' @ debug_str name"
| "quota_scope_describe (ScopeBackend name) = ''backend '' @ debug_str name"

fun quota_scope_client_message :: "quota_scope \<Rightarrow> string" where
  "quota_scope_client_message (ScopeBucket _) = ''The storage quota for this bucket has been exceeded.''"
| "quota_scope_client_message (ScopeTenant _) = ''The storage quota for this tenant has been exceeded.''"
| "quota_scope_client_message (ScopeBackend _) =
     ''The organization's storage quota on this backend has been exceeded.''"

record bundle_quotas =
  bq_generation :: u64
  bq_specs :: "quota_scope \<rightharpoonup> quota_spec"

definition applicable :: "bundle_quotas \<Rightarrow> write_target \<Rightarrow> (quota_scope \<times> quota_spec) list" where
  "applicable quotas t =
     List.map_filter (\<lambda>scope. case bq_specs quotas scope of None \<Rightarrow> None | Some s \<Rightarrow> Some (scope, s))
       (quota_scope_of t)"

definition applies_to :: "bundle_quotas \<Rightarrow> write_target \<Rightarrow> bool" where
  "applies_to quotas t \<longleftrightarrow> list_ex (\<lambda>s. bq_specs quotas s \<noteq> None) (quota_scope_of t)"

section \<open>Refusals\<close>

datatype quota_refusal =
    Exceeded (qx_scope: quota_scope) (qx_limit_bytes: u64) (qx_used_bytes: u64)
      (qx_collected_at: int) (qx_counted_bytes: u64) (qx_write_bytes: u64)
  | Unreadable (qx_scope: quota_scope) (qx_why: string)
  | UnknownSize (qx_scope: quota_scope)

fun quota_refusal_reason :: "(int \<Rightarrow> string) \<Rightarrow> quota_refusal \<Rightarrow> string" where
  "quota_refusal_reason to_rfc3339 (Exceeded scope limit used at counted w) =
     ''deny (gateway): storage quota exceeded: this write adds '' @ nat_digits (unat w) @
     '' bytes to '' @ quota_scope_describe scope @ '', which held '' @ nat_digits (unat used) @
     '' bytes at '' @ to_rfc3339 at @ '' and has accepted '' @ nat_digits (unat counted) @
     '' bytes since, against a limit of '' @ nat_digits (unat limit) @ '' bytes''"
| "quota_refusal_reason to_rfc3339 (Unreadable scope why) =
     ''deny (gateway): the policy bundle's storage quota for '' @ quota_scope_describe scope @
     '' cannot be read ('' @ why @
     ''); writes to it are refused until the control plane serves a readable one''"
| "quota_refusal_reason to_rfc3339 (UnknownSize scope) =
     ''deny (gateway): a storage quota applies to '' @ quota_scope_describe scope @
     '', and the request does not say how many bytes it writes (no Content-Length, nor an x-amz-decoded-content-length for an aws-chunked body)''"

definition quota_unreadable :: string where
  "quota_unreadable =
     ''deny (gateway): a storage quota applies to this write, and the policy bundle in force cannot state it''"

definition quota_needs_a_size :: string where
  "quota_needs_a_size =
     ''deny (gateway): a storage quota applies to this write, which must state its size (Content-Length, or x-amz-decoded-content-length for an aws-chunked body)''"

fun quota_refusal_to_s3_error :: "quota_refusal \<Rightarrow> s3_error" where
  "quota_refusal_to_s3_error (Exceeded scope _ _ _ _ _) =
     \<lparr>se_code = Custom ''QuotaExceeded'', se_message = Some (quota_scope_client_message scope),
      se_status = Some 403, se_request_id = None, se_has_source = False\<rparr>"
| "quota_refusal_to_s3_error (Unreadable _ _) = s3_error_of ''AccessDenied'' quota_unreadable"
| "quota_refusal_to_s3_error (UnknownSize _) = s3_error_of ''MissingContentLength'' quota_needs_a_size"

section \<open>Counters\<close>

definition max_settled_slots :: nat where
  "max_settled_slots = 256"

record slot =
  sl_end :: int
  sl_bytes :: u64

record counter =
  c_collected_at :: int
  c_used_bytes :: u64
  c_in_flight :: u64
  c_settled :: "slot list"
  c_settled_bytes :: u64

definition timestamp :: "int \<Rightarrow> int" where
  "timestamp t = t div 1000000000"

definition subsec_nanos :: "int \<Rightarrow> int" where
  "subsec_nanos t = t mod 1000000000"

definition counter_new :: "quota \<Rightarrow> counter" where
  "counter_new q =
     \<lparr>c_collected_at = q_collected_at q, c_used_bytes = q_used_bytes q, c_in_flight = 0,
      c_settled = [], c_settled_bytes = 0\<rparr>"

fun drop_covered :: "int \<Rightarrow> u64 \<Rightarrow> slot list \<Rightarrow> u64 \<times> slot list" where
  "drop_covered covered settled_bytes [] = (settled_bytes, [])"
| "drop_covered covered settled_bytes (s # ss) =
     (if sl_end s > covered then (settled_bytes, s # ss)
      else drop_covered covered (sat_sub settled_bytes (sl_bytes s)) ss)"

definition counter_observe :: "quota \<Rightarrow> counter \<Rightarrow> counter" where
  "counter_observe q c =
     (if q_collected_at q \<le> c_collected_at c then c
      else case drop_covered (timestamp (q_collected_at q)) (c_settled_bytes c) (c_settled c) of
        (bytes, slots) \<Rightarrow>
          c\<lparr>c_collected_at := q_collected_at q, c_used_bytes := q_used_bytes q,
            c_settled := slots, c_settled_bytes := bytes\<rparr>)"

definition counter_counted :: "counter \<Rightarrow> u64" where
  "counter_counted c = sat_add (c_in_flight c) (c_settled_bytes c)"

definition counter_is_empty :: "counter \<Rightarrow> bool" where
  "counter_is_empty c \<longleftrightarrow> c_in_flight c = 0 \<and> c_settled_bytes c = 0"

definition push_slot :: "int \<Rightarrow> u64 \<Rightarrow> slot list \<Rightarrow> slot list" where
  "push_slot end_s bytes slots =
     (if slots \<noteq> [] \<and> sl_end (last slots) \<ge> end_s
      then butlast slots @ [(last slots)\<lparr>sl_bytes := sat_add (sl_bytes (last slots)) bytes\<rparr>]
      else slots @ [\<lparr>sl_end = end_s, sl_bytes = bytes\<rparr>])"

definition merge_oldest :: "slot list \<Rightarrow> slot list" where
  "merge_oldest slots =
     (if length slots > max_settled_slots then
        (case slots of
           oldest # next_slot # rest \<Rightarrow>
             next_slot\<lparr>sl_bytes := sat_add (sl_bytes next_slot) (sl_bytes oldest)\<rparr> # rest
         | _ \<Rightarrow> slots)
      else slots)"

definition slot_end :: "int \<Rightarrow> int" where
  "slot_end at = timestamp at + (if subsec_nanos at > 0 then 1 else 0)"

definition counter_settle :: "u64 \<Rightarrow> int option \<Rightarrow> counter \<Rightarrow> counter" where
  "counter_settle bytes completed_at c =
     (let c = c\<lparr>c_in_flight := sat_sub (c_in_flight c) bytes\<rparr> in
      case completed_at of
        None \<Rightarrow> c
      | Some at \<Rightarrow>
          if bytes > 0 then
            c\<lparr>c_settled_bytes := sat_add (c_settled_bytes c) bytes,
              c_settled := merge_oldest (push_slot (slot_end at) bytes (c_settled c))\<rparr>
          else c)"

section \<open>The ledger\<close>

record ledger_state =
  ls_counters :: "quota_scope \<rightharpoonup> counter"
  ls_swept :: u64

definition ledger_new :: ledger_state where
  "ledger_new = \<lparr>ls_counters = Map.empty, ls_swept = 0\<rparr>"

definition sweep_counter :: "quota_spec option \<Rightarrow> counter \<Rightarrow> counter option" where
  "sweep_counter spec c =
     (case spec of
        Some (Limit q) \<Rightarrow>
          let c = counter_observe q c in if counter_is_empty c then None else Some c
      | _ \<Rightarrow>
          if c_in_flight c = 0 then None else if counter_is_empty c then None else Some c)"

definition sweep :: "bundle_quotas \<Rightarrow> ledger_state \<Rightarrow> ledger_state" where
  "sweep quotas st =
     (if bq_generation quotas \<le> ls_swept st then st
      else \<lparr>ls_counters =
              (\<lambda>scope. case ls_counters st scope of
                 None \<Rightarrow> None
               | Some c \<Rightarrow> sweep_counter (bq_specs quotas scope) c),
            ls_swept = bq_generation quotas\<rparr>)"

record body_progress =
  bp_tracked :: bool
  bp_delivered :: u64
  bp_ended :: bool
  bp_failed :: bool

definition body_progress_default :: body_progress where
  "body_progress_default =
     \<lparr>bp_tracked = False, bp_delivered = 0, bp_ended = False, bp_failed = False\<rparr>"

record quota_reservation =
  qr_scopes :: "quota_scope list"
  qr_bytes :: u64
  qr_settled :: bool
  qr_dispatched :: bool
  qr_body :: body_progress

datatype admission = Unlimited | Reserved quota_reservation | Refused quota_refusal

fun read_limits :: "(quota_scope \<times> quota_spec) list \<Rightarrow> quota_refusal + (quota_scope \<times> quota) list" where
  "read_limits [] = Inr []"
| "read_limits ((scope, spec) # rest) =
     (case spec of
        UnreadableSpec why \<Rightarrow> Inl (Unreadable scope why)
      | Limit q \<Rightarrow>
          (case read_limits rest of
             Inl e \<Rightarrow> Inl e
           | Inr limits \<Rightarrow> Inr ((scope, q) # limits)))"

definition entry_observed :: "quota \<Rightarrow> counter option \<Rightarrow> counter" where
  "entry_observed q c = counter_observe q (case c of None \<Rightarrow> counter_new q | Some c \<Rightarrow> c)"

fun check_limits ::
  "u64 \<Rightarrow> (quota_scope \<times> quota) list \<Rightarrow> ledger_state \<Rightarrow> ledger_state \<times> quota_refusal option" where
  "check_limits bytes [] st = (st, None)"
| "check_limits bytes ((scope, q) # rest) st =
     (let c = entry_observed q (ls_counters st scope);
          st = st\<lparr>ls_counters := (ls_counters st)(scope \<mapsto> c)\<rparr>;
          counted = counter_counted c
      in if sat_add (sat_add (c_used_bytes c) counted) bytes > q_limit_bytes q
         then (st, Some (Exceeded scope (q_limit_bytes q) (c_used_bytes c) (c_collected_at c) counted bytes))
         else check_limits bytes rest st)"

definition add_in_flight :: "u64 \<Rightarrow> counter \<Rightarrow> counter" where
  "add_in_flight bytes c = c\<lparr>c_in_flight := sat_add (c_in_flight c) bytes\<rparr>"

definition update_counters :: "(counter \<Rightarrow> counter) \<Rightarrow> quota_scope list \<Rightarrow> ledger_state \<Rightarrow> ledger_state" where
  "update_counters f scopes st =
     fold (\<lambda>scope st. case ls_counters st scope of
             None \<Rightarrow> st
           | Some c \<Rightarrow> st\<lparr>ls_counters := (ls_counters st)(scope \<mapsto> f c)\<rparr>) scopes st"

definition admit ::
  "bundle_quotas \<Rightarrow> write_target \<Rightarrow> u64 option \<Rightarrow> ledger_state \<Rightarrow> ledger_state \<times> admission" where
  "admit quotas t bytes st =
     (case applicable quotas t of
        [] \<Rightarrow> (st, Unlimited)
      | (narrowest, spec) # others \<Rightarrow>
          (case read_limits ((narrowest, spec) # others) of
             Inl e \<Rightarrow> (st, Refused e)
           | Inr limits \<Rightarrow>
               (case bytes of
                  None \<Rightarrow> (st, Refused (UnknownSize narrowest))
                | Some b \<Rightarrow>
                    (case check_limits b limits (sweep quotas st) of
                       (st, Some e) \<Rightarrow> (st, Refused e)
                     | (st, None) \<Rightarrow>
                         let scopes = map fst limits in
                         (update_counters (add_in_flight b) scopes st,
                          Reserved \<lparr>qr_scopes = scopes, qr_bytes = b, qr_settled = False,
                                    qr_dispatched = False, qr_body = body_progress_default\<rparr>)))))"

definition ledger_counted :: "quota_scope \<Rightarrow> ledger_state \<Rightarrow> u64 option" where
  "ledger_counted scope st = map_option counter_counted (ls_counters st scope)"

definition ledger_settle ::
  "quota_scope list \<Rightarrow> u64 \<Rightarrow> int option \<Rightarrow> ledger_state \<Rightarrow> ledger_state" where
  "ledger_settle scopes bytes completed_at st =
     update_counters (counter_settle bytes completed_at) scopes st"

section \<open>Reservations\<close>

definition reservation_settle ::
  "int option \<Rightarrow> quota_reservation \<Rightarrow> ledger_state \<Rightarrow> quota_reservation \<times> ledger_state" where
  "reservation_settle completed_at r st =
     (if qr_settled r then (r, st)
      else (r\<lparr>qr_settled := True\<rparr>, ledger_settle (qr_scopes r) (qr_bytes r) completed_at st))"

definition reservation_commit ::
  "int \<Rightarrow> quota_reservation \<Rightarrow> ledger_state \<Rightarrow> quota_reservation \<times> ledger_state" where
  "reservation_commit now r st = reservation_settle (Some now) r st"

definition reservation_release ::
  "quota_reservation \<Rightarrow> ledger_state \<Rightarrow> quota_reservation \<times> ledger_state" where
  "reservation_release r st = reservation_settle None r st"

definition mark_dispatched :: "quota_reservation \<Rightarrow> quota_reservation" where
  "mark_dispatched r = r\<lparr>qr_dispatched := True\<rparr>"

definition may_have_been_stored :: "quota_reservation \<Rightarrow> bool" where
  "may_have_been_stored r \<longleftrightarrow>
     (if \<not> qr_dispatched r then False
      else if \<not> bp_tracked (qr_body r) then True
      else \<not> bp_failed (qr_body r) \<and> (bp_ended (qr_body r) \<or> bp_delivered (qr_body r) \<ge> qr_bytes r))"

definition settle_unknown ::
  "int \<Rightarrow> quota_reservation \<Rightarrow> ledger_state \<Rightarrow> quota_reservation \<times> ledger_state" where
  "settle_unknown now r st =
     (if may_have_been_stored r then reservation_commit now r st else reservation_release r st)"

definition drop_reservation ::
  "int \<Rightarrow> quota_reservation \<Rightarrow> ledger_state \<Rightarrow> quota_reservation \<times> ledger_state" where
  "drop_reservation now r st = settle_unknown now r st"

definition track_body :: "quota_reservation \<Rightarrow> quota_reservation" where
  "track_body r = r\<lparr>qr_body := (qr_body r)\<lparr>bp_tracked := True\<rparr>\<rparr>"

section \<open>The tracked body\<close>

text \<open>One poll of the inner body: a frame (data, or trailers without data), an error, the end, or
  nothing yet. The frame's length is that of its data.\<close>

datatype frame = DataFrame string | TrailersFrame

datatype 'e poll = Ready_Frame frame | Ready_Err 'e | Ready_End | Pending

datatype 'e body_error = BodyOverran u64 | InnerError 'e

definition poll_frame ::
  "u64 \<Rightarrow> 'e poll \<Rightarrow> body_progress \<Rightarrow> body_progress \<times> 'e body_error poll" where
  "poll_frame charged polled p =
     (case polled of
        Ready_Frame (DataFrame data) \<Rightarrow>
          let len = of_nat (length data);
              before = bp_delivered p;
              p = p\<lparr>bp_delivered := before + len\<rparr>
          in if sat_add before len > charged
             then (p\<lparr>bp_failed := True\<rparr>, Ready_Err (BodyOverran charged))
             else (p, Ready_Frame (DataFrame data))
      | Ready_Frame TrailersFrame \<Rightarrow> (p, Ready_Frame TrailersFrame)
      | Ready_Err e \<Rightarrow> (p\<lparr>bp_failed := True\<rparr>, Ready_Err (InnerError e))
      | Ready_End \<Rightarrow> (p\<lparr>bp_ended := True\<rparr>, Ready_End)
      | Pending \<Rightarrow> (p, Pending))"

section \<open>A counter as an account\<close>

text \<open>What a counter promises its client, the ledger: it stands for the bytes in flight and for every
  completed write (with its time), and what it counts is never less than what is in flight plus
  what completed after its newest collection.\<close>

definition completed_after :: "int \<Rightarrow> (int \<times> nat) list \<Rightarrow> nat" where
  "completed_after \<tau> ws = sum_list (map snd (filter (\<lambda>(t, _). t > \<tau>) ws))"

lemma completed_after_simps [simp]:
  "completed_after \<tau> [] = 0"
  "completed_after \<tau> ((t, b) # ws) = (if t > \<tau> then b else 0) + completed_after \<tau> ws"
  by (simp_all add: completed_after_def)

datatype counter_event = Observe quota | Reserve u64 | Settle u64 "int option"

locale quota_account =
  fixes open_account :: "quota \<Rightarrow> 'c"
    and observe :: "quota \<Rightarrow> 'c \<Rightarrow> 'c"
    and reserve :: "u64 \<Rightarrow> 'c \<Rightarrow> 'c"
    and settle :: "u64 \<Rightarrow> int option \<Rightarrow> 'c \<Rightarrow> 'c"
    and counted :: "'c \<Rightarrow> u64"
    and collected :: "'c \<Rightarrow> int"
    and stands_for :: "'c \<Rightarrow> nat \<Rightarrow> (int \<times> nat) list \<Rightarrow> bool"
  assumes open_stands: "stands_for (open_account q) 0 []"
    and observe_stands: "stands_for c fl ws \<Longrightarrow> stands_for (observe q c) fl ws"
    and reserve_stands:
      "stands_for c fl ws \<Longrightarrow> unat (counted c) + unat b < 2 ^ 64 \<Longrightarrow> stands_for (reserve b c) (fl + unat b) ws"
    and settle_stands:
      "stands_for c fl ws \<Longrightarrow> unat b \<le> fl \<Longrightarrow>
       stands_for (settle b at c) (fl - unat b) (case at of None \<Rightarrow> ws | Some t \<Rightarrow> (t, unat b) # ws)"
    and counted_covers: "stands_for c fl ws \<Longrightarrow> fl + completed_after (collected c) ws \<le> unat (counted c)"
begin

text \<open>The events of one counter's life, and the account they add up to.\<close>

fun apply_event :: "counter_event \<Rightarrow> 'c \<times> nat \<times> (int \<times> nat) list \<Rightarrow> 'c \<times> nat \<times> (int \<times> nat) list" where
  "apply_event (Observe q) (c, fl, ws) = (observe q c, fl, ws)"
| "apply_event (Reserve b) (c, fl, ws) =
     (if unat (counted c) + unat b < 2 ^ 64 then (reserve b c, fl + unat b, ws) else (c, fl, ws))"
| "apply_event (Settle b at) (c, fl, ws) =
     (if unat b \<le> fl
      then (settle b at c, fl - unat b, case at of None \<Rightarrow> ws | Some t \<Rightarrow> (t, unat b) # ws)
      else (c, fl, ws))"

lemma apply_event_stands:
  "stands_for c fl ws \<Longrightarrow> apply_event e (c, fl, ws) = (c', fl', ws') \<Longrightarrow> stands_for c' fl' ws'"
  by (cases "(e, (c, fl, ws))" rule: apply_event.cases)
    (auto intro: observe_stands reserve_stands settle_stands split: if_splits)

lemma events_stand:
  "stands_for c fl ws \<Longrightarrow> fold apply_event es (c, fl, ws) = (c', fl', ws') \<Longrightarrow> stands_for c' fl' ws'"
proof (induction es arbitrary: c fl ws)
  case (Cons e es)
  obtain c1 fl1 ws1 where 1: "apply_event e (c, fl, ws) = (c1, fl1, ws1)"
    by (cases "apply_event e (c, fl, ws)")
  then have "stands_for c1 fl1 ws1" using Cons.prems(1) apply_event_stands by blast
  then show ?case using Cons.IH 1 Cons.prems(2) by simp
qed simp

lemma life_covers:
  assumes "fold apply_event es (open_account q, 0, []) = (c, fl, ws)"
  shows "fl + completed_after (collected c) ws \<le> unat (counted c)"
  using counted_covers events_stand [OF open_stands assms] by blast

end

subsection \<open>The counter keeps the contract\<close>

definition slots_total :: "slot list \<Rightarrow> nat" where
  "slots_total ss = sum_list (map (\<lambda>s. unat (sl_bytes s)) ss)"

definition slots_after :: "int \<Rightarrow> slot list \<Rightarrow> nat" where
  "slots_after k ss = slots_total (filter (\<lambda>s. sl_end s > k) ss)"

definition counter_ok :: "counter \<Rightarrow> bool" where
  "counter_ok c \<longleftrightarrow>
     sorted_wrt (<) (map sl_end (c_settled c)) \<and> length (c_settled c) \<le> max_settled_slots \<and>
     unat (c_settled_bytes c) = slots_total (c_settled c) \<and>
     unat (c_in_flight c) + unat (c_settled_bytes c) < 2 ^ 64"

definition counter_stands_for :: "counter \<Rightarrow> nat \<Rightarrow> (int \<times> nat) list \<Rightarrow> bool" where
  "counter_stands_for c fl ws \<longleftrightarrow>
     counter_ok c \<and> unat (c_in_flight c) = fl \<and>
     (\<forall>\<tau> \<ge> c_collected_at c. completed_after \<tau> ws \<le> slots_after (timestamp \<tau>) (c_settled c))"

lemma slots_total_simps [simp]:
  "slots_total [] = 0" "slots_total (s # ss) = unat (sl_bytes s) + slots_total ss"
  "slots_total (ss @ ts) = slots_total ss + slots_total ts"
  by (simp_all add: slots_total_def)

lemma slots_after_simps [simp]:
  "slots_after k [] = 0"
  "slots_after k (s # ss) = (if sl_end s > k then unat (sl_bytes s) else 0) + slots_after k ss"
  "slots_after k (ss @ ts) = slots_after k ss + slots_after k ts"
  by (simp_all add: slots_after_def)

lemma slots_after_le_total: "slots_after k ss \<le> slots_total ss"
  by (induction ss) auto

lemma drop_covered_spec:
  assumes "unat b = slots_total ss" "sorted_wrt (<) (map sl_end ss)" "drop_covered k b ss = (b', ss')"
  shows "unat b' = slots_total ss' \<and> unat b' \<le> unat b \<and> suffix ss' ss \<and>
    (\<forall>j \<ge> k. slots_after j ss' = slots_after j ss)"
  using assms
proof (induction k b ss rule: drop_covered.induct)
  case (2 k b s ss)
  show ?case
  proof (cases "sl_end s > k")
    case True
    with 2 show ?thesis by auto
  next
    case False
    have "unat (sat_sub b (sl_bytes s)) = slots_total ss"
      using 2(2) by (simp add: sat_nat)
    then have "unat b' = slots_total ss' \<and> unat b' \<le> unat (sat_sub b (sl_bytes s)) \<and> suffix ss' ss \<and>
        (\<forall>j \<ge> k. slots_after j ss' = slots_after j ss)"
      using 2 False by simp
    with False show ?thesis
      by (auto simp: sat_nat suffix_ConsI)
  qed
qed auto

lemma suffix_sorted_wrt: "suffix xs ys \<Longrightarrow> sorted_wrt P (map f ys) \<Longrightarrow> sorted_wrt P (map f xs)"
  by (auto simp: suffix_def sorted_wrt_append)

lemma timestamp_mono: "a \<le> b \<Longrightarrow> timestamp a \<le> timestamp b"
  by (simp add: timestamp_def zdiv_mono1)

lemma timestamp_lt_slot_end: "\<tau> < t \<Longrightarrow> timestamp \<tau> < slot_end t"
proof -
  assume "\<tau> < t"
  show ?thesis
  proof (cases "subsec_nanos t > 0")
    case True
    then show ?thesis using timestamp_mono [of \<tau> t] \<open>\<tau> < t\<close> by (simp add: slot_end_def)
  next
    case False
    then have "t mod 1000000000 = 0"
      using pos_mod_sign [of 1000000000 t] by (simp add: subsec_nanos_def)
    then have "t = 1000000000 * timestamp t" by (auto simp: timestamp_def)
    then show ?thesis
      using \<open>\<tau> < t\<close> False unfolding slot_end_def timestamp_def by simp
  qed
qed

lemma counter_new_ok: "counter_ok (counter_new q)"
  by (simp add: counter_ok_def counter_new_def)

lemma counter_observe_cases:
  assumes "counter_ok c"
  obtains "counter_observe q c = c" "q_collected_at q \<le> c_collected_at c"
  | b ss where "counter_observe q c =
        c\<lparr>c_collected_at := q_collected_at q, c_used_bytes := q_used_bytes q, c_settled := ss, c_settled_bytes := b\<rparr>"
      "c_collected_at c < q_collected_at q" "unat b = slots_total ss" "unat b \<le> unat (c_settled_bytes c)"
      "suffix ss (c_settled c)"
      "\<forall>j \<ge> timestamp (q_collected_at q). slots_after j ss = slots_after j (c_settled c)"
proof (cases "q_collected_at q \<le> c_collected_at c")
  case True
  then show ?thesis using that(1) by (simp add: counter_observe_def)
next
  case False
  obtain b ss where d: "drop_covered (timestamp (q_collected_at q)) (c_settled_bytes c) (c_settled c) = (b, ss)"
    by fastforce
  show ?thesis
    using drop_covered_spec [OF _ _ d] assms False d that(2) [of b ss]
    by (simp add: counter_ok_def counter_observe_def)
qed

lemma counter_observe_ok:
  assumes "counter_ok c"
  shows "counter_ok (counter_observe q c)"
proof (cases rule: counter_observe_cases [OF assms, of q])
  case 1
  with assms show ?thesis by simp
next
  case (2 b ss)
  then have "sorted_wrt (<) (map sl_end ss)" "length ss \<le> length (c_settled c)"
    using assms by (auto simp: counter_ok_def suffix_sorted_wrt dest: suffix_length_le)
  with 2(1,3,4) assms show ?thesis by (simp add: counter_ok_def)
qed

lemma counter_observe_in_flight [simp]: "c_in_flight (counter_observe q c) = c_in_flight c"
  by (simp add: counter_observe_def split: prod.split)

lemma push_slot_spec:
  assumes "sorted_wrt (<) (map sl_end ss)" "slots_total ss + unat b < 2 ^ 64"
  shows "sorted_wrt (<) (map sl_end (push_slot e b ss)) \<and> length (push_slot e b ss) \<le> length ss + 1 \<and>
    slots_total (push_slot e b ss) = slots_total ss + unat b \<and>
    (\<forall>k. slots_after k ss + (if e > k then unat b else 0) \<le> slots_after k (push_slot e b ss))"
proof (cases ss rule: rev_cases)
  case Nil
  then show ?thesis by (simp add: push_slot_def)
next
  case (snoc ts s)
  then have "unat (sat_add (sl_bytes s) b) = unat (sl_bytes s) + unat b"
    using assms(2) by (simp add: sat_nat)
  with snoc assms(1) show ?thesis
    by (auto simp: push_slot_def sorted_wrt_append)
qed

lemma merge_oldest_spec:
  assumes "sorted_wrt (<) (map sl_end ss)" "slots_total ss < 2 ^ 64" "length ss \<le> max_settled_slots + 1"
  shows "sorted_wrt (<) (map sl_end (merge_oldest ss)) \<and> length (merge_oldest ss) \<le> max_settled_slots \<and>
    slots_total (merge_oldest ss) = slots_total ss \<and>
    (\<forall>k. slots_after k ss \<le> slots_after k (merge_oldest ss))"
proof (cases "length ss > max_settled_slots")
  case False
  then show ?thesis using assms by (simp add: merge_oldest_def)
next
  case True
  then obtain a b r where ss: "ss = a # b # r"
    by (cases ss; cases "tl ss") (auto simp: max_settled_slots_def)
  then have "unat (sat_add (sl_bytes b) (sl_bytes a)) = unat (sl_bytes b) + unat (sl_bytes a)"
    using assms(2) by (simp add: sat_nat)
  with ss assms True show ?thesis
    by (auto simp: merge_oldest_def)
qed

lemma counter_settle_spec:
  assumes "counter_ok c" "unat b \<le> unat (c_in_flight c)"
  shows "counter_ok (counter_settle b at c) \<and>
    unat (c_in_flight (counter_settle b at c)) = unat (c_in_flight c) - unat b \<and>
    c_collected_at (counter_settle b at c) = c_collected_at c \<and>
    (\<forall>k. slots_after k (c_settled c) + (case at of None \<Rightarrow> 0 | Some t \<Rightarrow> if slot_end t > k then unat b else 0)
         \<le> slots_after k (c_settled (counter_settle b at c)))"
proof (cases "at = None \<or> b = 0")
  case True
  then show ?thesis
    using assms by (auto simp: counter_settle_def counter_ok_def sat_nat split: option.split)
next
  case False
  then obtain t where t: "at = Some t" "b > 0" by (auto simp: word_gt_0)
  define ss where "ss = push_slot (slot_end t) b (c_settled c)"
  have p: "sorted_wrt (<) (map sl_end ss) \<and> length ss \<le> length (c_settled c) + 1 \<and>
      slots_total ss = slots_total (c_settled c) + unat b \<and>
      (\<forall>k. slots_after k (c_settled c) + (if slot_end t > k then unat b else 0) \<le> slots_after k ss)"
    unfolding ss_def using assms by (intro push_slot_spec) (auto simp: counter_ok_def)
  then have "sorted_wrt (<) (map sl_end (merge_oldest ss)) \<and> length (merge_oldest ss) \<le> max_settled_slots \<and>
      slots_total (merge_oldest ss) = slots_total ss \<and> (\<forall>k. slots_after k ss \<le> slots_after k (merge_oldest ss))"
    using assms by (intro merge_oldest_spec) (auto simp: counter_ok_def)
  moreover from this p have
    "slots_after k (c_settled c) + (if slot_end t > k then unat b else 0) \<le> slots_after k (merge_oldest ss)" for k
    by (meson order_trans)
  ultimately show ?thesis
    using p t assms by (simp add: counter_settle_def counter_ok_def sat_nat ss_def [symmetric] Let_def)
qed

lemma counter_counted_nat: "counter_ok c \<Longrightarrow> unat (counter_counted c) = unat (c_in_flight c) + unat (c_settled_bytes c)"
  by (simp add: counter_counted_def counter_ok_def sat_nat)

lemma add_in_flight_ok:
  assumes "counter_ok c" "unat (counter_counted c) + unat b < 2 ^ 64"
  shows "counter_ok (add_in_flight b c) \<and> unat (c_in_flight (add_in_flight b c)) = unat (c_in_flight c) + unat b"
proof -
  have "unat (c_in_flight c) + unat (c_settled_bytes c) + unat b < 2 ^ 64"
    using assms by (simp add: counter_counted_nat)
  then show ?thesis using assms(1) by (simp add: add_in_flight_def counter_ok_def sat_nat)
qed

interpretation counter_account: quota_account counter_new counter_observe add_in_flight counter_settle
  counter_counted c_collected_at counter_stands_for
proof (unfold_locales, goal_cases)
  case (1 q)
  then show ?case using counter_new_ok [of q] by (simp add: counter_stands_for_def counter_new_def)
next
  case (2 c fl ws q)
  then have ok: "counter_ok c" by (simp add: counter_stands_for_def)
  show ?case
  proof (cases rule: counter_observe_cases [OF ok, of q])
    case 1
    with 2 show ?thesis by simp
  next
    case (2 b ss)
    have "completed_after \<tau> ws \<le> slots_after (timestamp \<tau>) ss" if "q_collected_at q \<le> \<tau>" for \<tau>
      using that 2(2,6) timestamp_mono [OF that] \<open>counter_stands_for c fl ws\<close>
      by (simp add: counter_stands_for_def)
    with 2(1) counter_observe_ok [OF ok, of q] \<open>counter_stands_for c fl ws\<close> show ?thesis
      by (simp add: counter_stands_for_def)
  qed
next
  case (3 c fl ws b)
  then show ?case
    using add_in_flight_ok [of c b] by (auto simp: counter_stands_for_def) (simp_all add: add_in_flight_def)
next
  case (4 c fl ws b at)
  then have ok: "counter_ok c" "unat b \<le> unat (c_in_flight c)" by (simp_all add: counter_stands_for_def)
  note s = counter_settle_spec [OF ok, of at]
  have "completed_after \<tau> (case at of None \<Rightarrow> ws | Some t \<Rightarrow> (t, unat b) # ws)
      \<le> slots_after (timestamp \<tau>) (c_settled (counter_settle b at c))" if "c_collected_at c \<le> \<tau>" for \<tau>
  proof -
    have "completed_after \<tau> ws \<le> slots_after (timestamp \<tau>) (c_settled c)"
      using 4(1) that by (simp add: counter_stands_for_def)
    moreover have "slots_after (timestamp \<tau>) (c_settled c)
        + (case at of None \<Rightarrow> 0 | Some t \<Rightarrow> if slot_end t > timestamp \<tau> then unat b else 0)
        \<le> slots_after (timestamp \<tau>) (c_settled (counter_settle b at c))"
      using s by blast
    ultimately show ?thesis
      using timestamp_lt_slot_end [of \<tau>] by (cases at) auto
  qed
  with s 4 show ?case by (simp add: counter_stands_for_def)
next
  case (5 c fl ws)
  then have "completed_after (c_collected_at c) ws \<le> slots_total (c_settled c)"
    using slots_after_le_total [of "timestamp (c_collected_at c)" "c_settled c"]
    by (auto simp: counter_stands_for_def intro: order_trans)
  then show ?case using 5 by (auto simp: counter_stands_for_def counter_counted_nat counter_ok_def)
qed

text \<open>The life of one counter: events applied to it, beside the true bytes in flight and the true list
  of completed writes. A reservation that would overflow the counter and the settlement of bytes
  that are not in flight never happen; they are skipped.\<close>

fun counter_life :: "counter_event \<Rightarrow> counter \<times> nat \<times> (int \<times> nat) list \<Rightarrow> counter \<times> nat \<times> (int \<times> nat) list" where
  "counter_life (Observe q) (c, fl, ws) = (counter_observe q c, fl, ws)"
| "counter_life (Reserve b) (c, fl, ws) =
     (if unat (counter_counted c) + unat b < 2 ^ 64 then (add_in_flight b c, fl + unat b, ws) else (c, fl, ws))"
| "counter_life (Settle b at) (c, fl, ws) =
     (if unat b \<le> fl
      then (counter_settle b at c, fl - unat b, case at of None \<Rightarrow> ws | Some t \<Rightarrow> (t, unat b) # ws)
      else (c, fl, ws))"

lemma counter_life_apply: "counter_life = counter_account.apply_event"
proof (intro ext)
  show "counter_life e s = counter_account.apply_event e s" for e s
    by (cases "(e, s)" rule: counter_life.cases) simp_all
qed

section \<open>The ledger and its reservations\<close>

definition flight :: "ledger_state \<Rightarrow> quota_scope \<Rightarrow> nat" where
  "flight st scope = (case ls_counters st scope of None \<Rightarrow> 0 | Some c \<Rightarrow> unat (c_in_flight c))"

definition ledger_ok :: "ledger_state \<Rightarrow> bool" where
  "ledger_ok st \<longleftrightarrow> (\<forall>scope c. ls_counters st scope = Some c \<longrightarrow> counter_ok c)"

definition held_by :: "quota_scope \<Rightarrow> quota_reservation \<Rightarrow> nat" where
  "held_by scope r = (if \<not> qr_settled r \<and> scope \<in> set (qr_scopes r) then unat (qr_bytes r) else 0)"

definition held :: "quota_scope \<Rightarrow> quota_reservation list \<Rightarrow> nat" where
  "held scope rs = sum_list (map (held_by scope) rs)"

lemma held_simps [simp]:
  "held scope [] = 0" "held scope (r # rs) = held_by scope r + held scope rs"
  by (simp_all add: held_def)

lemma held_update:
  assumes "i < length rs"
  shows "held scope (rs[i := r']) + held_by scope (rs ! i) = held scope rs + held_by scope r'"
proof -
  have "held scope rs = held scope (take i rs @ rs ! i # drop (Suc i) rs)"
    using assms by (simp add: id_take_nth_drop [symmetric])
  then show ?thesis using assms by (simp add: held_def upd_conv_take_nth_drop)
qed

lemma held_nth_le: "i < length rs \<Longrightarrow> held_by scope (rs ! i) \<le> held scope rs"
  by (simp add: held_def member_le_sum_list)

definition limits_bounded :: "bundle_quotas \<Rightarrow> bool" where
  "limits_bounded quotas \<longleftrightarrow>
     (\<forall>scope q. bq_specs quotas scope = Some (Limit q) \<longrightarrow> unat (q_limit_bytes q) < 2 ^ 64 - 1)"

text \<open>Everything that happens to a ledger and to the reservations it handed out: a write is admitted or
  refused, a reservation is settled (by a commit, a release or its drop), or only its dispatch flag
  or body progress changes.\<close>

inductive quota_step ::
  "ledger_state \<times> quota_reservation list \<Rightarrow> ledger_state \<times> quota_reservation list \<Rightarrow> bool" where
  step_reserved:
    "admit quotas t b st = (st', Reserved r) \<Longrightarrow> limits_bounded quotas \<Longrightarrow>
     quota_step (st, rs) (st', r # rs)"
| step_not_reserved:
    "admit quotas t b st = (st', a) \<Longrightarrow> a = Unlimited \<or> a = Refused e \<Longrightarrow> quota_step (st, rs) (st', rs)"
| step_settle:
    "i < length rs \<Longrightarrow> reservation_settle at (rs ! i) st = (r', st') \<Longrightarrow>
     quota_step (st, rs) (st', rs[i := r'])"
| step_dispatch:
    "i < length rs \<Longrightarrow> quota_step (st, rs) (st, rs[i := mark_dispatched (rs ! i)])"
| step_body:
    "i < length rs \<Longrightarrow> quota_step (st, rs) (st, rs[i := (rs ! i)\<lparr>qr_body := p\<rparr>])"

definition quota_inv :: "ledger_state \<times> quota_reservation list \<Rightarrow> bool" where
  "quota_inv s \<longleftrightarrow>
     ledger_ok (fst s) \<and> (\<forall>scope. flight (fst s) scope = held scope (snd s)) \<and>
     (\<forall>r \<in> set (snd s). distinct (qr_scopes r))"

lemma quota_scope_of_distinct: "distinct (quota_scope_of t)"
  by (simp add: quota_scope_of_def)

lemma applicable_scopes:
  "map fst (applicable quotas t) = filter (\<lambda>s. bq_specs quotas s \<noteq> None) (quota_scope_of t)"
  "(scope, spec) \<in> set (applicable quotas t) \<longleftrightarrow>
     scope \<in> set (quota_scope_of t) \<and> bq_specs quotas scope = Some spec"
  by (auto simp: applicable_def quota_scope_of_def List.map_filter_def split: option.splits)

lemma read_limits_spec: "read_limits xs = Inr limits \<longleftrightarrow> xs = map (\<lambda>(s, q). (s, Limit q)) limits"
proof
  show "xs = map (\<lambda>(s, q). (s, Limit q)) limits" if "read_limits xs = Inr limits"
    using that by (induction xs arbitrary: limits rule: read_limits.induct)
      (auto split: quota_spec.splits sum.splits)
  show "read_limits xs = Inr limits" if "xs = map (\<lambda>(s, q). (s, Limit q)) limits"
    unfolding that by (induction limits) auto
qed

lemma sweep_counter_spec:
  assumes "counter_ok c"
  shows "case sweep_counter spec c of
      None \<Rightarrow> c_in_flight c = 0
    | Some c' \<Rightarrow> counter_ok c' \<and> c_in_flight c' = c_in_flight c"
  using assms
  by (auto simp: sweep_counter_def Let_def counter_is_empty_def counter_observe_ok
      split: option.splits quota_spec.splits)

lemma sweep_ok: "ledger_ok st \<Longrightarrow> ledger_ok (sweep quotas st) \<and> flight (sweep quotas st) = flight st"
proof -
  assume ok: "ledger_ok st"
  then have c: "counter_ok c" if "ls_counters st scope = Some c" for scope c
    using that by (simp add: ledger_ok_def)
  have "flight (sweep quotas st) scope = flight st scope \<and>
      (\<forall>c'. ls_counters (sweep quotas st) scope = Some c' \<longrightarrow> counter_ok c')" for scope
  proof (cases "ls_counters st scope")
    case None
    then show ?thesis by (simp add: sweep_def flight_def)
  next
    case (Some d)
    then show ?thesis
      using sweep_counter_spec [OF c [OF Some], of "bq_specs quotas scope"] c [OF Some]
      by (cases "sweep_counter (bq_specs quotas scope) d") (simp_all add: sweep_def flight_def)
  qed
  then show ?thesis by (auto simp: ledger_ok_def)
qed

lemma entry_observed_ok:
  "(\<And>c. oc = Some c \<Longrightarrow> counter_ok c) \<Longrightarrow> counter_ok (entry_observed q oc)"
  by (auto simp: entry_observed_def counter_new_ok intro!: counter_observe_ok split: option.splits)

lemma entry_observed_flight:
  "unat (c_in_flight (entry_observed q oc)) = (case oc of None \<Rightarrow> 0 | Some c \<Rightarrow> unat (c_in_flight c))"
  by (simp add: entry_observed_def counter_new_def split: option.splits)

lemma counter_observe_newest: "q_collected_at q \<le> c_collected_at (counter_observe q c)"
  by (simp add: counter_observe_def split: prod.split)

lemma check_limits_ok:
  "ledger_ok st \<Longrightarrow> check_limits b limits st = (st', res) \<Longrightarrow> ledger_ok st' \<and> flight st' = flight st"
proof (induction b limits st rule: check_limits.induct)
  case (2 b scope q rest st)
  define c where "c = entry_observed q (ls_counters st scope)"
  define st1 where "st1 = st\<lparr>ls_counters := (ls_counters st)(scope \<mapsto> c)\<rparr>"
  have "counter_ok c"
    unfolding c_def using 2(2) by (intro entry_observed_ok) (simp add: ledger_ok_def)
  then have 1: "ledger_ok st1" using 2(2) by (simp add: ledger_ok_def st1_def)
  have f: "flight st1 = flight st"
    by (auto simp: flight_def st1_def c_def entry_observed_flight fun_eq_iff)
  have "st' = st1 \<or> check_limits b rest st1 = (st', res)"
    using 2(3) by (simp add: Let_def c_def [symmetric] st1_def [symmetric] split: if_splits)
  then show ?case using 1 f 2(1) [OF c_def st1_def refl] 2(3)
    by (auto simp: Let_def c_def [symmetric] st1_def [symmetric] split: if_splits)
qed simp

lemma check_limits_frame:
  "check_limits b limits st = (st', res) \<Longrightarrow> scope \<notin> fst ` set limits \<Longrightarrow> ls_counters st' scope = ls_counters st scope"
  by (induction b limits st rule: check_limits.induct) (auto simp: Let_def split: if_splits)

definition has_room :: "u64 \<Rightarrow> quota \<Rightarrow> counter \<Rightarrow> bool" where
  "has_room b q c \<longleftrightarrow>
     sat_add (sat_add (c_used_bytes c) (counter_counted c)) b \<le> q_limit_bytes q \<and>
     q_collected_at q \<le> c_collected_at c"

lemma check_limits_room:
  "check_limits b limits st = (st', None) \<Longrightarrow> distinct (map fst limits) \<Longrightarrow> (scope, q) \<in> set limits \<Longrightarrow>
   \<exists>c. ls_counters st' scope = Some c \<and> has_room b q c"
proof (induction b limits st rule: check_limits.induct)
  case (2 b s q' rest st)
  define c where "c = entry_observed q' (ls_counters st s)"
  define st1 where "st1 = st\<lparr>ls_counters := (ls_counters st)(s \<mapsto> c)\<rparr>"
  have room: "has_room b q' c"
    using 2(2) counter_observe_newest [of q']
    by (auto simp: Let_def has_room_def c_def entry_observed_def split: if_splits)
  have rest: "check_limits b rest st1 = (st', None)"
    using 2(2) by (auto simp: Let_def c_def st1_def split: if_splits)
  show ?case
  proof (cases "(scope, q) \<in> set rest")
    case True
    then show ?thesis
      using 2(1) [OF c_def st1_def refl _ rest] 2(2,3) by (auto simp: Let_def c_def split: if_splits)
  next
    case False
    then have "scope = s" "q = q'" using 2(4) by auto
    moreover have "ls_counters st' s = ls_counters st1 s"
      using check_limits_frame [OF rest] 2(3) by simp
    ultimately show ?thesis using room by (simp add: st1_def)
  qed
qed simp

lemma update_counters_spec:
  "distinct scopes \<Longrightarrow> ls_counters (update_counters f scopes st) scope =
     (if scope \<in> set scopes then map_option f (ls_counters st scope) else ls_counters st scope)"
proof (induction scopes arbitrary: st)
  case (Cons s scopes)
  then show ?case
    by (cases "ls_counters st s") (auto simp: update_counters_def)
qed (simp add: update_counters_def)

lemma admit_Reserved:
  assumes "admit quotas t bytes st = (st', Reserved r)"
  obtains b limits st1 where "bytes = Some b" "applicable quotas t = map (\<lambda>(s, q). (s, Limit q)) limits"
    "check_limits b limits (sweep quotas st) = (st1, None)" "distinct (map fst limits)"
    "st' = update_counters (add_in_flight b) (map fst limits) st1"
    "r = \<lparr>qr_scopes = map fst limits, qr_bytes = b, qr_settled = False, qr_dispatched = False,
          qr_body = body_progress_default\<rparr>"
proof -
  obtain n sp others where a: "applicable quotas t = (n, sp) # others"
    using assms by (auto simp: admit_def split: list.splits)
  then obtain limits where l: "read_limits ((n, sp) # others) = Inr limits"
    using assms by (auto simp: admit_def split: sum.splits)
  then obtain b where b: "bytes = Some b"
    using assms a by (auto simp: admit_def split: option.splits)
  obtain st1 where st1: "check_limits b limits (sweep quotas st) = (st1, None)"
    using assms a l b by (auto simp: admit_def split: prod.splits option.splits)
  have al: "applicable quotas t = map (\<lambda>(s, q). (s, Limit q)) limits"
    using a l by (simp only: read_limits_spec)
  then have "map fst limits = map fst (applicable quotas t)"
    by (simp add: case_prod_unfold)
  then have "distinct (map fst limits)"
    using quota_scope_of_distinct by (simp only: applicable_scopes) simp
  with that [OF b al st1] show ?thesis using assms a l b st1 by (simp add: admit_def Let_def)
qed

lemma admit_not_reserved_ok:
  assumes "admit quotas t bytes st = (st', a)" "a = Unlimited \<or> a = Refused e" "ledger_ok st"
  shows "ledger_ok st' \<and> flight st' = flight st"
proof -
  have "st' = st \<or> (\<exists>b limits res. check_limits b limits (sweep quotas st) = (st', res))"
  proof (cases "applicable quotas t")
    case Nil
    with assms(1) show ?thesis by (simp add: admit_def)
  next
    case (Cons p others)
    obtain n sp where p: "p = (n, sp)" by (cases p)
    show ?thesis
    proof (cases "\<exists>limits b. read_limits ((n, sp) # others) = Inr limits \<and> bytes = Some b")
      case True
      then obtain limits b where lb: "read_limits ((n, sp) # others) = Inr limits" "bytes = Some b" by blast
      obtain st1 res where res: "check_limits b limits (sweep quotas st) = (st1, res)"
        by fastforce
      have "st1 = st'"
        using assms(1,2) Cons p lb res
        by (cases res) (auto simp: admit_def Let_def simp del: read_limits.simps)
      with res show ?thesis by blast
    next
      case False
      with assms(1) Cons p show ?thesis
        by (cases "read_limits ((n, sp) # others)"; cases bytes)
          (simp_all add: admit_def del: read_limits.simps)
    qed
  qed
  then show ?thesis
  proof
    assume "\<exists>b limits res. check_limits b limits (sweep quotas st) = (st', res)"
    then obtain b limits res where c: "check_limits b limits (sweep quotas st) = (st', res)" by blast
    then show ?thesis using sweep_ok [OF assms(3), of quotas] check_limits_ok [OF _ c] by simp
  qed (simp add: assms(3))
qed

lemma has_room_nat:
  assumes "counter_ok c" "has_room b q c" "unat (q_limit_bytes q) < 2 ^ 64 - 1"
  shows "unat (c_used_bytes c) + unat (counter_counted c) + unat b \<le> unat (q_limit_bytes q)"
proof -
  have "unat (sat_add (sat_add (c_used_bytes c) (counter_counted c)) b) \<le> unat (q_limit_bytes q)"
    using assms(2) by (simp add: has_room_def word_le_nat_alt)
  then show ?thesis using assms(3) by (simp add: sat_nat min_def split: if_splits)
qed

text \<open>A reserved write: every limited level of its target is in the reservation, has room for it, and
  carries its bytes in flight afterwards; no other level changes.\<close>

lemma admit_reserved_spec:
  assumes a: "admit quotas t bytes st = (st', Reserved r)" and ok: "ledger_ok st" and lb: "limits_bounded quotas"
  shows "ledger_ok st' \<and> distinct (qr_scopes r) \<and> \<not> qr_settled r \<and> bytes = Some (qr_bytes r) \<and>
    (\<forall>scope. flight st' scope = flight st scope + held_by scope r) \<and>
    (\<forall>scope \<in> set (quota_scope_of t). \<forall>q. bq_specs quotas scope = Some (Limit q) \<longrightarrow>
       scope \<in> set (qr_scopes r) \<and>
       (\<exists>c. ls_counters st' scope = Some c \<and> q_collected_at q \<le> c_collected_at c \<and>
          unat (c_used_bytes c) + unat (counter_counted c) \<le> unat (q_limit_bytes q)))"
proof (cases rule: admit_Reserved [OF a])
  case (1 b limits st1)
  have ok1: "ledger_ok st1" "flight st1 = flight st"
    using sweep_ok [OF ok, of quotas] check_limits_ok [OF _ 1(3)] by simp_all
  have lim: "scope \<in> set (quota_scope_of t) \<and> bq_specs quotas scope = Some (Limit q)" if "(scope, q) \<in> set limits" for scope q
    using applicable_scopes(2) [of scope "Limit q" quotas t] that 1(2) by force
  have mem: "(scope, q) \<in> set limits" if "scope \<in> set (quota_scope_of t)" "bq_specs quotas scope = Some (Limit q)" for scope q
    using applicable_scopes(2) [of scope "Limit q" quotas t] that 1(2) by force
  have room: "\<exists>c. ls_counters st1 scope = Some c \<and> counter_ok c \<and> q_collected_at q \<le> c_collected_at c \<and>
      unat (c_used_bytes c) + unat (counter_counted c) + unat b \<le> unat (q_limit_bytes q) \<and>
      unat (counter_counted c) + unat b < 2 ^ 64" if m: "(scope, q) \<in> set limits" for scope q
  proof -
    obtain c where c: "ls_counters st1 scope = Some c" "has_room b q c"
      using check_limits_room [OF 1(3,4) m] by blast
    moreover have "counter_ok c" using ok1 c by (simp add: ledger_ok_def)
    moreover have "unat (q_limit_bytes q) < 2 ^ 64 - 1" using lim [OF m] lb unfolding limits_bounded_def by blast
    ultimately show ?thesis using has_room_nat [of c b q] by (auto simp: has_room_def)
  qed
  have st': "ls_counters st' scope =
      (if scope \<in> fst ` set limits then map_option (add_in_flight b) (ls_counters st1 scope) else ls_counters st1 scope)" for scope
    using update_counters_spec [OF 1(4)] 1(5) by simp
  have upd: "\<exists>c. ls_counters st1 scope = Some c \<and> counter_ok (add_in_flight b c) \<and>
      unat (c_in_flight (add_in_flight b c)) = unat (c_in_flight c) + unat b" if "scope \<in> fst ` set limits" for scope
    using that room add_in_flight_ok by fastforce
  have "ledger_ok st'"
    unfolding ledger_ok_def
  proof (intro allI impI)
    fix scope c assume c: "ls_counters st' scope = Some c"
    show "counter_ok c"
      using c st' [of scope] upd [of scope] ok1(1) by (auto simp: ledger_ok_def split: if_splits)
  qed
  moreover have "flight st' scope = flight st scope + held_by scope r" for scope
    using st' [of scope] upd [of scope] ok1(2) 1(6)
    by (auto simp: flight_def held_by_def fun_eq_iff split: if_splits dest: spec [of _ scope])
  moreover have "scope \<in> set (qr_scopes r) \<and>
       (\<exists>c. ls_counters st' scope = Some c \<and> q_collected_at q \<le> c_collected_at c \<and>
          unat (c_used_bytes c) + unat (counter_counted c) \<le> unat (q_limit_bytes q))"
    if s: "scope \<in> set (quota_scope_of t)" "bq_specs quotas scope = Some (Limit q)" for scope q
  proof -
    note m = mem [OF s]
    then have i: "scope \<in> fst ` set limits" by force
    obtain c where c: "ls_counters st1 scope = Some c" "counter_ok c" "q_collected_at q \<le> c_collected_at c"
      "unat (c_used_bytes c) + unat (counter_counted c) + unat b \<le> unat (q_limit_bytes q)"
      "unat (counter_counted c) + unat b < 2 ^ 64"
      using room [OF m] by blast
    have "unat (counter_counted (add_in_flight b c)) = unat (counter_counted c) + unat b"
      using add_in_flight_ok [OF c(2,5)] c(2) by (simp add: counter_counted_nat) (simp add: add_in_flight_def)
    then show ?thesis
      using st' [of scope] i c m 1(6) by (simp add: add_in_flight_def)
  qed
  ultimately show ?thesis using 1(1,4,6) by simp
qed

lemma ledger_settle_spec:
  assumes "distinct scopes" "ledger_ok st" "\<And>scope. scope \<in> set scopes \<Longrightarrow> unat b \<le> flight st scope"
  shows "ledger_ok (ledger_settle scopes b at st) \<and>
    (\<forall>scope. flight (ledger_settle scopes b at st) scope = (if scope \<in> set scopes then flight st scope - unat b else flight st scope))"
proof -
  have u: "ls_counters (ledger_settle scopes b at st) scope =
      (if scope \<in> set scopes then map_option (counter_settle b at) (ls_counters st scope) else ls_counters st scope)" for scope
    using update_counters_spec [OF assms(1)] by (simp add: ledger_settle_def)
  have s: "counter_ok (counter_settle b at c) \<and>
      unat (c_in_flight (counter_settle b at c)) = unat (c_in_flight c) - unat b"
    if "scope \<in> set scopes" "ls_counters st scope = Some c" for scope c
    using that assms(2,3) counter_settle_spec [of c b at] by (force simp: ledger_ok_def flight_def)
  show ?thesis
  proof (intro conjI allI)
    show "ledger_ok (ledger_settle scopes b at st)"
      using assms(2) s by (auto simp: ledger_ok_def u split: if_splits)
    show "flight (ledger_settle scopes b at st) scope = (if scope \<in> set scopes then flight st scope - unat b else flight st scope)" for scope
      using s [of scope] by (auto simp: flight_def u split: option.splits)
  qed
qed

lemma quota_inv_touch:
  assumes "i < length rs" "quota_inv (st, rs)" "qr_scopes r' = qr_scopes (rs ! i)"
    "qr_bytes r' = qr_bytes (rs ! i)" "qr_settled r' = qr_settled (rs ! i)"
  shows "quota_inv (st, rs[i := r'])"
proof -
  have "held_by scope r' = held_by scope (rs ! i)" for scope
    using assms(3-5) by (simp add: held_by_def)
  then have "held scope (rs[i := r']) = held scope rs" for scope
    using assms(1) held_update [of i rs scope r'] by simp
  moreover have "\<forall>r \<in> set (rs[i := r']). distinct (qr_scopes r)"
    using assms set_update_subset_insert [of rs i r'] nth_mem [OF assms(1)]
    by (auto simp: quota_inv_def)
  ultimately show ?thesis using assms(2) by (simp add: quota_inv_def)
qed

lemma quota_step_inv:
  assumes "quota_step s s'" "quota_inv s"
  shows "quota_inv s'"
  using assms
proof (induction rule: quota_step.induct)
  case (step_reserved quotas t b st st' r rs)
  then show ?case using admit_reserved_spec [OF step_reserved(1) _ step_reserved(2)] by (simp add: quota_inv_def)
next
  case (step_not_reserved quotas t b st st' a e rs)
  then show ?case using admit_not_reserved_ok [OF step_not_reserved(1,2)] by (simp add: quota_inv_def)
next
  case (step_settle i rs at st r' st')
  show ?case
  proof (cases "qr_settled (rs ! i)")
    case True
    with step_settle(2) have "r' = rs ! i" "st' = st" by (simp_all add: reservation_settle_def)
    with step_settle(3) show ?thesis by simp
  next
    case False
    have r': "r' = (rs ! i)\<lparr>qr_settled := True\<rparr>"
      and st': "st' = ledger_settle (qr_scopes (rs ! i)) (qr_bytes (rs ! i)) at st"
      using step_settle(2) False by (simp_all add: reservation_settle_def)
    have i: "rs ! i \<in> set rs" using step_settle(1) by simp
    have le: "unat (qr_bytes (rs ! i)) \<le> flight st scope" if "scope \<in> set (qr_scopes (rs ! i))" for scope
      using held_nth_le [OF step_settle(1), of scope] that False step_settle(3)
      by (simp add: quota_inv_def held_by_def)
    have d: "distinct (qr_scopes (rs ! i))" "ledger_ok st" using step_settle(3) i by (simp_all add: quota_inv_def)
    have s: "ledger_ok st'" "flight st' scope = (if scope \<in> set (qr_scopes (rs ! i))
        then flight st scope - unat (qr_bytes (rs ! i)) else flight st scope)" for scope
      using ledger_settle_spec [OF d le] by (simp_all add: st')
    have "held_by scope r' = 0" for scope by (simp add: r' held_by_def)
    then have "flight st' scope = held scope (rs[i := r'])" for scope
      using held_update [OF step_settle(1), of scope r'] s(2) [of scope] step_settle(3) False
      by (auto simp: quota_inv_def held_by_def)
    moreover have "\<forall>r \<in> set (rs[i := r']). distinct (qr_scopes r)"
      using step_settle(3) i r' set_update_subset_insert [of rs i r'] by (auto simp: quota_inv_def)
    ultimately show ?thesis using s(1) by (simp add: quota_inv_def)
  qed
next
  case (step_dispatch i rs st)
  then show ?case by (intro quota_inv_touch) (simp_all add: mark_dispatched_def)
next
  case (step_body i rs st p)
  then show ?case by (intro quota_inv_touch) simp_all
qed

lemma quota_reachable_inv: "quota_step\<^sup>*\<^sup>* (ledger_new, []) s \<Longrightarrow> quota_inv s"
proof (induction rule: rtranclp_induct)
  case base
  show ?case by (simp add: quota_inv_def ledger_ok_def ledger_new_def flight_def)
next
  case (step s s')
  then show ?case using quota_step_inv by blast
qed

section \<open>Polling a body\<close>

fun poll_all :: "u64 \<Rightarrow> 'e poll list \<Rightarrow> body_progress \<Rightarrow> body_progress \<times> 'e body_error poll list" where
  "poll_all charged [] p = (p, [])"
| "poll_all charged (x # xs) p =
     (case poll_frame charged x p of (p, y) \<Rightarrow>
      case poll_all charged xs p of (p, ys) \<Rightarrow> (p, y # ys))"

fun poll_bytes :: "'e poll \<Rightarrow> nat" where
  "poll_bytes (Ready_Frame (DataFrame d)) = length d"
| "poll_bytes _ = 0"

definition polled_bytes :: "'e poll list \<Rightarrow> nat" where
  "polled_bytes xs = sum_list (map poll_bytes xs)"

lemma polled_bytes_simps [simp]:
  "polled_bytes [] = 0" "polled_bytes (x # xs) = poll_bytes x + polled_bytes xs"
  by (simp_all add: polled_bytes_def)

lemma poll_frame_spec:
  assumes "poll_frame charged x p = (p', y)" "unat (bp_delivered p) + poll_bytes x < 2 ^ 64"
  shows "unat (bp_delivered p') = unat (bp_delivered p) + poll_bytes x \<and>
    (if unat (bp_delivered p) + poll_bytes x \<le> unat charged then poll_bytes y = poll_bytes x else poll_bytes y = 0) \<and>
    (bp_failed p \<longrightarrow> bp_failed p') \<and> bp_tracked p' = bp_tracked p \<and>
    (unat charged < unat (bp_delivered p) + poll_bytes x \<longrightarrow> unat (bp_delivered p) \<le> unat charged \<longrightarrow> bp_failed p')"
proof (cases "\<exists>d. x = Ready_Frame (DataFrame d)")
  case True
  then obtain d where d: "x = Ready_Frame (DataFrame d)" by blast
  then have l: "unat (bp_delivered p) + length d < 2 ^ 64" using assms(2) by simp
  then have "unat (of_nat (length d) :: u64) = length d" by (simp add: unat_of_nat)
  then have s: "unat (sat_add (bp_delivered p) (of_nat (length d))) = unat (bp_delivered p) + length d"
    "unat (bp_delivered p + of_nat (length d)) = unat (bp_delivered p) + length d"
    using l by (simp_all add: sat_nat unat_word_ariths)
  show ?thesis
    using assms(1) d s by (auto simp: poll_frame_def Let_def word_less_nat_alt split: if_splits)
next
  case False
  then show ?thesis
    using assms(1) by (cases x rule: poll_bytes.cases) (auto simp: poll_frame_def)
qed

lemma poll_all_spec:
  assumes "poll_all charged xs p = (p', ys)" "unat (bp_delivered p) + polled_bytes xs < 2 ^ 64"
  shows "unat (bp_delivered p') = unat (bp_delivered p) + polled_bytes xs \<and>
    (unat (bp_delivered p) + polled_bytes ys \<le> unat charged \<or> polled_bytes ys = 0) \<and>
    (bp_failed p \<longrightarrow> bp_failed p') \<and> bp_tracked p' = bp_tracked p \<and>
    (unat (bp_delivered p) \<le> unat charged \<and> unat charged < unat (bp_delivered p) + polled_bytes xs \<longrightarrow> bp_failed p')"
  using assms
proof (induction charged xs p arbitrary: p' ys rule: poll_all.induct)
  case (2 charged x xs p)
  obtain p1 y where 1: "poll_frame charged x p = (p1, y)" by fastforce
  obtain ys' where ys': "poll_all charged xs p1 = (p', ys')" "ys = y # ys'"
    using 2(2) 1 by (auto split: prod.splits)
  have f: "unat (bp_delivered p1) = unat (bp_delivered p) + poll_bytes x \<and>
    (if unat (bp_delivered p) + poll_bytes x \<le> unat charged then poll_bytes y = poll_bytes x else poll_bytes y = 0) \<and>
    (bp_failed p \<longrightarrow> bp_failed p1) \<and> bp_tracked p1 = bp_tracked p \<and>
    (unat charged < unat (bp_delivered p) + poll_bytes x \<longrightarrow> unat (bp_delivered p) \<le> unat charged \<longrightarrow> bp_failed p1)"
    using 2(3) by (intro poll_frame_spec [OF 1]) simp
  have r: "unat (bp_delivered p') = unat (bp_delivered p1) + polled_bytes xs \<and>
    (unat (bp_delivered p1) + polled_bytes ys' \<le> unat charged \<or> polled_bytes ys' = 0) \<and>
    (bp_failed p1 \<longrightarrow> bp_failed p') \<and> bp_tracked p' = bp_tracked p1 \<and>
    (unat (bp_delivered p1) \<le> unat charged \<and> unat charged < unat (bp_delivered p1) + polled_bytes xs \<longrightarrow> bp_failed p')"
    using 2(1) [OF 1 [symmetric] ys'(1)] f 2(3) by simp
  show ?case
    using f r unfolding ys'(2) by (cases "unat (bp_delivered p) + poll_bytes x \<le> unat charged") auto
qed auto

section \<open>Properties\<close>


definition demo_quota :: quota where
  "demo_quota = \<lparr>q_limit_bytes = 100, q_used_bytes = 0, q_collected_at = 0\<rparr>"

definition demo_target :: "string \<Rightarrow> write_target" where
  "demo_target b = \<lparr>wt_backend = ''be'', wt_tenant = ''t'', wt_bucket = b\<rparr>"

definition demo_quotas :: bundle_quotas where
  "demo_quotas = \<lparr>bq_generation = 1, bq_specs = [ScopeBucket ''b'' \<mapsto> Limit demo_quota]\<rparr>"

definition demo_reservation :: "string \<Rightarrow> u64 \<Rightarrow> quota_reservation" where
  "demo_reservation b n =
     \<lparr>qr_scopes = [ScopeBucket b], qr_bytes = n, qr_settled = False, qr_dispatched = False,
      qr_body = body_progress_default\<rparr>"

lemmas demo_defs =
  demo_quota_def demo_target_def demo_quotas_def demo_reservation_def admit_def applicable_def
  quota_scope_of_def List.map_filter_def sweep_def ledger_new_def entry_observed_def counter_new_def
  counter_observe_def counter_counted_def update_counters_def add_in_flight_def sat_add_def
  sat_sub_def sweep_counter_def counter_is_empty_def drop_covered.simps timestamp_def

lemma demo_admit:
  "\<exists>st. admit demo_quotas (demo_target ''b'') (Some 60) ledger_new = (st, Reserved (demo_reservation ''b'' 60))"
  by (simp add: demo_defs Let_def)

lemma demo_bounded: "limits_bounded demo_quotas"
  by (simp add: limits_bounded_def demo_quotas_def demo_quota_def)






text \<open>Settling is idempotent and a release undoes the reservation. After a write is reserved and
  released, every level has exactly the bytes in flight it had before the admission, and no later
  commit, release or drop of the same reservation changes the ledger.\<close>
theorem release_undoes_reservation:
  assumes "quota_inv (st, rs)" "limits_bounded quotas" "admit quotas t bytes st = (st1, Reserved r)"
    "reservation_release r st1 = (r2, st2)"
  shows "flight st2 scope = flight st scope \<and> reservation_settle at r2 st2 = (r2, st2) \<and>
    reservation_commit now r2 st2 = (r2, st2) \<and> drop_reservation now r2 st2 = (r2, st2)"
proof -
  have a: "ledger_ok st1" "distinct (qr_scopes r)" "\<not> qr_settled r"
    "\<And>scope. flight st1 scope = flight st scope + held_by scope r"
    using admit_reserved_spec [OF assms(3) _ assms(2)] assms(1) by (simp_all add: quota_inv_def)
  then have r2: "qr_settled r2" "st2 = ledger_settle (qr_scopes r) (qr_bytes r) None st1"
    using assms(4) by (auto simp: reservation_release_def reservation_settle_def)
  have "flight st2 scope = flight st scope"
    using ledger_settle_spec [OF a(2,1), of "qr_bytes r" None] a(3,4) r2(2) by (simp add: held_by_def)
  with r2(1) show ?thesis
    by (simp add: reservation_settle_def reservation_commit_def drop_reservation_def settle_unknown_def
        reservation_release_def)
qed

theorem release_undoes_reservation_witness:
  "\<exists>st1. admit demo_quotas (demo_target ''b'') (Some 60) ledger_new = (st1, Reserved (demo_reservation ''b'' 60)) \<and>
     flight (snd (reservation_release (demo_reservation ''b'' 60) st1)) (ScopeBucket ''b'') = 0"
proof -
  obtain st where st: "admit demo_quotas (demo_target ''b'') (Some 60) ledger_new = (st, Reserved (demo_reservation ''b'' 60))"
    using demo_admit by blast
  have "quota_inv (ledger_new, [])" by (rule quota_reachable_inv) simp
  from release_undoes_reservation [OF this demo_bounded st surjective_pairing] st show ?thesis
    by (auto simp: flight_def ledger_new_def)
qed

text \<open>A tracked body never delivers past its charge. Whatever frames the client's body yields (fewer
  than \<open>2^64\<close> bytes), the bytes passed on to the backend are at most the bytes the write was
  charged; a body that carries more is marked failed, and its write is then settled as not stored.\<close>
theorem tracked_body_bounded:
  assumes "poll_all charged xs body_progress_default = (p, ys)" "polled_bytes xs < 2 ^ 64"
  shows "polled_bytes ys \<le> unat charged \<and>
    (unat charged < polled_bytes xs \<longrightarrow>
       bp_failed p \<and> \<not> may_have_been_stored (track_body (r\<lparr>qr_body := p\<rparr>)))"
  using poll_all_spec [OF assms(1)] assms(2)
  by (auto simp: body_progress_default_def may_have_been_stored_def track_body_def)

theorem tracked_body_bounded_witness:
  "polled_bytes (snd (poll_all 3 [Ready_Frame (DataFrame ''ab''), Ready_Frame (DataFrame ''cd''), Ready_End]
       body_progress_default :: body_progress \<times> string body_error poll list)) \<le> 3"
  using tracked_body_bounded [of 3 "[Ready_Frame (DataFrame ''ab''), Ready_Frame (DataFrame ''cd''), Ready_End] :: string poll list",
      OF surjective_pairing] by simp

definition demo_state :: "u64 \<Rightarrow> u64 \<Rightarrow> slot list \<Rightarrow> u64 \<Rightarrow> ledger_state" where
  "demo_state swept fl slots settled =
     \<lparr>ls_counters = [ScopeBucket ''b'' \<mapsto> \<lparr>c_collected_at = 0, c_used_bytes = 0, c_in_flight = fl,
        c_settled = slots, c_settled_bytes = settled\<rparr>], ls_swept = swept\<rparr>"

definition demo_newer :: bundle_quotas where
  "demo_newer = \<lparr>bq_generation = 2,
     bq_specs = [ScopeBucket ''b'' \<mapsto> Limit (demo_quota\<lparr>q_used_bytes := 100, q_collected_at := 10000000000\<rparr>),
                 ScopeBucket ''c'' \<mapsto> Limit demo_quota]\<rparr>"

lemma demo_step1:
  "admit demo_quotas (demo_target ''b'') (Some 100) ledger_new
     = (demo_state 1 100 [] 0, Reserved (demo_reservation ''b'' 100))"
  by (simp add: demo_defs demo_state_def Let_def)

lemma demo_step2:
  "snd (reservation_commit 5000000000 (demo_reservation ''b'' 100) (demo_state 1 100 [] 0))
     = demo_state 1 0 [\<lparr>sl_end = 5, sl_bytes = 100\<rparr>] 100"
  by (simp add: demo_defs demo_state_def Let_def reservation_commit_def reservation_settle_def
      ledger_settle_def counter_settle_def push_slot_def merge_oldest_def max_settled_slots_def
      slot_end_def subsec_nanos_def)

lemma demo_sweep:
  "sweep demo_newer (demo_state 1 0 [\<lparr>sl_end = 5, sl_bytes = 100\<rparr>] 100) = \<lparr>ls_counters = Map.empty, ls_swept = 2\<rparr>"
  by (simp add: sweep_def demo_newer_def demo_state_def demo_quota_def sweep_counter_def counter_observe_def
      timestamp_def sat_sub_def counter_is_empty_def fun_eq_iff word_le_nat_alt)

lemma demo_step3:
  "\<exists>c. admit demo_newer (demo_target ''c'') (Some 1) (demo_state 1 0 [\<lparr>sl_end = 5, sl_bytes = 100\<rparr>] 100)
     = (\<lparr>ls_counters = [ScopeBucket ''c'' \<mapsto> c], ls_swept = 2\<rparr>, Reserved (demo_reservation ''c'' 1))"
  unfolding admit_def demo_sweep by (simp add: demo_defs demo_newer_def Let_def) blast

lemma demo_step4:
  "\<exists>st. admit demo_quotas (demo_target ''b'') (Some 100) \<lparr>ls_counters = [ScopeBucket ''c'' \<mapsto> c], ls_swept = 2\<rparr>
     = (st, Reserved (demo_reservation ''b'' 100))"
  by (simp add: demo_defs Let_def)

lemma demo_step5:
  "\<exists>st e. admit demo_newer (demo_target ''b'') (Some 100) (demo_state 1 0 [\<lparr>sl_end = 5, sl_bytes = 100\<rparr>] 100)
     = (st, Refused e)"
  unfolding admit_def demo_sweep by (simp add: demo_defs demo_newer_def Let_def)

text \<open>A sweep can turn a level's collection back. A bucket's limit of 100 is used up by a completed
  write; the next revision's collection reports it, so a write checked against that revision is
  refused. But once a write to another bucket has swept the now empty counter away, a request still
  pinned to the older revision re-creates it from the older collection and is admitted in full.\<close>
theorem sweep_forgets_collection:
  "\<exists>st1 st2 st3 r3 st4 e st5.
     admit demo_quotas (demo_target ''b'') (Some 100) ledger_new = (st1, Reserved (demo_reservation ''b'' 100)) \<and>
     snd (reservation_commit 5000000000 (demo_reservation ''b'' 100) st1) = st2 \<and>
     admit demo_newer (demo_target ''b'') (Some 100) st2 = (st5, Refused e) \<and>
     admit demo_newer (demo_target ''c'') (Some 1) st2 = (st3, Reserved r3) \<and>
     admit demo_quotas (demo_target ''b'') (Some 100) st3 = (st4, Reserved (demo_reservation ''b'' 100))"
  using demo_step1 demo_step2 demo_step3 demo_step4 demo_step5 by metis

end
