(* ===== verification/S0_Placement.thy ===== *)
theory S0_Placement
  imports S0_Quota
begin

text \<open>
  The policy bundle, \<open>src/src/pdp/bundle.rs\<close>: parsing a fetched bundle, the bucket placement a
  version 3 document publishes (which tenant owns which bucket on which backend, with the byte
  quotas), the refusals it gives, the bundle listing behind \<open>ListBuckets\<close>, the key-epoch floor of
  derived keys and the service-account membership test. The JSON reader and printer, the RFC 3339
  reader and SHA-256 are parameters. What the code only logs is left out.
\<close>

section \<open>Bundles\<close>

definition decision_rule :: string where
  "decision_rule = ''data.s3.authz.decision''"

definition decision_rule_path :: string where
  "decision_rule_path =
     map (\<lambda>c. if c = CHR ''.'' then CHR ''/'' else c)
       (case strip_prefix decision_rule ''data.'' of Some r \<Rightarrow> r | None \<Rightarrow> decision_rule)"

record parsed_bundle =
  pb_policy :: "string option"
  pb_data :: json

definition parse_bundle :: "(string \<Rightarrow> json res) \<Rightarrow> string \<Rightarrow> parsed_bundle res" where
  "parse_bundle from_str raw =
     (case from_str raw of
        Inl e \<Rightarrow> Inl (''parse bundle: '' @ e)
      | Inr v \<Rightarrow>
          (case v of
             JObj m \<Rightarrow>
               (case map_of m ''data'' of
                  Some d \<Rightarrow>
                    Inr \<lparr>pb_policy = Option.bind (map_of m ''policy'') as_str_json, pb_data = d\<rparr>
                | None \<Rightarrow> Inr \<lparr>pb_policy = None, pb_data = v\<rparr>)
           | _ \<Rightarrow> Inr \<lparr>pb_policy = None, pb_data = v\<rparr>))"

definition is_platform_data_missing_its_module :: "parsed_bundle \<Rightarrow> bool" where
  "is_platform_data_missing_its_module b \<longleftrightarrow>
     pb_policy b = None \<and>
     (case Option.bind (jget ''grant_schema_version'' (pb_data b)) as_u64 of
        None \<Rightarrow> False
      | Some version \<Rightarrow> version > 0)"

definition content_revision :: "(string \<Rightarrow> string) \<Rightarrow> string \<Rightarrow> string" where
  "content_revision sha256_hex raw = sha256_hex raw"

section \<open>Placement\<close>

definition placement_schema_version :: u64 where
  "placement_schema_version = 3"

datatype bucket_owner = OwnerTenant string | OwnerContested

record placed_bucket =
  pl_owner :: bucket_owner
  pl_object_name :: "string option"
  pl_created_at :: "int option"

record placement_index =
  px_backend_id :: string
  px_buckets :: "string \<rightharpoonup> placed_bucket"
  px_listings :: "string \<rightharpoonup> string list"
  px_quotas :: bundle_quotas

datatype bucket_placement =
    Unplaced
  | Unusable string
  | Placed placement_index

record listed_bucket =
  lb_name :: string
  lb_created_at :: "int option"

datatype placement_refusal =
    RefusalUnusable string
  | BackendMismatch string string
  | AnotherTenant
  | Contested
  | NotOnBackend
  | UnplacedSharedIdentity

definition bundle_unusable :: string where
  "bundle_unusable =
     ''deny (gateway): the policy bundle in force cannot be used for this request; it is refused until the control plane serves a usable one''"

definition unplaced_shared_identity :: string where
  "unplaced_shared_identity =
     ''deny (gateway): tenants sharing an upstream identity need a placing bundle (grant_schema_version >= 3); every request of this tenant is refused until the control plane serves one''"

definition bucket_of_another_tenant :: string where
  "bucket_of_another_tenant = ''deny (gateway): bucket belongs to another tenant''"

definition bucket_not_on_this_backend :: string where
  "bucket_not_on_this_backend = ''deny (gateway): bucket not on this backend''"

fun placement_reason :: "placement_refusal \<Rightarrow> string" where
  "placement_reason (RefusalUnusable why) =
     ''deny (gateway): the policy bundle in force cannot be used ('' @ why @
     ''); every request is refused until the control plane serves a readable one''"
| "placement_reason (BackendMismatch bundle route) =
     ''deny (gateway): the policy bundle in force was projected for backend '' @ debug_str bundle @
     '', but this request routes to backend '' @ debug_str route @
     ''; every request is refused until the control plane serves this backend's bundle''"
| "placement_reason AnotherTenant = bucket_of_another_tenant"
| "placement_reason Contested =
     bucket_of_another_tenant @ '': the policy bundle places it under more than one tenant''"
| "placement_reason NotOnBackend = bucket_not_on_this_backend"
| "placement_reason UnplacedSharedIdentity = unplaced_shared_identity"

fun placement_client_message :: "placement_refusal \<Rightarrow> string" where
  "placement_client_message (RefusalUnusable _) = bundle_unusable"
| "placement_client_message (BackendMismatch _ _) = bundle_unusable"
| "placement_client_message UnplacedSharedIdentity = bundle_unusable"
| "placement_client_message r = placement_reason r"

subsection \<open>Reading the document\<close>

text \<open>\<open>as_f64\<close> against 3.0: a float is its IEEE 754 bits, and \<open>serde_json\<close> holds finite ones only; the
  order of non-negative finite floats is that of their bits.\<close>

fun as_f64_ge_3 :: "json \<Rightarrow> bool" where
  "as_f64_ge_3 (JNum (PosInt n)) \<longleftrightarrow> n \<ge> 3"
| "as_f64_ge_3 (JNum (NegInt _)) \<longleftrightarrow> False"
| "as_f64_ge_3 (JNum (Float bits)) \<longleftrightarrow> bits \<ge> 0x4008000000000000 \<and> bits < 0x8000000000000000"
| "as_f64_ge_3 _ \<longleftrightarrow> False"

fun is_number :: "json \<Rightarrow> bool" where
  "is_number (JNum _) \<longleftrightarrow> True"
| "is_number _ \<longleftrightarrow> False"

datatype version_reading = NotPlacing | BadVersion string | Placing u64

definition read_version :: "(json \<Rightarrow> string) \<Rightarrow> json \<Rightarrow> version_reading" where
  "read_version show_json data =
     (case jget ''grant_schema_version'' data of
        None \<Rightarrow> NotPlacing
      | Some version \<Rightarrow>
          (case as_u64 version of
             Some v \<Rightarrow> if v < placement_schema_version then NotPlacing else Placing v
           | None \<Rightarrow>
               if as_f64_ge_3 version then
                 BadVersion (''data.grant_schema_version is '' @ show_json version @ '', not an integer'')
               else if \<not> is_number version then
                 BadVersion (''data.grant_schema_version is '' @ show_json version @ '', not a number'')
               else NotPlacing))"

type_synonym claims = "(string \<times> json) list btree"

definition claim_push :: "string \<Rightarrow> string \<times> json \<Rightarrow> claims \<Rightarrow> claims" where
  "claim_push bucket c m =
     btree_insert bucket ((case map_of m bucket of None \<Rightarrow> [] | Some cs \<Rightarrow> cs) @ [c]) m"

definition claim_attributes :: "string \<Rightarrow> json btree \<Rightarrow> claims \<Rightarrow> claims" where
  "claim_attributes tenant attributes claims =
     fold (\<lambda>(bucket, attrs) m. if bucket \<noteq> [] then claim_push bucket (tenant, attrs) m else m)
       attributes claims"

type_synonym quota_specs = "quota_scope \<rightharpoonup> quota_spec"

definition put_spec :: "quota_scope \<Rightarrow> quota_spec option \<Rightarrow> quota_specs \<Rightarrow> quota_specs" where
  "put_spec scope spec m = (case spec of None \<Rightarrow> m | Some s \<Rightarrow> m(scope \<mapsto> s))"

fun read_tenants ::
  "(json option \<Rightarrow> quota_spec option) \<Rightarrow> json btree \<Rightarrow> quota_specs \<Rightarrow> claims \<Rightarrow> (quota_specs \<times> claims) res" where
  "read_tenants read_spec [] quotas claims = Inr (quotas, claims)"
| "read_tenants read_spec ((tenant, tenant_data) # rest) quotas claims =
     (let quotas = put_spec (ScopeTenant tenant) (read_spec (jget ''quota'' tenant_data)) quotas in
      case jget ''bucket_attributes'' tenant_data of
        None \<Rightarrow> read_tenants read_spec rest quotas claims
      | Some (JObj attributes) \<Rightarrow>
          read_tenants read_spec rest quotas (claim_attributes tenant attributes claims)
      | Some _ \<Rightarrow> Inl (''data.tenants.'' @ tenant @ ''.bucket_attributes is not an object''))"

definition place_claim ::
  "(string \<Rightarrow> int option) \<Rightarrow> (string \<times> json) list \<Rightarrow> placed_bucket" where
  "place_claim parse_from_rfc3339 claimants =
     (case claimants of
        [(tenant, attrs)] \<Rightarrow>
          \<lparr>pl_owner = OwnerTenant tenant,
           pl_object_name = Option.bind (jget ''object_name'' attrs) as_str_json,
           pl_created_at =
             Option.bind (Option.bind (jget ''created_at'' attrs) as_str_json) parse_from_rfc3339\<rparr>
      | _ \<Rightarrow> \<lparr>pl_owner = OwnerContested, pl_object_name = None, pl_created_at = None\<rparr>)"

fun place_claims ::
  "(json option \<Rightarrow> quota_spec option) \<Rightarrow> (string \<Rightarrow> int option) \<Rightarrow> claims \<Rightarrow>
   (string \<rightharpoonup> placed_bucket) \<Rightarrow> (string \<rightharpoonup> string list) \<Rightarrow> quota_specs \<Rightarrow>
   (string \<rightharpoonup> placed_bucket) \<times> (string \<rightharpoonup> string list) \<times> quota_specs" where
  "place_claims read_spec rfc [] buckets listings quotas = (buckets, listings, quotas)"
| "place_claims read_spec rfc ((bucket, claimants) # rest) buckets listings quotas =
     (let listings =
            (case claimants of
               [(tenant, _)] \<Rightarrow>
                 listings(tenant \<mapsto> (case listings tenant of None \<Rightarrow> [] | Some l \<Rightarrow> l) @ [bucket])
             | _ \<Rightarrow> listings);
          quotas =
            (case claimants of
               [(_, attrs)] \<Rightarrow> put_spec (ScopeBucket bucket) (read_spec (jget ''quota'' attrs)) quotas
             | _ \<Rightarrow> quotas)
      in place_claims read_spec rfc rest (buckets(bucket \<mapsto> place_claim rfc claimants)) listings quotas)"

definition placement_read ::
  "(json \<Rightarrow> string) \<Rightarrow> (string \<Rightarrow> int option) \<Rightarrow> u64 \<Rightarrow> json \<Rightarrow> bucket_placement" where
  "placement_read show_json rfc generation data =
     (case read_version show_json data of
        NotPlacing \<Rightarrow> Unplaced
      | BadVersion why \<Rightarrow> Unusable why
      | Placing version \<Rightarrow>
          (case Option.bind (Option.bind (jget ''backend'' data) (jget ''id'')) as_str_json of
             None \<Rightarrow>
               Unusable (''a version '' @ nat_digits (unat version) @
                 '' bundle must name its backend in data.backend.id'')
           | Some backend_id \<Rightarrow>
               if backend_id = [] then
                 Unusable (''a version '' @ nat_digits (unat version) @
                   '' bundle must name its backend in data.backend.id'')
               else
                 (case (case jget ''tenants'' data of
                          None \<Rightarrow> Inr []
                        | Some (JObj tenants) \<Rightarrow> Inr tenants
                        | Some _ \<Rightarrow> Inl ''data.tenants is not an object'') of
                    Inl why \<Rightarrow> Unusable why
                  | Inr tenants \<Rightarrow>
                      let read_spec = quota_spec_read show_json rfc;
                          quotas = put_spec (ScopeBackend backend_id)
                            (read_spec (jget ''backend_quota'' data)) Map.empty
                      in case read_tenants read_spec tenants quotas [] of
                           Inl why \<Rightarrow> Unusable why
                         | Inr (quotas, claims) \<Rightarrow>
                             (case place_claims read_spec rfc claims Map.empty Map.empty quotas of
                                (buckets, listings, quotas) \<Rightarrow>
                                  Placed \<lparr>px_backend_id = backend_id, px_buckets = buckets,
                                    px_listings = listings,
                                    px_quotas = \<lparr>bq_generation = generation, bq_specs = quotas\<rparr>\<rparr>))))"

subsection \<open>Asking the placement\<close>

definition places_buckets :: "bucket_placement \<Rightarrow> bool" where
  "places_buckets p \<longleftrightarrow> p \<noteq> Unplaced"

definition shared_identity_refusal :: "bucket_placement \<Rightarrow> bool \<Rightarrow> placement_refusal option" where
  "shared_identity_refusal p shares =
     (if shares \<and> \<not> places_buckets p then Some UnplacedSharedIdentity else None)"

definition index_refusal :: "placement_index \<Rightarrow> string \<Rightarrow> string \<Rightarrow> string \<Rightarrow> placement_refusal option" where
  "index_refusal ix backend_id tenant bucket =
     (if px_backend_id ix \<noteq> backend_id then Some (BackendMismatch (px_backend_id ix) backend_id)
      else if bucket = [] then None
      else case px_buckets ix bucket of
        None \<Rightarrow> Some NotOnBackend
      | Some placed \<Rightarrow>
          (case pl_owner placed of
             OwnerTenant owner \<Rightarrow> if owner = tenant then None else Some AnotherTenant
           | OwnerContested \<Rightarrow> Some Contested))"

fun refusal :: "bucket_placement \<Rightarrow> string \<Rightarrow> string \<Rightarrow> string \<Rightarrow> placement_refusal option" where
  "refusal Unplaced backend_id tenant bucket = None"
| "refusal (Unusable why) backend_id tenant bucket = Some (RefusalUnusable why)"
| "refusal (Placed ix) backend_id tenant bucket = index_refusal ix backend_id tenant bucket"

fun listing :: "bucket_placement \<Rightarrow> string \<Rightarrow> string \<Rightarrow> listed_bucket list option" where
  "listing Unplaced backend_id tenant = None"
| "listing (Unusable _) backend_id tenant = Some []"
| "listing (Placed ix) backend_id tenant =
     (if px_backend_id ix \<noteq> backend_id then Some []
      else Some (map (\<lambda>nm. \<lparr>lb_name = nm, lb_created_at = Option.bind (px_buckets ix nm) pl_created_at\<rparr>)
             (case px_listings ix tenant of None \<Rightarrow> [] | Some l \<Rightarrow> l)))"

fun placement_object_name :: "bucket_placement \<Rightarrow> string \<Rightarrow> string option" where
  "placement_object_name (Placed ix) bucket = Option.bind (px_buckets ix bucket) pl_object_name"
| "placement_object_name _ bucket = None"

text \<open>\<open>BundleQuotas::is_empty\<close> asks whether the table holds any entry.\<close>

fun placement_quotas :: "bucket_placement \<Rightarrow> bundle_quotas option" where
  "placement_quotas (Placed ix) =
     (if bq_specs (px_quotas ix) \<noteq> Map.empty then Some (px_quotas ix) else None)"
| "placement_quotas _ = None"

section \<open>Subjects and key epochs\<close>

definition service_account_subject_key :: "string \<Rightarrow> string" where
  "service_account_subject_key client_id = ''sa:'' @ client_id"

definition principal_subject_key :: "principal_type \<Rightarrow> string \<Rightarrow> string" where
  "principal_subject_key t sub =
     (case t of ServiceAccount \<Rightarrow> service_account_subject_key sub | User \<Rightarrow> ''user:'' @ sub)"

definition as_epoch :: "json \<Rightarrow> u32 option" where
  "as_epoch v =
     (case as_u64 v of
        None \<Rightarrow> None
      | Some n \<Rightarrow> if unat n < 2 ^ 32 then Some (of_nat (unat n)) else None)"

definition bundle_key_epoch_floor :: "json \<Rightarrow> string \<Rightarrow> string \<Rightarrow> u32 option" where
  "bundle_key_epoch_floor data tenant subject_key =
     (if tenant = [] then None
      else case Option.bind (jget ''tenants'' data) (jget tenant) of
        None \<Rightarrow> None
      | Some tenant_data \<Rightarrow>
          (case Option.bind (jget ''s3_key_epoch'' tenant_data) as_epoch of
             None \<Rightarrow> None
           | Some floor_epoch \<Rightarrow>
               let per_subject =
                     (case Option.bind (Option.bind (jget ''s3_key_epochs'' tenant_data) (jget subject_key)) as_epoch of
                        None \<Rightarrow> 0
                      | Some e \<Rightarrow> e)
               in Some (max floor_epoch per_subject)))"

definition bundle_knows_service_account :: "json \<Rightarrow> string \<Rightarrow> string \<Rightarrow> bool" where
  "bundle_knows_service_account data tenant client_id =
     (if tenant = [] \<or> client_id = [] then False
      else case Option.bind (Option.bind (Option.bind (jget ''tenants'' data) (jget tenant))
                  (jget ''user_attributes'')) (jget (service_account_subject_key client_id)) of
        None \<Rightarrow> False
      | Some v \<Rightarrow> as_object v \<noteq> None)"

section \<open>The store\<close>

record pdp_bundle =
  b_revision :: string
  b_data :: json
  b_placement :: bucket_placement

definition bundle_new ::
  "(json \<Rightarrow> string) \<Rightarrow> (string \<Rightarrow> int option) \<Rightarrow> u64 \<Rightarrow> string \<Rightarrow> json \<Rightarrow> pdp_bundle" where
  "bundle_new show_json rfc generation revision data =
     \<lparr>b_revision = revision, b_data = data, b_placement = placement_read show_json rfc generation data\<rparr>"

record bundle_store =
  bst_current :: pdp_bundle

definition store_bundle :: "pdp_bundle \<Rightarrow> bundle_store \<Rightarrow> bundle_store" where
  "store_bundle b s = s\<lparr>bst_current := b\<rparr>"

definition store_revision :: "bundle_store \<Rightarrow> string" where
  "store_revision s = b_revision (bst_current s)"

definition store_knows_service_account :: "bundle_store \<Rightarrow> string \<Rightarrow> string \<Rightarrow> bool" where
  "store_knows_service_account s tenant client_id =
     bundle_knows_service_account (b_data (bst_current s)) tenant client_id"

definition store_key_epoch_floor :: "bundle_store \<Rightarrow> string \<Rightarrow> string \<Rightarrow> u32 option" where
  "store_key_epoch_floor s tenant subject_key =
     bundle_key_epoch_floor (b_data (bst_current s)) tenant subject_key"

section \<open>The placement as the document states it\<close>

text \<open>Every tenant that lists a bucket under its \<open>bucket_attributes\<close>, in document order, with what it
  says of it.\<close>

definition claimants_of :: "json btree \<Rightarrow> string \<Rightarrow> (string \<times> json) list" where
  "claimants_of tenants bucket =
     concat (map (\<lambda>(t, td).
       (case jget ''bucket_attributes'' td of
          Some (JObj m) \<Rightarrow> map (\<lambda>(_, a). (t, a)) (filter (\<lambda>(k, _). k = bucket) m)
        | _ \<Rightarrow> [])) tenants)"

definition claims_for :: "claims \<Rightarrow> string \<Rightarrow> (string \<times> json) list" where
  "claims_for m bucket = (case map_of m bucket of None \<Rightarrow> [] | Some cs \<Rightarrow> cs)"

definition claims_ok :: "claims \<Rightarrow> bool" where
  "claims_ok m \<longleftrightarrow> btree_ok m \<and> [] \<notin> fst ` set m \<and> (\<forall>b cs. map_of m b = Some cs \<longrightarrow> cs \<noteq> [])"

lemma claim_push_spec:
  "claims_for (claim_push bucket c m) b = claims_for m b @ (if b = bucket then [c] else [])"
  "claims_ok m \<Longrightarrow> bucket \<noteq> [] \<Longrightarrow> claims_ok (claim_push bucket c m)"
  by (auto simp: claims_for_def claim_push_def claims_ok_def btree_insert_ok set_btree_insert)

lemma claim_attributes_spec:
  "claims_for (claim_attributes t attrs m) b =
     claims_for m b @ (if b = [] then [] else map (\<lambda>(_, a). (t, a)) (filter (\<lambda>(k, _). k = b) attrs))"
  "claims_ok m \<Longrightarrow> claims_ok (claim_attributes t attrs m)"
proof (induction attrs arbitrary: m)
  case (Cons x attrs)
  case 1
  then show ?case using Cons(1) by (cases x) (auto simp: claim_attributes_def claim_push_spec)
  case 2
  then show ?case using Cons(2) by (cases x) (auto simp: claim_attributes_def claim_push_spec)
qed (simp_all add: claim_attributes_def)

lemma read_tenants_spec:
  "read_tenants rs tenants quotas m = Inr (quotas', m') \<Longrightarrow>
   (claims_ok m \<longrightarrow> claims_ok m') \<and>
   (b \<noteq> [] \<longrightarrow> claims_for m' b = claims_for m b @ claimants_of tenants b)"
proof (induction rs tenants quotas m rule: read_tenants.induct)
  case (2 rs t td rest quotas m)
  show ?case
  proof (cases "jget ''bucket_attributes'' td")
    case None
    with 2 show ?thesis by (simp add: Let_def claimants_of_def)
  next
    case (Some v)
    with 2(3) obtain attrs where v: "v = JObj attrs" by (cases v) (auto simp: Let_def)
    show ?thesis
      using 2(2) [OF refl Some v] 2(3) Some v
      by (auto simp: Let_def claimants_of_def claim_attributes_spec)
  qed
qed (simp add: claimants_of_def)

definition listed :: "(string \<rightharpoonup> string list) \<Rightarrow> string \<Rightarrow> string list" where
  "listed listings t = (case listings t of None \<Rightarrow> [] | Some l \<Rightarrow> l)"

lemma place_claims_spec:
  "place_claims rs rfc claims buckets listings quotas = (buckets', listings', quotas') \<Longrightarrow>
   distinct (map fst claims) \<Longrightarrow>
   (\<forall>b. buckets' b = (case map_of claims b of None \<Rightarrow> buckets b | Some cs \<Rightarrow> Some (place_claim rfc cs))) \<and>
   (\<forall>t. listed listings' t = listed listings t @ map fst (filter (\<lambda>(b, cs). map fst cs = [t]) claims))"
proof (induction rs rfc claims buckets listings quotas rule: place_claims.induct)
  case (2 rs rfc bucket claimants rest buckets listings quotas)
  define listings1 where "listings1 =
     (case claimants of
        [(tenant, _)] \<Rightarrow> listings(tenant \<mapsto> (case listings tenant of None \<Rightarrow> [] | Some l \<Rightarrow> l) @ [bucket])
      | _ \<Rightarrow> listings)"
  define quotas1 where "quotas1 =
     (case claimants of
        [(_, attrs)] \<Rightarrow> put_spec (ScopeBucket bucket) (rs (jget ''quota'' attrs)) quotas | _ \<Rightarrow> quotas)"
  have rest: "place_claims rs rfc rest (buckets(bucket \<mapsto> place_claim rfc claimants)) listings1 quotas1
      = (buckets', listings', quotas')"
    using 2(2) by (simp add: listings1_def quotas1_def)
  have l1: "listed listings1 t = listed listings t @ (if map fst claimants = [t] then [bucket] else [])" for t
    by (auto simp: listings1_def listed_def split: list.splits)
  note IH = 2(1) [OF listings1_def quotas1_def rest]
  have new: "map_of rest bucket = None"
    using 2(3) by (simp add: map_of_eq_None_iff)
  show ?case using IH 2(3) new l1 by (auto split: option.splits)
qed simp

lemma map_fst_singleton: "map fst cs = [t] \<longleftrightarrow> (\<exists>a. cs = [(t, a)])"
  by (auto simp: map_eq_Cons_conv)

lemma place_claim_owner:
  "pl_owner (place_claim rfc cs) = (case cs of [(t, _)] \<Rightarrow> OwnerTenant t | _ \<Rightarrow> OwnerContested)"
  by (auto simp: place_claim_def split: list.splits)

definition document_tenants :: "json \<Rightarrow> json btree" where
  "document_tenants data = (case jget ''tenants'' data of Some (JObj m) \<Rightarrow> m | _ \<Rightarrow> [])"

lemma placement_read_Placed:
  assumes "placement_read sj rfc g data = Placed ix"
  obtains read_spec claims quotas quotas0 quotas1 where
    "read_tenants read_spec (document_tenants data) quotas0 [] = Inr (quotas, claims)"
    "place_claims read_spec rfc claims Map.empty Map.empty quotas = (px_buckets ix, px_listings ix, quotas1)"
    "Option.bind (Option.bind (jget ''backend'' data) (jget ''id'')) as_str_json = Some (px_backend_id ix)"
    "px_backend_id ix \<noteq> []" "\<exists>v. read_version sj data = Placing v"
proof -
  obtain v where v: "read_version sj data = Placing v"
    using assms by (auto simp: placement_read_def split: version_reading.splits)
  obtain be where be: "Option.bind (Option.bind (jget ''backend'' data) (jget ''id'')) as_str_json = Some be" "be \<noteq> []"
    using assms v by (auto simp: placement_read_def split: option.splits if_splits)
  obtain tenants where t: "(case jget ''tenants'' data of None \<Rightarrow> Inr [] | Some (JObj tenants) \<Rightarrow> Inr tenants
      | Some _ \<Rightarrow> Inl ''data.tenants is not an object'') = Inr tenants"
    using assms v be by (auto simp: placement_read_def split: sum.splits)
  then have td: "tenants = document_tenants data"
    by (auto simp: document_tenants_def split: option.splits json.splits)
  define read_spec where "read_spec = quota_spec_read sj rfc"
  define quotas0 where "quotas0 = put_spec (ScopeBackend be) (read_spec (jget ''backend_quota'' data)) Map.empty"
  obtain quotas claims where r: "read_tenants read_spec tenants quotas0 [] = Inr (quotas, claims)"
    using assms v be t
    by (auto simp: placement_read_def Let_def read_spec_def [symmetric] quotas0_def [symmetric]
        split: sum.splits)
  obtain bs ls qs where p: "place_claims read_spec rfc claims Map.empty Map.empty quotas = (bs, ls, qs)"
    by (cases "place_claims read_spec rfc claims Map.empty Map.empty quotas")
  have "ix = \<lparr>px_backend_id = be, px_buckets = bs, px_listings = ls, px_quotas = \<lparr>bq_generation = g, bq_specs = qs\<rparr>\<rparr>"
    using assms v be t r p
    by (simp add: placement_read_def Let_def read_spec_def [symmetric] quotas0_def [symmetric])
  then show ?thesis using that [OF r [unfolded td]] p be v by simp
qed

lemma placement_index_spec:
  assumes "placement_read sj rfc g data = Placed ix"
  shows "bucket \<noteq> [] \<Longrightarrow> px_buckets ix bucket =
      (if claimants_of (document_tenants data) bucket = [] then None
       else Some (place_claim rfc (claimants_of (document_tenants data) bucket)))"
    and "sorted_wrt (<) (listed (px_listings ix) t)"
    and "b \<in> set (listed (px_listings ix) t) \<longleftrightarrow> b \<noteq> [] \<and> map fst (claimants_of (document_tenants data) b) = [t]"
proof -
  obtain rs claims quotas quotas0 quotas1 where
    r: "read_tenants rs (document_tenants data) quotas0 [] = Inr (quotas, claims)" and
    p: "place_claims rs rfc claims Map.empty Map.empty quotas = (px_buckets ix, px_listings ix, quotas1)"
    by (rule placement_read_Placed [OF assms])
  have ok: "claims_ok claims"
    using read_tenants_spec [OF r] by (simp add: claims_ok_def btree_ok_def)
  have cl: "b \<noteq> [] \<Longrightarrow> claims_for claims b = claimants_of (document_tenants data) b" for b
    using read_tenants_spec [OF r] by (simp add: claims_for_def)
  have d: "distinct (map fst claims)" "sorted (map fst claims)"
    using ok by (auto simp: claims_ok_def btree_ok_def strict_sorted_iff)
  note s = place_claims_spec [OF p d(1)]
  have lookup: "map_of claims b = (if claimants_of (document_tenants data) b = [] then None
      else Some (claimants_of (document_tenants data) b))" if "b \<noteq> []" for b
    using cl [OF that] ok by (auto simp: claims_for_def claims_ok_def split: option.splits)
  show "bucket \<noteq> [] \<Longrightarrow> px_buckets ix bucket =
      (if claimants_of (document_tenants data) bucket = [] then None
       else Some (place_claim rfc (claimants_of (document_tenants data) bucket)))"
    using s lookup by simp
  have l: "listed (px_listings ix) t = map fst (filter (\<lambda>(b, cs). map fst cs = [t]) claims)"
    using s by (simp add: listed_def)
  show "sorted_wrt (<) (listed (px_listings ix) t)"
    using ok unfolding l claims_ok_def btree_ok_def sorted_wrt_map by (blast intro: sorted_wrt_filter)
  have "b \<in> set (listed (px_listings ix) t) \<longleftrightarrow> (\<exists>cs. (b, cs) \<in> set claims \<and> map fst cs = [t])"
    unfolding l by (simp add: image_iff case_prod_unfold Bex_def)
  then have "b \<in> set (listed (px_listings ix) t) \<longleftrightarrow> (\<exists>cs. map_of claims b = Some cs \<and> map fst cs = [t])"
    using d(1) by simp
  moreover have "map_of claims [] = None"
    using ok by (auto simp: claims_ok_def map_of_eq_None_iff)
  ultimately show "b \<in> set (listed (px_listings ix) t) \<longleftrightarrow> b \<noteq> [] \<and> map fst (claimants_of (document_tenants data) b) = [t]"
    using lookup [of b] by (cases "b = []") simp_all
qed

lemma placed_refusal_None:
  assumes "placement_read sj rfc g data = Placed ix"
  shows "refusal (Placed ix) be t b = None \<longleftrightarrow>
    be = px_backend_id ix \<and> (b = [] \<or> map fst (claimants_of (document_tenants data) b) = [t])"
  using placement_index_spec(1) [OF assms, of b]
  by (auto simp: index_refusal_def place_claim_owner map_fst_singleton split: list.splits option.splits)

section \<open>Tenant isolation\<close>

text \<open>What the access layer and the bundle listing rely on: a bucket is open to one tenant at most, and a
  tenant's listing names exactly the buckets open to it, in order.\<close>

locale bucket_isolation =
  fixes admits :: "string \<Rightarrow> 'b::linorder \<Rightarrow> bool"
    and names :: "string \<Rightarrow> 'b list"
  assumes owner_unique: "admits t b \<Longrightarrow> admits u b \<Longrightarrow> t = u"
    and names_exact: "b \<in> set (names t) \<longleftrightarrow> admits t b"
    and names_ascending: "sorted_wrt (<) (names t)"
begin

lemma listings_disjoint: "t \<noteq> u \<Longrightarrow> set (names t) \<inter> set (names u) = {}"
  using owner_unique names_exact by blast

lemma listing_determined: "names t = sorted_list_of_set {b. admits t b}"
proof -
  have "set (names t) = {b. admits t b}" using names_exact by blast
  then show ?thesis
    using names_ascending [of t] by (metis sorted_list_of_set.idem_if_sorted_distinct strict_sorted_iff)
qed

end

definition opens :: "bucket_placement \<Rightarrow> string \<Rightarrow> string \<Rightarrow> string \<Rightarrow> bool" where
  "opens p backend_id tenant bucket \<longleftrightarrow>
     places_buckets p \<and> bucket \<noteq> [] \<and> refusal p backend_id tenant bucket = None"

definition listed_names :: "bucket_placement \<Rightarrow> string \<Rightarrow> string \<Rightarrow> string list" where
  "listed_names p backend_id tenant =
     (case listing p backend_id tenant of None \<Rightarrow> [] | Some l \<Rightarrow> map lb_name l)"

lemma listed_names_Placed:
  "listed_names (Placed ix) be t = (if px_backend_id ix = be then listed (px_listings ix) t else [])"
  by (simp add: listed_names_def listed_def comp_def split: option.split)

interpretation placement_isolation:
  bucket_isolation "opens (placement_read sj rfc g data) be" "listed_names (placement_read sj rfc g data) be"
  for sj rfc g data be
proof (unfold_locales, goal_cases)
  case (1 t b u)
  then show ?case
    by (cases "placement_read sj rfc g data") (auto simp: opens_def places_buckets_def placed_refusal_None simp del: refusal.simps(3))
next
  case (2 b t)
  then show ?case
    by (cases "placement_read sj rfc g data")
      (auto simp: opens_def places_buckets_def placed_refusal_None listed_names_Placed placement_index_spec(3)
        listed_names_def [of Unplaced] listed_names_def [of "Unusable _"] simp del: refusal.simps(3))
next
  case (3 t)
  then show ?case
    by (cases "placement_read sj rfc g data")
      (auto simp: listed_names_Placed placement_index_spec(2)
        listed_names_def [of Unplaced] listed_names_def [of "Unusable _"])
qed

section \<open>Properties\<close>

text \<open>C9: One owner per bucket. Under a version 3 bundle a request about a named bucket reaches the policy
  only on the bundle's own backend and only for the single tenant whose document entry lists the
  bucket: a bucket listed by nobody or by two tenants is refused to everyone, and two different
  tenants are never both let through to one bucket.\<close>
theorem placement_single_owner:
  assumes "placement_read sj rfc g data = p" "places_buckets p" "bucket \<noteq> []"
  shows "(refusal p be t bucket = None \<longrightarrow> map fst (claimants_of (document_tenants data) bucket) = [t]) \<and>
    (refusal p be t bucket = None \<and> refusal p be' u bucket = None \<longrightarrow> t = u \<and> be = be') \<and>
    (case p of
       Placed ix \<Rightarrow> refusal p be t bucket = None \<longleftrightarrow>
         be = px_backend_id ix \<and> map fst (claimants_of (document_tenants data) bucket) = [t]
     | _ \<Rightarrow> refusal p be t bucket \<noteq> None)"
  using assms placed_refusal_None [of sj rfc g data]
  by (cases p) (auto simp: places_buckets_def simp del: refusal.simps(3))

definition demo_bundle :: json where
  "demo_bundle = JObj
     [(''backend'', JObj [(''id'', JStr ''be'')]),
      (''grant_schema_version'', JNum (PosInt 3)),
      (''tenants'', JObj
         [(''acme'', JObj [(''bucket_attributes'', JObj [(''logs'', JObj []), (''shared'', JObj [])]),
                           (''s3_key_epoch'', JNum (PosInt 4)),
                           (''s3_key_epochs'', JObj [(''user:eve'', JNum (PosInt 7))])]),
          (''globex'', JObj [(''bucket_attributes'', JObj [(''shared'', JObj [])])])])]"

lemmas placement_eval =
  placement_read_def demo_bundle_def read_version_def placement_schema_version_def claim_attributes_def
  claim_push_def put_spec_def quota_spec_read_def

theorem placement_single_owner_witness:
  "\<exists>p. placement_read (\<lambda>_. []) (\<lambda>_. None) 1 demo_bundle = p \<and> refusal p ''be'' ''acme'' ''logs'' = None \<and>
     map fst (claimants_of (document_tenants demo_bundle) ''logs'') = [''acme''] \<and>
     refusal p ''be'' ''acme'' ''shared'' \<noteq> None"
proof -
  obtain ix where p: "placement_read (\<lambda>_. []) (\<lambda>_. None) 1 demo_bundle = Placed ix" "px_backend_id ix = ''be''"
    by (simp add: placement_eval Let_def)
  have c: "map fst (claimants_of (document_tenants demo_bundle) ''logs'') = [''acme'']"
    "map fst (claimants_of (document_tenants demo_bundle) ''shared'') = [''acme'', ''globex'']"
    by (simp_all add: claimants_of_def document_tenants_def demo_bundle_def)
  have "refusal (Placed ix) ''be'' ''acme'' ''logs'' = None" "refusal (Placed ix) ''be'' ''acme'' ''shared'' \<noteq> None"
    using placement_single_owner [OF p(1), of "''logs''" "''be''" "''acme''" "''be''" "''acme''"]
      placement_single_owner [OF p(1), of "''shared''" "''be''" "''acme''" "''be''" "''acme''"] c p(2)
    by (simp_all add: places_buckets_def del: refusal.simps)
  then show ?thesis using p c by simp
qed

text \<open>C10: The bundle listing is the access rule. For a placing bundle, a tenant's \<open>ListBuckets\<close> answer names,
  in ascending order and once each, exactly the buckets a request of that tenant on that backend
  would not be refused; different tenants' listings share no bucket.\<close>
theorem placement_listing_exact:
  fixes sj rfc g data be
  defines "p \<equiv> placement_read sj rfc g data"
  assumes "places_buckets p" "t \<noteq> u"
  shows "sorted_wrt (<) (listed_names p be t) \<and>
    set (listed_names p be t) = {b. b \<noteq> [] \<and> refusal p be t b = None} \<and>
    listed_names p be t = sorted_list_of_set {b. b \<noteq> [] \<and> refusal p be t b = None} \<and>
    set (listed_names p be t) \<inter> set (listed_names p be u) = {}"
  using placement_isolation.names_ascending [of sj rfc g data be t] placement_isolation.listings_disjoint [OF assms(3), of sj rfc g data be]
    placement_isolation.names_exact [of _ sj rfc g data be t] placement_isolation.listing_determined [of sj rfc g data be t] assms(2)
  unfolding p_def by (auto simp: opens_def)

theorem placement_listing_exact_witness:
  "set (listed_names (placement_read (\<lambda>_. []) (\<lambda>_. None) 1 demo_bundle) ''be'' ''acme'') \<inter>
   set (listed_names (placement_read (\<lambda>_. []) (\<lambda>_. None) 1 demo_bundle) ''be'' ''globex'') = {}"
proof -
  have "places_buckets (placement_read (\<lambda>_. []) (\<lambda>_. None) 1 demo_bundle)"
    by (simp add: placement_eval Let_def places_buckets_def)
  from placement_listing_exact [OF this, of "''acme''" "''globex''" "''be''"] show ?thesis by blast
qed

text \<open>The schema version fails closed. A document is read as not placing buckets exactly when it has no
  version or a version that is a number below 3; any other version either places buckets or makes
  the whole bundle unusable, and an unusable bundle refuses every request, lists nothing and
  publishes no quota.\<close>
theorem placement_version_fails_closed:
  "(placement_read sj rfc g data = Unplaced \<longleftrightarrow>
     (case jget ''grant_schema_version'' data of
        None \<Rightarrow> True
      | Some (JNum n) \<Rightarrow> \<not> as_f64_ge_3 (JNum n)
      | Some _ \<Rightarrow> False)) \<and>
   (case placement_read sj rfc g data of
      Unusable why \<Rightarrow> refusal (Unusable why) be t b = Some (RefusalUnusable why) \<and>
        listing (Unusable why) be t = Some [] \<and> placement_quotas (Unusable why) = None
    | _ \<Rightarrow> True)"
proof -
  have u: "as_u64 (JNum n) = Some k \<longleftrightarrow> n = PosInt k" for n k
    by (cases n) auto
  have v: "read_version sj data = NotPlacing \<longleftrightarrow>
     (case jget ''grant_schema_version'' data of None \<Rightarrow> True | Some (JNum n) \<Rightarrow> \<not> as_f64_ge_3 (JNum n) | Some _ \<Rightarrow> False)"
    by (auto simp: read_version_def placement_schema_version_def u split: option.splits json.splits)
  have "placement_read sj rfc g data = Unplaced \<longleftrightarrow> read_version sj data = NotPlacing"
    by (auto simp: placement_read_def Let_def split: version_reading.split option.split sum.split prod.split)
  with v show ?thesis by (simp split: bucket_placement.split)
qed

end
