(* ===== verification/S0_Listing.thy ===== *)
theory S0_Listing
  imports S0_Error S0_Placement
begin

text \<open>
  Listings cut by the gateway: \<open>proxy/fanout.rs\<close> (the continuation cursor and the fan-out of one listing over
  several granted prefixes), \<open>proxy/obligations.rs\<close> (what an access hook asks of a response),
  \<open>proxy/bucketfilter.rs\<close> (one page of a filtered bucket listing) and the functions of \<open>proxy/mod.rs\<close>
  that drive them against a backend (\<open>fan_out_list_v2\<close>, \<open>filtered_bucket_listing\<close>, \<open>bucket_listing_page\<close>,
  \<open>decode_cursor\<close>).

  SHA-256 and the hexadecimal coding of the \<open>hex\<close> crate are arguments. A backend is a function from a state
  and a request to the next state and an answer, so that it may answer differently each time it is asked.
\<close>

section \<open>The cursor and the scope it is bound to\<close>

record cursor =
  cu_scope_hash :: string
  cu_last_key :: string

record hashing =
  h_sha256 :: "string \<Rightarrow> string"
  h_hex_encode :: "string \<Rightarrow> string"
  h_hex_decode :: "string \<Rightarrow> string option"

definition cursor_encode :: "hashing \<Rightarrow> cursor \<Rightarrow> string" where
  "cursor_encode h c = ''v1.'' @ cu_scope_hash c @ ''.'' @ h_hex_encode h (cu_last_key c)"

text \<open>\<open>splitn(3, '.')\<close>: the third part keeps every further dot.\<close>

definition cursor_decode :: "hashing \<Rightarrow> string \<Rightarrow> cursor option" where
  "cursor_decode h s =
     (case split_once CHR ''.'' s of
        None \<Rightarrow> None
      | Some (version, rest) \<Rightarrow>
          if version \<noteq> ''v1'' then None
          else case split_once CHR ''.'' rest of
            None \<Rightarrow> None
          | Some (scope_hash, key) \<Rightarrow>
              if length scope_hash \<noteq> 64 \<or> \<not> list_all is_hexdigit scope_hash then None
              else case Option.bind (h_hex_decode h key) from_utf8 of
                None \<Rightarrow> None
              | Some last_key \<Rightarrow> Some \<lparr>cu_scope_hash = scope_hash, cu_last_key = last_key\<rparr>)"

fun be_bytes :: "nat \<Rightarrow> nat \<Rightarrow> string" where
  "be_bytes 0 n = []"
| "be_bytes (Suc k) n = be_bytes k (n div 256) @ [char_of (n mod 256)]"

definition scope_bytes :: "string list \<Rightarrow> string" where
  "scope_bytes pfxs =
     ''s0.fanout.scope.v1'' @ [CHR 0x0A] @ be_bytes 8 (length pfxs) @
     concat (map (\<lambda>p. be_bytes 8 (length p) @ p) pfxs)"

definition scope_hash :: "hashing \<Rightarrow> string list \<Rightarrow> string" where
  "scope_hash h pfxs = h_hex_encode h (h_sha256 h (scope_bytes pfxs))"

section \<open>Fan-out over granted prefixes\<close>

record 't page =
  pg_items :: "'t list"
  pg_truncated :: bool
  pg_next :: "cursor option"

type_synonym ('s, 't) lister = "'s \<Rightarrow> string \<Rightarrow> string option \<Rightarrow> nat \<Rightarrow> 's \<times> 't list \<times> bool"

text \<open>The inner \<open>loop\<close>: list within one prefix until the page is full (the flag) or the prefix is exhausted.\<close>

function list_prefix ::
  "('t \<Rightarrow> string) \<Rightarrow> ('s, 't) lister \<Rightarrow> nat \<Rightarrow> string \<Rightarrow> string option \<Rightarrow> 's \<Rightarrow> 't list \<Rightarrow> 's \<times> 't list \<times> bool" where
  "list_prefix key_of lister max_keys pfx start_after s items =
     (if max_keys - length items = 0 then (s, items, True)
      else case lister s pfx start_after (max_keys - length items) of
        (s', batch, sub_truncated) \<Rightarrow>
          let items' = items @ take (max_keys - length items) batch in
          if length items' \<ge> max_keys then (s', items', True)
          else if sub_truncated \<and> batch \<noteq> [] then
            list_prefix key_of lister max_keys pfx (Some (key_of (last items'))) s' items'
          else (s', items', False))"
  by pat_completeness auto
termination
  by (relation "measure (\<lambda>(key_of, lister, max_keys, pfx, start_after, s, items). max_keys - length items)")
    (auto simp: min_def simp flip: length_greater_0_conv)

declare list_prefix.simps [simp del]

text \<open>The outer loop over the prefixes, with the key to resume after.\<close>

fun fan_prefixes ::
  "('t \<Rightarrow> string) \<Rightarrow> ('s, 't) lister \<Rightarrow> nat \<Rightarrow> string list \<Rightarrow> string option \<Rightarrow> 's \<Rightarrow> 't list \<Rightarrow> 's \<times> 't list \<times> bool" where
  "fan_prefixes key_of lister max_keys [] resume s items = (s, items, False)"
| "fan_prefixes key_of lister max_keys (p # ps) resume s items =
     (case resume of
        Some rk \<Rightarrow>
          if starts_with rk p then
            (case list_prefix key_of lister max_keys p (Some rk) s items of
               (s', items', True) \<Rightarrow> (s', items', True)
             | (s', items', False) \<Rightarrow> fan_prefixes key_of lister max_keys ps None s' items')
          else fan_prefixes key_of lister max_keys ps (Some rk) s items
      | None \<Rightarrow>
          (case list_prefix key_of lister max_keys p None s items of
             (s', items', True) \<Rightarrow> (s', items', True)
           | (s', items', False) \<Rightarrow> fan_prefixes key_of lister max_keys ps None s' items'))"

definition fan_out ::
  "hashing \<Rightarrow> string list \<Rightarrow> cursor option \<Rightarrow> nat \<Rightarrow> ('t \<Rightarrow> string) \<Rightarrow> ('s, 't) lister \<Rightarrow> 's \<Rightarrow> 's \<times> (string + 't page)" where
  "fan_out h pfxs cur max_keys key_of lister s =
     (let hash = scope_hash h pfxs in
      if (case cur of None \<Rightarrow> False | Some c \<Rightarrow> cu_scope_hash c \<noteq> hash) then
        (s, Inl ''grant scope changed; restart listing'')
      else
        case fan_prefixes key_of lister max_keys pfxs (map_option cu_last_key cur) s [] of
          (s', items, truncated) \<Rightarrow>
            (s', Inr \<lparr>pg_items = items, pg_truncated = truncated,
                     pg_next = (if truncated \<and> items \<noteq> []
                                then Some \<lparr>cu_scope_hash = hash, cu_last_key = key_of (last items)\<rparr>
                                else None)\<rparr>))"

section \<open>Obligations on a response\<close>

text \<open>A \<open>BTreeSet<String>\<close> is the ascending list of its members.\<close>

datatype bucket_visibility = Nothing | Only "string list" | All

definition btree_set :: "string list \<Rightarrow> string list" where
  "btree_set names = remdups_adj (sort names)"

definition visibility_only :: "string list \<Rightarrow> bucket_visibility" where
  "visibility_only names = (if names = [] then Nothing else Only names)"

fun admits :: "bucket_visibility \<Rightarrow> string \<Rightarrow> bool" where
  "admits Nothing name = False"
| "admits (Only names) name = (name \<in> set names)"
| "admits All name = True"

fun visibility_scope :: "bucket_visibility \<Rightarrow> string list" where
  "visibility_scope Nothing = ['':none'']"
| "visibility_scope All = ['':all'']"
| "visibility_scope (Only names) = map (\<lambda>b. ''='' @ b) names"

record bucket_dto =
  bk_bucket_region :: "string option"
  bk_creation_date :: "int option"
  bk_name :: "string option"

datatype bucket_source = BackendSource | BundleSource "bucket_dto list"

record response_obligations =
  ro_list_fanout :: "string list option"
  ro_visible_buckets :: "bucket_visibility option"
  ro_bucket_source :: "bucket_source option"

definition obligations_fanout :: "string list \<Rightarrow> response_obligations" where
  "obligations_fanout pfxs =
     \<lparr>ro_list_fanout = Some pfxs, ro_visible_buckets = None, ro_bucket_source = None\<rparr>"

definition obligations_buckets :: "bucket_visibility \<Rightarrow> bucket_source \<Rightarrow> response_obligations" where
  "obligations_buckets visibility source =
     \<lparr>ro_list_fanout = None, ro_visible_buckets = Some visibility, ro_bucket_source = Some source\<rparr>"

section \<open>One page of a filtered bucket listing\<close>

record bucket_page =
  bp_buckets :: "bucket_dto list"
  bp_next :: "cursor option"

fun dedup_by :: "('a \<Rightarrow> 'b) \<Rightarrow> 'a list \<Rightarrow> 'a list" where
  "dedup_by f (x # y # zs) = (if f x = f y then dedup_by f (x # zs) else x # dedup_by f (y # zs))"
| "dedup_by f xs = xs"

definition bucket_name :: "bucket_dto \<Rightarrow> string" where
  "bucket_name b = (case bk_name b of None \<Rightarrow> [] | Some n \<Rightarrow> n)"

definition kept_buckets :: "bucket_dto list \<Rightarrow> bucket_visibility \<Rightarrow> string option \<Rightarrow> bucket_dto list" where
  "kept_buckets all visibility name_prefix =
     dedup_by bk_name (sort_key bucket_name
       (filter (\<lambda>b. case bk_name b of
                     None \<Rightarrow> False
                   | Some name \<Rightarrow> admits visibility name \<and>
                       (case name_prefix of None \<Rightarrow> True | Some p \<Rightarrow> starts_with name p)) all))"

definition bucket_page_of ::
  "hashing \<Rightarrow> bucket_dto list \<Rightarrow> bucket_visibility \<Rightarrow> string option \<Rightarrow> cursor option \<Rightarrow> nat \<Rightarrow> string + bucket_page" where
  "bucket_page_of h all visibility name_prefix cur max_buckets =
     (let hash = scope_hash h (visibility_scope visibility) in
      if (case cur of None \<Rightarrow> False | Some c \<Rightarrow> cu_scope_hash c \<noteq> hash) then
        Inl ''bucket visibility changed; restart the listing''
      else
        let kept = kept_buckets all visibility name_prefix;
            start = (case cur of
                       None \<Rightarrow> 0
                     | Some c \<Rightarrow> length (takeWhile (\<lambda>b. bucket_name b \<le> cu_last_key c) kept));
            remaining = drop (min start (length kept)) kept;
            truncated = (length remaining > max_buckets);
            buckets = take max_buckets remaining;
            next_key = (if truncated \<and> buckets \<noteq> [] then bk_name (last buckets) else None)
        in Inr \<lparr>bp_buckets = buckets,
                bp_next = map_option (\<lambda>k. \<lparr>cu_scope_hash = hash, cu_last_key = k\<rparr>) next_key\<rparr>)"

section \<open>Listings answered from a backend\<close>

text \<open>The fields of \<open>ListObjectsV2Input\<close> the gateway reads or sets; every other field of the client's request is
  carried unchanged in the record's extension slot.\<close>

record list_objects_v2_input =
  li_bucket :: string
  li_prefix :: "string option"
  li_start_after :: "string option"
  li_continuation_token :: "string option"
  li_delimiter :: "string option"
  li_max_keys :: "int option"

record object_dto =
  oj_key :: "string option"
  oj_size :: "int option"

record list_objects_v2_output =
  lo_name :: "string option"
  lo_max_keys :: "int option"
  lo_key_count :: "int option"
  lo_is_truncated :: "bool option"
  lo_contents :: "object_dto list option"
  lo_next_continuation_token :: "string option"

type_synonym ('w, 'i, 'o) backend_call = "'w \<Rightarrow> 'i \<Rightarrow> 'w \<times> (s3_error + 'o)"

definition decode_cursor :: "hashing \<Rightarrow> string option \<Rightarrow> s3_error + cursor option" where
  "decode_cursor h token =
     (case token of
        None \<Rightarrow> Inr None
      | Some t \<Rightarrow>
          (case cursor_decode h t of
             None \<Rightarrow> Inl (s3_error_of ''InvalidArgument'' ''malformed continuation token'')
           | Some c \<Rightarrow> Inr (Some c)))"

definition object_key :: "object_dto \<Rightarrow> string" where
  "object_key ob = (case oj_key ob of None \<Rightarrow> [] | Some k \<Rightarrow> k)"

text \<open>The request sent for one prefix, and the closure \<open>lister\<close>: a backend error is put in the cell and the
  prefix reads as empty.\<close>

definition sub_list_request ::
  "'a list_objects_v2_input_scheme \<Rightarrow> string \<Rightarrow> string option \<Rightarrow> nat \<Rightarrow> 'a list_objects_v2_input_scheme" where
  "sub_list_request template pfx start_after limit =
     template\<lparr>li_prefix := Some pfx, li_start_after := start_after, li_continuation_token := None,
              li_delimiter := None, li_max_keys := Some (int limit)\<rparr>"

definition v2_lister ::
  "('w, 'a list_objects_v2_input_scheme, list_objects_v2_output) backend_call \<Rightarrow> 'a list_objects_v2_input_scheme \<Rightarrow>
   ('w \<times> s3_error option, object_dto) lister" where
  "v2_lister list_objects_v2 template =
     (\<lambda>(w, error) pfx start_after limit.
        case list_objects_v2 w (sub_list_request template pfx start_after limit) of
          (w', Inr resp) \<Rightarrow>
            ((w', error),
             (case lo_contents resp of None \<Rightarrow> [] | Some os \<Rightarrow> os),
             (case lo_is_truncated resp of None \<Rightarrow> False | Some t \<Rightarrow> t))
        | (w', Inl e) \<Rightarrow> ((w', Some e), [], False))"

definition clamp_max_keys :: "int option \<Rightarrow> nat" where
  "clamp_max_keys m = nat (max 1 (min 1000 (case m of None \<Rightarrow> 1000 | Some k \<Rightarrow> k)))"

definition fan_out_list_v2 ::
  "hashing \<Rightarrow> ('w, 'a list_objects_v2_input_scheme, list_objects_v2_output) backend_call \<Rightarrow> 'w \<Rightarrow>
   'a list_objects_v2_input_scheme \<Rightarrow> string list \<Rightarrow> 'w \<times> (s3_error + list_objects_v2_output)" where
  "fan_out_list_v2 h list_objects_v2 w input pfxs =
     (let max_keys = clamp_max_keys (li_max_keys input) in
      case decode_cursor h (li_continuation_token input) of
        Inl e \<Rightarrow> (w, Inl e)
      | Inr cur \<Rightarrow>
          (case fan_out h pfxs cur max_keys object_key (v2_lister list_objects_v2 input) (w, None) of
             ((w', error), Inl e) \<Rightarrow> (w', Inl (s3_error_of ''InvalidArgument'' e))
           | ((w', Some e), Inr page) \<Rightarrow> (w', Inl e)
           | ((w', None), Inr page) \<Rightarrow>
               (w', Inr \<lparr>lo_name = Some (li_bucket input), lo_max_keys = Some (int max_keys),
                         lo_key_count = Some (int (length (pg_items page))),
                         lo_is_truncated = Some (pg_truncated page), lo_contents = Some (pg_items page),
                         lo_next_continuation_token = map_option (cursor_encode h) (pg_next page)\<rparr>)))"

record list_buckets_input =
  bi_prefix :: "string option"
  bi_continuation_token :: "string option"
  bi_max_buckets :: "int option"

record list_buckets_output =
  bo_buckets :: "bucket_dto list option"
  bo_continuation_token :: "string option"
  bo_prefix :: "string option"
  bo_owner :: "string option"

definition bucket_listing_page ::
  "hashing \<Rightarrow> bucket_dto list \<Rightarrow> bucket_visibility \<Rightarrow> string option \<Rightarrow> cursor option \<Rightarrow> nat \<Rightarrow>
   s3_error + list_buckets_output" where
  "bucket_listing_page h all visibility name_prefix cur page_size =
     (case bucket_page_of h all visibility name_prefix cur page_size of
        Inl e \<Rightarrow> Inl (s3_error_of ''InvalidArgument'' e)
      | Inr page \<Rightarrow>
          Inr \<lparr>bo_buckets = Some (bp_buckets page),
               bo_continuation_token = map_option (cursor_encode h) (bp_next page),
               bo_prefix = name_prefix, bo_owner = None\<rparr>)"

definition drain_bound_message :: "nat \<Rightarrow> string" where
  "drain_bound_message max_pages =
     ''this tenant's bucket list exceeds the '' @ nat_digits max_pages @
     ''-page drain bound; the gateway will not answer a bucket listing it cannot filter completely''"

text \<open>The loop \<open>for page in 0..\<close>: \<open>left\<close> is \<open>max_pages - page\<close>.\<close>

fun drain_buckets ::
  "('w, 'a list_buckets_input_scheme, list_buckets_output) backend_call \<Rightarrow> 'a list_buckets_input_scheme \<Rightarrow> nat \<Rightarrow>
   nat \<Rightarrow> 'w \<Rightarrow> bucket_dto list \<Rightarrow> string option \<Rightarrow> 'w \<times> (s3_error + bucket_dto list)" where
  "drain_buckets list_buckets input max_pages 0 w all token =
     (w, Inl (s3_error_of ''ServiceUnavailable'' (drain_bound_message max_pages)))"
| "drain_buckets list_buckets input max_pages (Suc left) w all token =
     (case list_buckets w (input\<lparr>bi_continuation_token := token, bi_max_buckets := None\<rparr>) of
        (w', Inl e) \<Rightarrow> (w', Inl e)
      | (w', Inr out) \<Rightarrow>
          let all' = all @ (case bo_buckets out of None \<Rightarrow> [] | Some bs \<Rightarrow> bs) in
          (case bo_continuation_token out of
             None \<Rightarrow> (w', Inr all')
           | Some nxt \<Rightarrow>
               if nxt \<noteq> [] \<and> Some nxt \<noteq> token
               then drain_buckets list_buckets input max_pages left w' all' (Some nxt)
               else (w', Inr all')))"

definition filtered_bucket_listing ::
  "hashing \<Rightarrow> ('w, 'a list_buckets_input_scheme, list_buckets_output) backend_call \<Rightarrow> 'w \<Rightarrow> 'a list_buckets_input_scheme \<Rightarrow>
   bucket_visibility \<Rightarrow> nat \<Rightarrow> nat \<Rightarrow> 'w \<times> (s3_error + list_buckets_output)" where
  "filtered_bucket_listing h list_buckets w input visibility page_size max_pages =
     (case decode_cursor h (bi_continuation_token input) of
        Inl e \<Rightarrow> (w, Inl e)
      | Inr cur \<Rightarrow>
          (case drain_buckets list_buckets input max_pages max_pages w [] None of
             (w', Inl e) \<Rightarrow> (w', Inl e)
           | (w', Inr all) \<Rightarrow> (w', bucket_listing_page h all visibility (bi_prefix input) cur page_size)))"

section \<open>A client that follows the cursors\<close>

text \<open>What a paginating client does with either listing: ask, keep the page, and ask again with the cursor it was
  given. \<open>None\<close> when a page is refused or the fuel runs out before the last page.\<close>

fun walk :: "('s \<Rightarrow> cursor option \<Rightarrow> 's \<times> (string + 't list \<times> cursor option)) \<Rightarrow> nat \<Rightarrow> 's \<Rightarrow> cursor option \<Rightarrow> 't list option" where
  "walk fetch 0 s cur = None"
| "walk fetch (Suc n) s cur =
     (case fetch s cur of
        (s', Inl e) \<Rightarrow> None
      | (s', Inr (items, None)) \<Rightarrow> Some items
      | (s', Inr (items, Some c)) \<Rightarrow> map_option (\<lambda>rest. items @ rest) (walk fetch n s' (Some c)))"

lemma walk_stuck: "fetch s (Some c) = (s, Inr (b, Some c)) \<Longrightarrow> walk fetch n s (Some c) = None"
  by (induction n) simp_all

definition rest_after :: "('t \<Rightarrow> string) \<Rightarrow> 't list \<Rightarrow> string option \<Rightarrow> 't list" where
  "rest_after key xs a = (case a of None \<Rightarrow> xs | Some k \<Rightarrow> filter (\<lambda>x. k < key x) xs)"

lemma rest_after_None [simp]: "rest_after key xs None = xs"
  by (simp add: rest_after_def)

lemma rest_after_last:
  fixes key :: "'t \<Rightarrow> string"
  assumes "sorted_wrt (<) (map key (b @ r))" "b \<noteq> []"
  shows "filter (\<lambda>x. key (last b) < key x) (b @ r) = r"
proof -
  have "key x \<le> key (last b)" if "x \<in> set b" for x
    using that assms by (cases b rule: rev_cases) (auto simp: sorted_wrt_append intro: less_imp_le)
  moreover have "key (last b) < key x" if "x \<in> set r" for x
    using that assms by (auto simp: sorted_wrt_append)
  ultimately show ?thesis by (auto simp: not_less filter_id_conv filter_empty_conv)
qed

lemma rest_after_step:
  assumes "sorted_wrt (<) (map key xs)" "rest_after key xs a = b @ r" "b \<noteq> []"
  shows "rest_after key xs (Some (key (last b))) = r"
proof (cases a)
  case None
  with assms rest_after_last [of key b r] show ?thesis by (simp add: rest_after_def)
next
  case (Some k)
  have s: "sorted_wrt (<) (map key (b @ r))"
    unfolding assms(2) [symmetric] using assms(1) Some
    by (simp add: rest_after_def sorted_wrt_map sorted_wrt_filter)
  have "k < key (last b)"
  proof -
    have "last b \<in> set (filter (\<lambda>x. k < key x) xs)"
      using assms(2,3) Some by (simp add: rest_after_def)
    then show ?thesis by simp
  qed
  then have "filter (\<lambda>x. key (last b) < key x) xs = filter (\<lambda>x. key (last b) < key x) (filter (\<lambda>x. k < key x) xs)"
    by (auto intro!: filter_cong)
  also have "\<dots> = r"
    using assms(2,3) Some rest_after_last [OF s] by (simp add: rest_after_def)
  finally show ?thesis by (simp add: rest_after_def)
qed

text \<open>The contract of a pager: the pages it serves are consecutive pieces of one ascending sequence, a cursor
  names the last key served, and no cursor is given only when nothing is left.\<close>

locale pager =
  fixes fetch :: "'s \<Rightarrow> cursor option \<Rightarrow> 's \<times> (string + 't list \<times> cursor option)"
    and key :: "'t \<Rightarrow> string"
    and seq :: "'t list"
    and scope :: string
  assumes ascending_keys: "sorted_wrt (<) (map key seq)"
    and fetch_page: "(case cur of None \<Rightarrow> True | Some c \<Rightarrow> cu_scope_hash c = scope \<and> cu_last_key c \<in> key ` set seq) \<Longrightarrow>
      \<exists>s' b r nxt. fetch s cur = (s', Inr (b, nxt)) \<and> rest_after key seq (map_option cu_last_key cur) = b @ r \<and>
        (case nxt of None \<Rightarrow> r = []
         | Some c \<Rightarrow> b \<noteq> [] \<and> c = \<lparr>cu_scope_hash = scope, cu_last_key = key (last b)\<rparr>)"
begin

lemma rest_subset: "set (rest_after key seq a) \<subseteq> set seq"
  by (auto simp: rest_after_def split: option.splits)

lemma walk_rest:
  assumes "case cur of None \<Rightarrow> True | Some c \<Rightarrow> cu_scope_hash c = scope \<and> cu_last_key c \<in> key ` set seq"
    "length (rest_after key seq (map_option cu_last_key cur)) < n"
  shows "walk fetch n s cur = Some (rest_after key seq (map_option cu_last_key cur))"
  using assms
proof (induction n arbitrary: s cur)
  case 0
  then show ?case by simp
next
  case (Suc n)
  obtain s' b r nxt where f: "fetch s cur = (s', Inr (b, nxt))"
      "rest_after key seq (map_option cu_last_key cur) = b @ r"
      "case nxt of None \<Rightarrow> r = [] | Some c \<Rightarrow> b \<noteq> [] \<and> c = \<lparr>cu_scope_hash = scope, cu_last_key = key (last b)\<rparr>"
    using fetch_page [OF Suc.prems(1)] by blast
  show ?case
  proof (cases nxt)
    case None
    with f show ?thesis by simp
  next
    case (Some c)
    then have c: "b \<noteq> []" "c = \<lparr>cu_scope_hash = scope, cu_last_key = key (last b)\<rparr>"
      using f(3) by simp_all
    have "last b \<in> set seq"
      using c(1) rest_subset [of "map_option cu_last_key cur"] unfolding f(2) by auto
    moreover have r: "rest_after key seq (map_option cu_last_key (Some c)) = r"
      using rest_after_step [OF ascending_keys f(2) c(1)] c(2) by simp
    moreover have "length r < n"
      using Suc.prems(2) c(1) unfolding f(2) by (cases b) auto
    ultimately have "walk fetch n s' (Some c) = Some r"
      using Suc.IH [of "Some c" s'] c(2) by simp
    with f(1,2) Some show ?thesis by simp
  qed
qed

lemma walk_complete: "walk fetch (Suc (length seq)) s None = Some seq"
  using walk_rest [of None "Suc (length seq)" s] by simp

end

section \<open>Fan-out against a conforming backend\<close>

text \<open>What \<open>ListObjectsV2\<close> promises, over the objects \<open>K\<close> of the bucket: at most as many objects as asked for, from
  the beginning of what is under the prefix after the key, possibly fewer; \<open>IsTruncated\<close> comes with at least one
  object, and its absence says that nothing is left.\<close>

definition conforming :: "('t \<Rightarrow> string) \<Rightarrow> ('s, 't) lister \<Rightarrow> 't list \<Rightarrow> bool" where
  "conforming key lister K \<longleftrightarrow>
     (\<forall>s p a n. 0 < n \<longrightarrow>
        (case lister s p a n of (s', b, t) \<Rightarrow>
           length b \<le> n \<and>
           (\<exists>r. rest_after key (filter (\<lambda>x. starts_with (key x) p) K) a = b @ r \<and> (if t then b \<noteq> [] else r = []))))"

lemma conforming_lister:
  assumes "conforming key lister K" "0 < n" "lister s p a n = (s', b, t)"
  shows "length b \<le> n \<and>
    (\<exists>r. rest_after key (filter (\<lambda>x. starts_with (key x) p) K) a = b @ r \<and> (if t then b \<noteq> [] else r = []))"
  using assms(1) [unfolded conforming_def, THEN spec [of _ s], THEN spec [of _ p], THEN spec [of _ a], THEN spec [of _ n], THEN mp, OF assms(2)] unfolding assms(3) prod.case .

definition granted :: "('t \<Rightarrow> string) \<Rightarrow> 't list \<Rightarrow> string list \<Rightarrow> 't list" where
  "granted key K ps = concat (map (\<lambda>p. filter (\<lambda>x. starts_with (key x) p) K) ps)"

definition disjoint_prefixes :: "string list \<Rightarrow> bool" where
  "disjoint_prefixes ps \<longleftrightarrow> sorted_wrt (\<lambda>p q. p < q \<and> \<not> prefix p q) ps"

lemma granted_simps [simp]:
  "granted key K [] = []"
  "granted key K (p # ps) = filter (\<lambda>x. starts_with (key x) p) K @ granted key K ps"
  by (simp_all add: granted_def)

lemma set_granted: "x \<in> set (granted key K ps) \<longleftrightarrow> x \<in> set K \<and> (\<exists>p \<in> set ps. starts_with (key x) p)"
  by (auto simp: granted_def)

lemma less_append_of_not_prefix: "p < q \<Longrightarrow> \<not> prefix p q \<Longrightarrow> p @ u < q @ (v :: string)"
proof (induction p arbitrary: q)
  case (Cons a p)
  then show ?case by (cases q) auto
qed simp

lemma under_less: "p < q \<Longrightarrow> \<not> prefix p q \<Longrightarrow> prefix p k \<Longrightarrow> prefix q k' \<Longrightarrow> (k :: string) < k'"
  using less_append_of_not_prefix unfolding prefix_def by blast

lemma granted_ascending:
  assumes "sorted_wrt (<) (map key K)" "disjoint_prefixes ps"
  shows "sorted_wrt (<) (map key (granted key K ps))"
  using assms(2)
proof (induction ps)
  case (Cons p ps)
  have "sorted_wrt (<) (map key (filter (\<lambda>x. starts_with (key x) p) K))"
    using assms(1) by (simp add: sorted_wrt_map sorted_wrt_filter)
  moreover have "key x < key y" if "starts_with (key x) p" "y \<in> set (granted key K ps)" for x y
    using that Cons.prems under_less [of p _ "key x" "key y"]
    by (auto simp: set_granted disjoint_prefixes_def starts_with_def)
  ultimately show ?case
    using Cons by (auto simp: sorted_wrt_append disjoint_prefixes_def)
qed simp

lemma list_prefix_correct:
  assumes conf: "conforming key lister K" and K: "sorted_wrt (<) (map key K)" and "length items \<le> m"
    and "rest_after key (filter (\<lambda>x. starts_with (key x) p) K) a = R"
  shows "\<exists>s'. list_prefix key lister m p a s items =
    (s', items @ take (m - length items) R, m \<le> length items + length R)"
  using assms(3,4)
proof (induction "m - length items" arbitrary: a s items R rule: less_induct)
  case less
  let ?n = "m - length items" and ?U = "filter (\<lambda>x. starts_with (key x) p) K"
  show ?case
  proof (cases "?n = 0")
    case True
    then show ?thesis using less.prems by (simp add: list_prefix.simps)
  next
    case False
    obtain s' b t where l: "lister s p a ?n = (s', b, t)" by (cases "lister s p a ?n")
    have "0 < ?n" using False by simp
    from conforming_lister [OF conf this l] obtain r where
      r0: "rest_after key ?U a = b @ r" "length b \<le> ?n" "if t then b \<noteq> [] else r = []" by blast
    then have r: "length b \<le> ?n" "R = b @ r" "if t then b \<noteq> [] else r = []"
      unfolding less.prems(2) [symmetric] by simp_all
    have step: "list_prefix key lister m p a s items =
        (if m \<le> length (items @ b) then (s', items @ b, True)
         else if t \<and> b \<noteq> [] then list_prefix key lister m p (Some (key (last (items @ b)))) s' (items @ b)
         else (s', items @ b, False))"
      using False l r(1) by (subst list_prefix.simps) (simp add: Let_def)
    show ?thesis
    proof (cases "t \<and> b \<noteq> [] \<and> length (items @ b) < m")
      case True
      have "sorted_wrt (<) (map key ?U)" using K by (simp add: sorted_wrt_map sorted_wrt_filter)
      then have rest: "rest_after key ?U (Some (key (last (items @ b)))) = r"
        using rest_after_step [of key ?U a b r] less.prems(2) r(2) True by simp
      have "m - length (items @ b) < m - length items" "length (items @ b) \<le> m"
        using True by (auto simp flip: length_greater_0_conv)
      from less.hyps [OF this rest] obtain s'' where "list_prefix key lister m p (Some (key (last (items @ b)))) s' (items @ b) =
          (s'', (items @ b) @ take (m - length (items @ b)) r, m \<le> length (items @ b) + length r)"
        by blast
      with step r True show ?thesis by (intro exI [of _ s'']) (simp add: add.assoc)
    next
      case False
      show ?thesis
      proof (cases "m \<le> length (items @ b)")
        case True
        then have "length b = m - length items" using r(1) by simp
        with True step r(2) show ?thesis by (intro exI [of _ s']) simp
      next
        case nofit: False
        with False r(3) have "\<not> (t \<and> b \<noteq> [])" "r = []" by (auto split: if_splits)
        with nofit step r(1,2) show ?thesis by (intro exI [of _ s']) simp
      qed
    qed
  qed
qed

lemma fan_prefixes_correct:
  assumes "conforming key lister K" "sorted_wrt (<) (map key K)" "length items < m"
  shows "\<exists>s'. fan_prefixes key lister m ps None s items =
    (s', items @ take (m - length items) (granted key K ps), m \<le> length items + length (granted key K ps))"
  using assms(3)
proof (induction ps arbitrary: s items)
  case (Cons p ps)
  let ?R = "filter (\<lambda>x. starts_with (key x) p) K"
  obtain s' where l: "list_prefix key lister m p None s items =
      (s', items @ take (m - length items) ?R, m \<le> length items + length ?R)"
    using list_prefix_correct [OF assms(1,2) less_imp_le [OF Cons.prems], of p None ?R s] by auto
  show ?case
  proof (cases "m \<le> length items + length ?R")
    case True
    with l show ?thesis by auto
  next
    case False
    with Cons.IH [of "items @ ?R" s'] l show ?thesis by (auto simp: add.assoc)
  qed
qed simp

text \<open>Resuming after a key under one of the prefixes gives the same as listing everything after that key.\<close>

lemma granted_after:
  assumes "disjoint_prefixes (p # ps)" "starts_with rk p"
  shows "rest_after key (granted key K (p # ps)) (Some rk) =
    rest_after key (filter (\<lambda>x. starts_with (key x) p) K) (Some rk) @ granted key K ps"
proof -
  have "rk < key x" if "x \<in> set (granted key K ps)" for x
    using that assms under_less [of p _ rk "key x"] by (auto simp: set_granted disjoint_prefixes_def starts_with_def)
  then show ?thesis by (auto simp: rest_after_def filter_id_conv)
qed

lemma granted_skip:
  assumes "disjoint_prefixes (p # ps)" "starts_with rk q" "q \<in> set ps"
  shows "\<not> starts_with rk p"
    and "rest_after key (granted key K (p # ps)) (Some rk) = rest_after key (granted key K ps) (Some rk)"
proof -
  have q: "p < q" "\<not> prefix p q" using assms by (auto simp: disjoint_prefixes_def)
  with assms(2) under_less [of p q rk rk] show "\<not> starts_with rk p" by (auto simp: starts_with_def)
  have "key x < rk" if "starts_with (key x) p" for x
    using q that assms(2) under_less [of p q "key x" rk] by (auto simp: starts_with_def)
  then show "rest_after key (granted key K (p # ps)) (Some rk) = rest_after key (granted key K ps) (Some rk)"
    by (auto simp: rest_after_def filter_empty_conv dest: less_not_sym)
qed

lemma fan_prefixes_resume:
  assumes "conforming key lister K" "sorted_wrt (<) (map key K)" "0 < m"
    "disjoint_prefixes ps" "\<exists>q \<in> set ps. starts_with rk q"
    "rest_after key (granted key K ps) (Some rk) = R"
  shows "\<exists>s'. fan_prefixes key lister m ps (Some rk) s [] = (s', take m R, m \<le> length R)"
  using assms(4-6)
proof (induction ps)
  case (Cons p ps)
  let ?U = "rest_after key (filter (\<lambda>x. starts_with (key x) p) K) (Some rk)"
  show ?case
  proof (cases "starts_with rk p")
    case True
    have R: "R = ?U @ granted key K ps"
      using granted_after [OF Cons.prems(1) True, of key K] Cons.prems(3) by simp
    obtain s' where l: "list_prefix key lister m p (Some rk) s [] = (s', take m ?U, m \<le> length ?U)"
      using list_prefix_correct [OF assms(1,2), of "[]" m p "Some rk" ?U s] by auto
    show ?thesis
    proof (cases "m \<le> length ?U")
      case full: True
      with l R True show ?thesis by auto
    next
      case False
      with fan_prefixes_correct [OF assms(1,2), of "?U" m ps s'] l R True show ?thesis by auto
    qed
  next
    case False
    then obtain q where "q \<in> set ps" "starts_with rk q" using Cons.prems(2) by auto
    with False Cons.IH granted_skip(2) [OF Cons.prems(1), of rk _ key K] Cons.prems show ?thesis
      by (auto simp: disjoint_prefixes_def)
  qed
qed simp

text \<open>The page a client fetches, as the pager's interface sees it.\<close>

definition fan_out_fetch ::
  "hashing \<Rightarrow> string list \<Rightarrow> nat \<Rightarrow> ('t \<Rightarrow> string) \<Rightarrow> ('s, 't) lister \<Rightarrow> 's \<Rightarrow> cursor option \<Rightarrow> 's \<times> (string + 't list \<times> cursor option)" where
  "fan_out_fetch h pfxs max_keys key_of lister s cur =
     (case fan_out h pfxs cur max_keys key_of lister s of
        (s', Inl e) \<Rightarrow> (s', Inl e)
      | (s', Inr page) \<Rightarrow> (s', Inr (pg_items page, pg_next page)))"

lemma fan_out_pager:
  assumes "conforming key lister K" "sorted_wrt (<) (map key K)" "disjoint_prefixes ps" "0 < m"
  shows "pager (fan_out_fetch h ps m key lister) key (granted key K ps) (scope_hash h ps)"
proof
  show "sorted_wrt (<) (map key (granted key K ps))"
    using granted_ascending [OF assms(2,3)] .
  fix cur :: "cursor option" and s
  assume cur: "case cur of None \<Rightarrow> True | Some c \<Rightarrow>
    cu_scope_hash c = scope_hash h ps \<and> cu_last_key c \<in> key ` set (granted key K ps)"
  let ?R = "rest_after key (granted key K ps) (map_option cu_last_key cur)"
  have "\<exists>s'. fan_prefixes key lister m ps (map_option cu_last_key cur) s [] = (s', take m ?R, m \<le> length ?R)"
  proof (cases cur)
    case None
    with fan_prefixes_correct [OF assms(1,2), of "[]" m ps s] assms(4) show ?thesis by simp
  next
    case (Some c)
    then have "\<exists>q \<in> set ps. starts_with (cu_last_key c) q"
      using cur by (auto simp: set_granted)
    with fan_prefixes_resume [OF assms(1,2,4,3)] Some show ?thesis by simp
  qed
  then obtain s' where f: "fan_prefixes key lister m ps (map_option cu_last_key cur) s [] = (s', take m ?R, m \<le> length ?R)"
    by blast
  have ok: "\<not> (case cur of None \<Rightarrow> False | Some c \<Rightarrow> cu_scope_hash c \<noteq> scope_hash h ps)"
    using cur by (auto split: option.splits)
  let ?n = "if m \<le> length ?R then Some \<lparr>cu_scope_hash = scope_hash h ps, cu_last_key = key (last (take m ?R))\<rparr> else None"
  have ne: "m \<le> length ?R \<Longrightarrow> take m ?R \<noteq> []" using assms(4) by auto
  then have "fan_out_fetch h ps m key lister s cur = (s', Inr (take m ?R, ?n))"
    using f ok by (simp add: fan_out_fetch_def fan_out_def Let_def)
  then show "\<exists>s' b r nxt. fan_out_fetch h ps m key lister s cur = (s', Inr (b, nxt)) \<and> ?R = b @ r \<and>
      (case nxt of None \<Rightarrow> r = []
       | Some c \<Rightarrow> b \<noteq> [] \<and> c = \<lparr>cu_scope_hash = scope_hash h ps, cu_last_key = key (last b)\<rparr>)"
    using ne by (intro exI [of _ s'] exI [of _ "take m ?R"] exI [of _ "drop m ?R"] exI [of _ ?n]) auto
qed

text \<open>A conforming backend over the objects \<open>K\<close>.\<close>

definition store_lister :: "('t \<Rightarrow> string) \<Rightarrow> 't list \<Rightarrow> (unit, 't) lister" where
  "store_lister key K = (\<lambda>s p a n.
     let R = rest_after key (filter (\<lambda>x. starts_with (key x) p) K) a in (s, take n R, n < length R))"

lemma store_lister_conforming: "conforming key (store_lister key K) K"
proof -
  have "\<exists>r. R = take n R @ r \<and> (if n < length R then take n R \<noteq> [] else r = [])" if "0 < n" for n and R :: "'a list"
    using that by (intro exI [of _ "drop n R"]) auto
  then show ?thesis by (simp add: conforming_def store_lister_def Let_def)
qed

section \<open>Requests a fan-out sends\<close>

text \<open>An invariant of the pair of lister state and items collected survives the loops if every single listing keeps it.\<close>

lemma list_prefix_inv:
  assumes step: "\<And>s a n items s' b t. I s items \<Longrightarrow> 0 < n \<Longrightarrow> n \<le> m \<Longrightarrow> lister s p a n = (s', b, t) \<Longrightarrow> I s' (items @ take n b)"
  shows "I s items \<Longrightarrow> list_prefix key lister m p a s items = (s', items', f) \<Longrightarrow> I s' items'"
proof (induction "m - length items" arbitrary: a s items rule: less_induct)
  case less
  let ?n = "m - length items"
  show ?case
  proof (cases "?n = 0")
    case True
    with less.prems show ?thesis by (simp add: list_prefix.simps)
  next
    case False
    obtain s1 b t where l: "lister s p a ?n = (s1, b, t)" by (cases "lister s p a ?n")
    have I1: "I s1 (items @ take ?n b)"
      using False by (intro step [OF less.prems(1) _ _ l]) simp_all
    show ?thesis
    proof (cases "length (items @ take ?n b) < m \<and> t \<and> b \<noteq> []")
      case True
      then have "m - length (items @ take ?n b) < m - length items"
        by (auto simp: min_def simp flip: length_greater_0_conv)
      from less.hyps [OF this I1] less.prems(2) l False True show ?thesis
        by (subst (asm) list_prefix.simps) (simp add: Let_def)
    next
      case nomore: False
      with less.prems(2) l False I1 show ?thesis
        by (subst (asm) list_prefix.simps) (auto simp: Let_def split: if_splits)
    qed
  qed
qed

lemma fan_prefixes_inv:
  assumes step: "\<And>p s a n items s' b t. p \<in> set ps \<Longrightarrow> I s items \<Longrightarrow> 0 < n \<Longrightarrow> n \<le> m \<Longrightarrow> lister s p a n = (s', b, t) \<Longrightarrow>
      I s' (items @ take n b)"
  shows "I s items \<Longrightarrow> fan_prefixes key lister m ps resume s items = (s', items', f) \<Longrightarrow> I s' items'"
  using step
proof (induction ps arbitrary: resume s items)
  case (Cons p ps)
  have one: "I s1 items1" if "list_prefix key lister m p a s items = (s1, items1, g)" for a s1 items1 g
  proof (rule list_prefix_inv [of I m lister p, OF _ Cons.prems(1) that])
    fix s a n items s' b t
    assume "I s items" "0 < n" "n \<le> m" "lister s p a n = (s', b, t)"
    then show "I s' (items @ take n b)" by (rule Cons.prems(3) [rotated 1]) simp
  qed
  have more: "I s' items'" if "I s1 items1" "fan_prefixes key lister m ps r s1 items1 = (s', items', f)" for r s1 items1
    by (rule Cons.IH [OF that]) (rule Cons.prems(3), simp_all)
  from Cons.prems(2) show ?case
    by (auto split: option.splits if_splits prod.splits bool.splits
        intro: one more [OF one] more [OF Cons.prems(1)])
qed simp

lemma fan_out_Inr:
  assumes "fan_out h ps cur m key lister s = (s', Inr page)"
  shows "\<exists>t. fan_prefixes key lister m ps (map_option cu_last_key cur) s [] = (s', pg_items page, t)"
proof -
  have "\<not> (case cur of None \<Rightarrow> False | Some c \<Rightarrow> cu_scope_hash c \<noteq> scope_hash h ps)"
    using assms by (auto simp: fan_out_def Let_def split: if_splits)
  with assms show ?thesis
    by (cases "fan_prefixes key lister m ps (map_option cu_last_key cur) s []") (auto simp: fan_out_def Let_def)
qed

lemma fan_out_Inl: "fan_out h ps cur m key lister s = (s', Inl e) \<Longrightarrow> s' = s"
  by (auto simp: fan_out_def Let_def split: if_splits prod.splits)

text \<open>A backend that answers as it likes, and the log of what it was asked and answered.\<close>

definition logged :: "(('i \<times> 'a) list \<Rightarrow> 'i \<Rightarrow> 'a) \<Rightarrow> ('i \<times> 'a) list \<Rightarrow> 'i \<Rightarrow> ('i \<times> 'a) list \<times> 'a" where
  "logged answer log req = (log @ [(req, answer log req)], answer log req)"

definition answered_objects :: "('i \<times> (s3_error + list_objects_v2_output)) list \<Rightarrow> object_dto set" where
  "answered_objects log = \<Union> {set os | os req out. (req, Inr out) \<in> set log \<and> lo_contents out = Some os}"

definition listing_inv ::
  "'a list_objects_v2_input_scheme \<Rightarrow> string list \<Rightarrow> nat \<Rightarrow>
   ('a list_objects_v2_input_scheme \<times> (s3_error + list_objects_v2_output)) list \<times> s3_error option \<Rightarrow> object_dto list \<Rightarrow> bool" where
  "listing_inv input ps m st items \<longleftrightarrow>
     (\<forall>x \<in> set (fst st). \<exists>p a n. p \<in> set ps \<and> 0 < n \<and> n \<le> m \<and> fst x = sub_list_request input p a n) \<and>
     (snd st = None \<longrightarrow> (\<forall>x \<in> set (fst st). \<exists>out. snd x = Inr out)) \<and>
     set items \<subseteq> answered_objects (fst st)"

lemma answered_objects_append:
  "answered_objects (log @ [(req, ans)]) = answered_objects log \<union>
     (case ans of Inl e \<Rightarrow> {} | Inr out \<Rightarrow> (case lo_contents out of None \<Rightarrow> {} | Some os \<Rightarrow> set os))"
  by (auto simp: answered_objects_def split: sum.splits option.splits)

lemma listing_inv_step:
  assumes "p \<in> set ps" "listing_inv input ps m s items" "0 < n" "n \<le> m"
    "v2_lister (logged answer) input s p a n = (s', b, t)"
  shows "listing_inv input ps m s' (items @ take n b)"
proof -
  obtain log err where s: "s = (log, err)" by (cases s)
  let ?req = "sub_list_request input p a n"
  have sub: "set (take n b) \<subseteq> set b" by (rule set_take_subset)
  show ?thesis
  proof (cases "answer log ?req")
    case (Inl e)
    with assms(5) s have "s' = (log @ [(?req, Inl e)], Some e)" "b = []"
      by (auto simp: v2_lister_def logged_def)
    with assms(1-4) s show ?thesis by (auto simp: listing_inv_def answered_objects_append)
  next
    case (Inr out)
    with assms(5) s have "s' = (log @ [(?req, Inr out)], err)" "b = (case lo_contents out of None \<Rightarrow> [] | Some os \<Rightarrow> os)"
      by (auto simp: v2_lister_def logged_def)
    with assms(1-4) s sub show ?thesis
      by (auto simp: listing_inv_def answered_objects_append split: option.splits)
  qed
qed

section \<open>Facts about a bucket page\<close>

lemma map_dedup_by: "map f (dedup_by f xs) = remdups_adj (map f xs)"
  by (induction f xs rule: dedup_by.induct) auto

lemma set_dedup_by: "set (dedup_by f xs) \<subseteq> set xs"
  by (induction f xs rule: dedup_by.induct) auto

lemma dedup_by_cong: "(\<And>x y. x \<in> set xs \<Longrightarrow> y \<in> set xs \<Longrightarrow> (f x = f y) = (g x = g y)) \<Longrightarrow> dedup_by f xs = dedup_by g xs"
  by (induction f xs rule: dedup_by.induct) auto

lemma remdups_adj_ascending: "sorted (xs :: 'a::linorder list) \<Longrightarrow> sorted_wrt (<) (remdups_adj xs)"
  by (induction xs rule: remdups_adj.induct) (auto simp: order.strict_iff_order)

definition visible :: "bucket_visibility \<Rightarrow> string option \<Rightarrow> bucket_dto \<Rightarrow> bool" where
  "visible visibility name_prefix b \<longleftrightarrow>
     (case bk_name b of
        None \<Rightarrow> False
      | Some name \<Rightarrow> admits visibility name \<and> (case name_prefix of None \<Rightarrow> True | Some p \<Rightarrow> starts_with name p))"

lemma kept_buckets_alt:
  "kept_buckets all visibility name_prefix = dedup_by bucket_name (sort_key bucket_name (filter (visible visibility name_prefix) all))"
proof -
  have "kept_buckets all visibility name_prefix =
      dedup_by bk_name (sort_key bucket_name (filter (visible visibility name_prefix) all))"
    by (simp add: kept_buckets_def visible_def [abs_def])
  also have "\<dots> = dedup_by bucket_name (sort_key bucket_name (filter (visible visibility name_prefix) all))"
    by (rule dedup_by_cong) (auto simp: visible_def bucket_name_def split: option.splits)
  finally show ?thesis .
qed

lemma kept_names:
  "map bucket_name (kept_buckets all visibility name_prefix) =
     remdups_adj (map bucket_name (sort_key bucket_name (filter (visible visibility name_prefix) all)))"
  by (simp add: kept_buckets_alt map_dedup_by)

lemma kept_ascending: "sorted_wrt (<) (map bucket_name (kept_buckets all visibility name_prefix))"
  unfolding kept_names by (rule remdups_adj_ascending) simp

lemma kept_subset: "b \<in> set (kept_buckets all visibility name_prefix) \<Longrightarrow> b \<in> set all \<and> visible visibility name_prefix b"
  using set_dedup_by [of bucket_name "sort_key bucket_name (filter (visible visibility name_prefix) all)"]
  by (auto simp: kept_buckets_alt)

lemma visible_name: "visible visibility name_prefix b \<Longrightarrow> bk_name b = Some (bucket_name b)"
  by (auto simp: visible_def bucket_name_def split: option.splits)

lemma rest_after_dropWhile:
  fixes key :: "'t \<Rightarrow> string"
  assumes "sorted_wrt (<) (map key xs)"
  shows "rest_after key xs (Some k) = drop (length (takeWhile (\<lambda>x. key x \<le> k) xs)) xs"
  using assms
proof (induction xs)
  case (Cons x xs)
  show ?case
  proof (cases "key x \<le> k")
    case True
    with Cons show ?thesis by (simp add: rest_after_def)
  next
    case False
    with Cons.prems have "\<forall>y \<in> set xs. k < key y" by (auto intro: less_trans)
    with False show ?thesis by (simp add: rest_after_def filter_id_conv)
  qed
qed (simp add: rest_after_def)

definition bucket_fetch ::
  "hashing \<Rightarrow> bucket_dto list \<Rightarrow> bucket_visibility \<Rightarrow> string option \<Rightarrow> nat \<Rightarrow> 's \<Rightarrow> cursor option \<Rightarrow>
   's \<times> (string + bucket_dto list \<times> cursor option)" where
  "bucket_fetch h all visibility name_prefix max_buckets s cur =
     (s, case bucket_page_of h all visibility name_prefix cur max_buckets of
           Inl e \<Rightarrow> Inl e
         | Inr page \<Rightarrow> Inr (bp_buckets page, bp_next page))"

interpretation bucket_pager: pager "bucket_fetch h all visibility name_prefix (Suc n)" bucket_name
  "kept_buckets all visibility name_prefix" "scope_hash h (visibility_scope visibility)"
  for h all visibility name_prefix n
proof
  show "sorted_wrt (<) (map bucket_name (kept_buckets all visibility name_prefix))"
    by (rule kept_ascending)
  fix cur :: "cursor option" and s :: 's
  let ?K = "kept_buckets all visibility name_prefix" and ?h = "scope_hash h (visibility_scope visibility)"
  assume cur: "case cur of None \<Rightarrow> True | Some c \<Rightarrow> cu_scope_hash c = ?h \<and> cu_last_key c \<in> bucket_name ` set ?K"
  let ?R = "rest_after bucket_name ?K (map_option cu_last_key cur)"
  let ?nxt = "if Suc n < length ?R then Some \<lparr>cu_scope_hash = ?h, cu_last_key = bucket_name (last (take (Suc n) ?R))\<rparr> else None"
  have rest: "drop (min (case cur of None \<Rightarrow> 0 | Some c \<Rightarrow> length (takeWhile (\<lambda>b. bucket_name b \<le> cu_last_key c) ?K)) (length ?K)) ?K = ?R"
    by (cases cur) (simp_all add: rest_after_dropWhile [OF kept_ascending] length_takeWhile_le min_absorb1)
  have last: "bk_name (last (take (Suc n) ?R)) = Some (bucket_name (last (take (Suc n) ?R)))" if "?R \<noteq> []"
  proof -
    have "last (take (Suc n) ?R) \<in> set (take (Suc n) ?R)" using that by (intro last_in_set) simp
    then have "last (take (Suc n) ?R) \<in> set ?K"
      using set_take_subset [of "Suc n" ?R] by (auto simp: rest_after_def split: option.splits)
    then show ?thesis by (auto dest: kept_subset intro: visible_name)
  qed
  have ok: "\<not> (case cur of None \<Rightarrow> False | Some c \<Rightarrow> cu_scope_hash c \<noteq> ?h)"
    using cur by (auto split: option.splits)
  have "bucket_fetch h all visibility name_prefix (Suc n) s cur = (s, Inr (take (Suc n) ?R, ?nxt))"
    using last unfolding bucket_fetch_def bucket_page_of_def Let_def rest if_not_P [OF ok] by auto
  moreover have "take (Suc n) ?R \<noteq> []" if "Suc n < length ?R" using that by auto
  ultimately show "\<exists>s' b r nxt. bucket_fetch h all visibility name_prefix (Suc n) s cur = (s', Inr (b, nxt)) \<and> ?R = b @ r \<and>
      (case nxt of None \<Rightarrow> r = [] | Some c \<Rightarrow> b \<noteq> [] \<and> c = \<lparr>cu_scope_hash = ?h, cu_last_key = bucket_name (last b)\<rparr>)"
    by (intro exI [of _ s] exI [of _ "take (Suc n) ?R"] exI [of _ "drop (Suc n) ?R"] exI [of _ ?nxt]) auto
qed

lemma kept_names_set:
  "set (map bk_name (kept_buckets all visibility name_prefix)) =
     Some ` {n. \<exists>b \<in> set all. bk_name b = Some n \<and> admits visibility n \<and>
               (case name_prefix of None \<Rightarrow> True | Some p \<Rightarrow> starts_with n p)}"
proof -
  let ?K = "kept_buckets all visibility name_prefix"
  have "map bk_name ?K = map Some (map bucket_name ?K)"
    by (auto dest: kept_subset intro: visible_name)
  then have "set (map bk_name ?K) = Some ` set (map bucket_name ?K)" by (simp add: image_image)
  also have "set (map bucket_name ?K) = bucket_name ` {b \<in> set all. visible visibility name_prefix b}"
    unfolding kept_names by simp
  also have "\<dots> = {n. \<exists>b \<in> set all. bk_name b = Some n \<and> admits visibility n \<and>
               (case name_prefix of None \<Rightarrow> True | Some p \<Rightarrow> starts_with n p)}"
    by (auto simp: visible_def bucket_name_def image_iff split: option.splits) force+
  finally show ?thesis .
qed

section \<open>The scope descriptor is unambiguous\<close>

lemma length_be_bytes [simp]: "length (be_bytes k n) = k"
  by (induction k arbitrary: n) simp_all

lemma be_bytes_inj: "n < 256 ^ k \<Longrightarrow> n' < 256 ^ k \<Longrightarrow> be_bytes k n = be_bytes k n' \<Longrightarrow> n = n'"
proof (induction k arbitrary: n n')
  case (Suc k)
  have "n div 256 = n' div 256"
    using Suc.prems by (intro Suc.IH) (simp_all add: less_mult_imp_div_less mult.commute)
  moreover have "char_of (n mod 256) = (char_of (n' mod 256) :: char)"
    using Suc.prems(3) by simp
  then have "of_char (char_of (n mod 256) :: char) = (of_char (char_of (n' mod 256) :: char) :: nat)" by simp
  then have "n mod 256 = n' mod 256" by simp
  ultimately show ?case by (metis div_mult_mod_eq)
qed simp

lemma framed_inj:
  assumes "\<forall>p \<in> set ps. length p < 256 ^ 8" "\<forall>p \<in> set qs. length p < 256 ^ 8" "length ps = length qs"
    "concat (map (\<lambda>p. be_bytes 8 (length p) @ p) ps) = concat (map (\<lambda>p. be_bytes 8 (length p) @ p) qs)"
  shows "ps = qs"
  using assms
proof (induction ps arbitrary: qs)
  case (Cons p ps)
  then obtain q qs' where qs: "qs = q # qs'" by (cases qs) auto
  have e: "be_bytes 8 (length p) @ p @ concat (map (\<lambda>p. be_bytes 8 (length p) @ p) ps) =
      be_bytes 8 (length q) @ q @ concat (map (\<lambda>p. be_bytes 8 (length p) @ p) qs')"
    using Cons.prems(4) qs by simp
  then have "length p = length q"
    using Cons.prems(1,2) qs by (intro be_bytes_inj [of _ 8]) simp_all
  with e Cons.IH [of qs'] Cons.prems qs show ?case by simp
qed simp

section \<open>Properties\<close>

text \<open>C29: Paging through a fan-out is complete. Against any backend that keeps the \<open>ListObjectsV2\<close> contract, however
  short its pages, and for granted prefixes that are sorted and disjoint, a client that follows the cursors
  ends, and has then seen exactly the objects under the granted prefixes, each once, in ascending key order.\<close>
theorem fan_out_walk_complete:
  assumes "conforming key lister K" "sorted_wrt (<) (map key K)" "disjoint_prefixes ps" "0 < m"
  shows "\<exists>seen n. walk (fan_out_fetch h ps m key lister) n s None = Some seen \<and>
    sorted_wrt (<) (map key seen) \<and> set seen = {x \<in> set K. \<exists>p \<in> set ps. starts_with (key x) p}"
proof (intro exI conjI)
  show "walk (fan_out_fetch h ps m key lister) (Suc (length (granted key K ps))) s None = Some (granted key K ps)"
    using pager.walk_complete [OF fan_out_pager [OF assms]] .
  show "sorted_wrt (<) (map key (granted key K ps))"
    using granted_ascending [OF assms(2,3)] .
  show "set (granted key K ps) = {x \<in> set K. \<exists>p \<in> set ps. starts_with (key x) p}"
    by (auto simp: set_granted)
qed

definition demo_hashing :: hashing where
  "demo_hashing = \<lparr>h_sha256 = (\<lambda>x. x), h_hex_encode = (\<lambda>x. x), h_hex_decode = Some\<rparr>"

theorem fan_out_walk_complete_witness:
  "\<exists>seen n. walk (fan_out_fetch demo_hashing [''2024/'', ''2025/''] 2 (\<lambda>x. x)
       (store_lister (\<lambda>x. x) [''2023/z'', ''2024/a'', ''2024/b'', ''2025/a''])) n () None = Some seen \<and>
     ''2024/b'' \<in> set seen \<and> ''2023/z'' \<notin> set seen"
proof -
  let ?K = "[''2023/z'', ''2024/a'', ''2024/b'', ''2025/a'']" and ?ps = "[''2024/'', ''2025/'']"
  have k: "sorted_wrt (<) (map (\<lambda>x. x) ?K)" by code_simp
  have d: "disjoint_prefixes ?ps" by code_simp
  have two: "0 < (2 :: nat)" by simp
  from fan_out_walk_complete [OF store_lister_conforming k d two, of demo_hashing "()"] obtain seen n where
    w: "walk (fan_out_fetch demo_hashing ?ps 2 (\<lambda>x. x) (store_lister (\<lambda>x. x) ?K)) n () None = Some seen"
    and s: "set seen = {x \<in> set ?K. \<exists>p \<in> set ?ps. starts_with x p}" by blast
  have "starts_with ''2024/b'' ''2024/''" "\<not> starts_with ''2023/z'' ''2024/''" "\<not> starts_with ''2023/z'' ''2025/''"
    by code_simp+
  with s have "''2024/b'' \<in> set seen \<and> ''2023/z'' \<notin> set seen" by simp
  with w show ?thesis by blast
qed



definition demo_list_input :: list_objects_v2_input where
  "demo_list_input = \<lparr>li_bucket = ''b'', li_prefix = Some ''a/'', li_start_after = None, li_continuation_token = None,
     li_delimiter = None, li_max_keys = None\<rparr>"


text \<open>C31: Paging through the buckets is complete and shows nothing else. For any list of buckets (in any order, with
  duplicates and nameless entries), any visibility, any name prefix and any page size of at least one, a client that follows the
  cursors ends, and has then seen exactly the names that are visible and start with the prefix, each once, in ascending order.\<close>
theorem bucket_walk_complete:
  "\<exists>seen fuel. walk (bucket_fetch h all visibility name_prefix (Suc n)) fuel s None = Some seen \<and>
     sorted_wrt (<) (map bucket_name seen) \<and>
     set (map bk_name seen) =
       Some ` {name. \<exists>b \<in> set all. bk_name b = Some name \<and> admits visibility name \<and>
                 (case name_prefix of None \<Rightarrow> True | Some p \<Rightarrow> starts_with name p)}"
proof (intro exI conjI)
  let ?K = "kept_buckets all visibility name_prefix"
  show "walk (bucket_fetch h all visibility name_prefix (Suc n)) (Suc (length ?K)) s None = Some ?K"
    by (rule bucket_pager.walk_complete)
qed (rule kept_ascending, rule kept_names_set)

text \<open>C32: A cursor survives its encoding, and the scope it is bound to has one reading. Decoding an encoded cursor gives it
  back (for a hash of 64 hexadecimal digits and a UTF-8 key, the \<open>hex\<close> coding being invertible), and two lists of
  prefixes with the same hashed descriptor are the same list.\<close>
theorem cursor_binds_scope:
  assumes "h_hex_decode h (h_hex_encode h (cu_last_key c)) = Some (cu_last_key c)"
    "length (cu_scope_hash c) = 64" "list_all is_hexdigit (cu_scope_hash c)" "valid_utf8 (cu_last_key c)"
    "length ps < 2 ^ 64" "length qs < 2 ^ 64" "list_all (\<lambda>p. length p < 2 ^ 64) (ps @ qs)"
  shows "cursor_decode h (cursor_encode h c) = Some c \<and> (scope_bytes ps = scope_bytes qs \<longleftrightarrow> ps = qs)"
proof -
  have "CHR ''.'' \<notin> set (cu_scope_hash c)"
    using assms(3) by (auto simp: list_all_iff is_hexdigit_def is_digit_def)
  then have "cursor_decode h (cursor_encode h c) = Some c"
    using assms(1-4) split_once_append [of "CHR ''.''" "''v1''" "cu_scope_hash c @ ''.'' @ h_hex_encode h (cu_last_key c)"]
      split_once_append [of "CHR ''.''" "cu_scope_hash c" "h_hex_encode h (cu_last_key c)"]
    by (simp add: cursor_decode_def cursor_encode_def from_utf8_def)
  moreover have "ps = qs" if "scope_bytes ps = scope_bytes qs"
  proof (rule framed_inj)
    have p: "(256 :: nat) ^ 8 = 2 ^ 64" by simp
    show len: "length ps = length qs"
      using that assms(5,6) by (intro be_bytes_inj [of _ 8]) (simp_all add: scope_bytes_def)
    show "concat (map (\<lambda>p. be_bytes 8 (length p) @ p) ps) = concat (map (\<lambda>p. be_bytes 8 (length p) @ p) qs)"
      using that len by (simp add: scope_bytes_def)
    show "\<forall>p \<in> set ps. length p < 256 ^ 8" "\<forall>p \<in> set qs. length p < 256 ^ 8"
      using assms(7) unfolding p by (simp_all add: list_all_iff)
  qed
  ultimately show ?thesis by auto
qed

theorem cursor_binds_scope_witness:
  "cursor_decode demo_hashing (cursor_encode demo_hashing \<lparr>cu_scope_hash = replicate 64 CHR ''a'', cu_last_key = ''k.1''\<rparr>) =
     Some \<lparr>cu_scope_hash = replicate 64 CHR ''a'', cu_last_key = ''k.1''\<rparr> \<and>
   scope_bytes [''a'', ''b''] \<noteq> scope_bytes [''ab'']"
proof -
  have "valid_utf8 ''k.1''" by code_simp
  moreover have "is_hexdigit CHR ''a''" by code_simp
  ultimately show ?thesis
    using cursor_binds_scope [of demo_hashing "\<lparr>cu_scope_hash = replicate 64 CHR ''a'', cu_last_key = ''k.1''\<rparr>" "[''a'', ''b'']" "[''ab'']"]
    by (simp add: demo_hashing_def list_all_iff)
qed

end
