(* ===== verification/S0_Auth.thy ===== *)
theory S0_Auth
  imports S0_Headers S0_Placement
begin

text \<open>
  Identity: \<open>src/src/auth/sts.rs\<close> (session credentials), \<open>src/src/auth/derived.rs\<close> (long-lived derived
  keys) and \<open>src/src/auth/mod.rs\<close> (static keys, admission and minting of derived keys, and the
  dispatch over the three access-key namespaces), with \<open>session_token\<close> of \<open>src/src/access/mod.rs\<close>.
  HMAC-SHA256, hex, base64url and JWT encoding are third-party code: they are the fields of the
  record \<open>crypto\<close> that every definition takes, and what the code relies on is \<open>crypto_ok\<close>.
\<close>

section \<open>Third-party primitives\<close>

record session_claims =
  sc_sub :: string
  sc_principal_type :: principal_type
  sc_groups :: "string list"
  sc_tenant :: string
  sc_org :: string
  sc_sid :: string
  sc_exp :: u64

record crypto =
  cr_hmac :: "string \<Rightarrow> string \<Rightarrow> string"
  cr_hex :: "string \<Rightarrow> string"
  cr_b64_encode :: "string \<Rightarrow> string"
  cr_b64_decode :: "string \<Rightarrow> string option"
  cr_jwt_encode :: "string \<Rightarrow> string option \<Rightarrow> session_claims \<Rightarrow> string res"
  cr_jwt_decode :: "string \<Rightarrow> nat \<Rightarrow> string \<Rightarrow> (string option \<times> session_claims) res"

text \<open>Documented behaviour the code relies on: base64url decodes what it encoded, its alphabet has no dot
  and it encodes something as something; an HMAC-SHA256 tag has 32 bytes; a token decodes, until it
  expires, to the header and claims it was encoded from under the same key.\<close>

definition crypto_ok :: "crypto \<Rightarrow> bool" where
  "crypto_ok cr \<longleftrightarrow>
     (\<forall>x. cr_b64_decode cr (cr_b64_encode cr x) = Some x) \<and>
     (\<forall>x. CHR ''.'' \<notin> set (cr_b64_encode cr x)) \<and>
     (\<forall>x. x \<noteq> [] \<longrightarrow> cr_b64_encode cr x \<noteq> []) \<and>
     (\<forall>k m. length (cr_hmac cr k m) = 32) \<and>
     (\<forall>key kid claims now token. cr_jwt_encode cr key kid claims = Inr token \<longrightarrow>
        now < unat (sc_exp claims) \<longrightarrow> cr_jwt_decode cr key now token = Inr (kid, claims))"

section \<open>STS sessions\<close>

definition sts_prefix :: string where
  "sts_prefix = ''HFST''"

definition kid_sep :: char where
  "kid_sep = CHR ''.''"

definition default_kid :: string where
  "default_kid = ''k0''"

record sts_key_id =
  sk_kid :: string
  sk_sid :: string

record session_credentials =
  sn_access_key_id :: string
  sn_secret_access_key :: string
  sn_session_token :: string
  sn_expires_at :: u64

record sts_authority =
  sa_master_keys :: "string btree"
  sa_current_kid :: string
  sa_signing_key :: string

definition kid_is_well_formed :: "string \<Rightarrow> bool" where
  "kid_is_well_formed kid \<longleftrightarrow>
     kid \<noteq> [] \<and> list_all (\<lambda>c. is_alphanumeric c \<or> c = CHR ''-'' \<or> c = CHR ''_'') kid"

definition validate_kid :: "string \<Rightarrow> gateway_error + unit" where
  "validate_kid kid =
     (if kid = [] then Inl (Sts ''sts key id must be non-empty'')
      else if \<not> kid_is_well_formed kid then
        Inl (Sts (''sts key id '' @ debug_str kid @ '' must be ASCII alphanumeric, '-' or '_' (it becomes part of the access-key id HFST<kid>.<sid>)''))
      else Inr ())"

fun check_ring :: "string \<Rightarrow> string btree \<Rightarrow> gateway_error + unit" where
  "check_ring signing_key [] = Inr ()"
| "check_ring signing_key ((kid, key) # rest) =
     (case validate_kid kid of
        Inl e \<Rightarrow> Inl e
      | Inr _ \<Rightarrow>
          if length key < 32 then
            Inl (Sts (''sts keys must be >= 32 bytes (master key '' @ kid @ '' is '' @ nat_digits (length key) @ '')''))
          else if key = signing_key then
            Inl (Sts (''sts master key '' @ kid @ '' and signing_key must differ''))
          else check_ring signing_key rest)"

definition sts_with_key_ring :: "string btree \<Rightarrow> string \<Rightarrow> string \<Rightarrow> gateway_error + sts_authority" where
  "sts_with_key_ring master_keys current_kid signing_key =
     (if master_keys = [] then Inl (Sts ''sts master key ring is empty'')
      else if length signing_key < 32 then Inl (Sts ''sts keys must be >= 32 bytes'')
      else case check_ring signing_key master_keys of
        Inl e \<Rightarrow> Inl e
      | Inr _ \<Rightarrow>
          if map_of master_keys current_kid = None then
            Inl (Sts (''sts current_kid '' @ debug_str current_kid @ '' is not in the master key ring''))
          else Inr \<lparr>sa_master_keys = master_keys, sa_current_kid = current_kid,
                    sa_signing_key = signing_key\<rparr>)"

definition sts_new :: "string \<Rightarrow> string \<Rightarrow> gateway_error + sts_authority" where
  "sts_new master_key signing_key =
     sts_with_key_ring [(default_kid, master_key)] default_kid signing_key"

definition derive_secret :: "crypto \<Rightarrow> sts_authority \<Rightarrow> string \<Rightarrow> string \<Rightarrow> string option" where
  "derive_secret cr a kid sid =
     (case map_of (sa_master_keys a) kid of
        None \<Rightarrow> None
      | Some key \<Rightarrow> Some (cr_hex cr (cr_hmac cr key (kid @ [CHR 0x00] @ sid))))"

definition access_key_id_for :: "string \<Rightarrow> string \<Rightarrow> string" where
  "access_key_id_for kid sid = sts_prefix @ kid @ [kid_sep] @ sid"

definition sts_access_key_id :: "sts_authority \<Rightarrow> string \<Rightarrow> string" where
  "sts_access_key_id a sid = access_key_id_for (sa_current_kid a) sid"

definition is_sts_access_key :: "string \<Rightarrow> bool" where
  "is_sts_access_key akid = starts_with akid sts_prefix"

definition sts_parse_access_key :: "string \<Rightarrow> sts_key_id option" where
  "sts_parse_access_key akid =
     (case strip_prefix akid sts_prefix of
        None \<Rightarrow> None
      | Some rest \<Rightarrow>
          (case split_once kid_sep rest of
             None \<Rightarrow> None
           | Some (kid, sid) \<Rightarrow>
               if kid \<noteq> [] \<and> sid \<noteq> [] then Some \<lparr>sk_kid = kid, sk_sid = sid\<rparr> else None))"

definition sid_from_access_key :: "string \<Rightarrow> string option" where
  "sid_from_access_key akid = map_option sk_sid (sts_parse_access_key akid)"

definition sts_secret_for_access_key :: "crypto \<Rightarrow> sts_authority \<Rightarrow> string \<Rightarrow> string option" where
  "sts_secret_for_access_key cr a akid =
     (case sts_parse_access_key akid of
        None \<Rightarrow> None
      | Some k \<Rightarrow> derive_secret cr a (sk_kid k) (sk_sid k))"

definition sts_mint ::
  "crypto \<Rightarrow> sts_authority \<Rightarrow> string \<Rightarrow> session_claims \<Rightarrow> gateway_error + session_credentials" where
  "sts_mint cr a sid claims =
     (if sid = [] then Inl (Sts ''sid must be non-empty'')
      else if sc_sid claims \<noteq> sid then Inl (Sts ''sid mismatch in claims'')
      else case derive_secret cr a (sa_current_kid a) sid of
        None \<Rightarrow> Inl (Sts ''current_kid is not in the key ring'')
      | Some secret \<Rightarrow>
          (case cr_jwt_encode cr (sa_signing_key a) (Some (sa_current_kid a)) claims of
             Inl e \<Rightarrow> Inl (Sts (''encode session token: '' @ e))
           | Inr token \<Rightarrow>
               Inr \<lparr>sn_access_key_id = sts_access_key_id a sid, sn_secret_access_key = secret,
                    sn_session_token = token, sn_expires_at = sc_exp claims\<rparr>))"

definition verify_session ::
  "crypto \<Rightarrow> sts_authority \<Rightarrow> nat \<Rightarrow> string \<Rightarrow> string \<Rightarrow> gateway_error + session_claims" where
  "verify_session cr a now akid token =
     (case sts_parse_access_key akid of
        None \<Rightarrow> Inl (Sts ''not an sts access key'')
      | Some key \<Rightarrow>
          if map_of (sa_master_keys a) (sk_kid key) = None then
            Inl (Sts (''sts key id '' @ debug_str (sk_kid key) @ '' is not in the key ring (retired?)''))
          else case cr_jwt_decode cr (sa_signing_key a) now token of
            Inl e \<Rightarrow> Inl (Sts (''session token invalid: '' @ e))
          | Inr (header_kid, claims) \<Rightarrow>
              if sc_sid claims \<noteq> sk_sid key then Inl (Sts ''session token not bound to access key'')
              else if header_kid \<noteq> Some (sk_kid key) then
                Inl (Sts ''session token was minted under a different sts key id'')
              else Inr claims)"

section \<open>Derived keys\<close>

definition derived_prefix :: string where
  "derived_prefix = ''HFSA''"

definition field_sep :: char where
  "field_sep = CHR ''.''"

definition payload_version :: char where
  "payload_version = CHR 0x01"

definition mac_len :: nat where
  "mac_len = 16"

definition max_access_key_id_len :: nat where
  "max_access_key_id_len = 1024"

definition max_tenant_len :: nat where
  "max_tenant_len = 255"

definition domain_id :: string where
  "domain_id = ''s0-derived-key-id-v1''"

definition domain_secret :: string where
  "domain_secret = ''s0-derived-key-secret-v1''"

record derived_key_id =
  di_kid :: string
  di_payload :: string
  di_mac :: string

record derived_principal =
  dp_tenant :: string
  dp_sub :: string
  dp_principal_type :: principal_type
  dp_key_epoch :: u32

record derived_key_credential =
  dc_access_key_id :: string
  dc_secret_access_key :: string

record derived_key_authority =
  da_master_keys :: "string btree"
  da_current_kid :: string

definition validate_derived_kid :: "string \<Rightarrow> gateway_error + unit" where
  "validate_derived_kid kid =
     (if kid_is_well_formed kid then Inr ()
      else Inl (Credentials (''derived-key id '' @ debug_str kid @ '' must be non-empty ASCII alphanumeric, '-' or '_' (it becomes part of the access-key id HFSA<kid>.<payload>.<mac>)'')))"

fun check_derived_ring :: "string btree \<Rightarrow> gateway_error + unit" where
  "check_derived_ring [] = Inr ()"
| "check_derived_ring ((kid, key) # rest) =
     (case validate_derived_kid kid of
        Inl e \<Rightarrow> Inl e
      | Inr _ \<Rightarrow>
          if length key < 32 then
            Inl (Credentials (''derived-key master keys must be >= 32 bytes (key '' @ kid @ '' is '' @ nat_digits (length key) @ '')''))
          else check_derived_ring rest)"

definition derived_with_key_ring :: "string btree \<Rightarrow> string \<Rightarrow> gateway_error + derived_key_authority" where
  "derived_with_key_ring master_keys current_kid =
     (if master_keys = [] then Inl (Credentials ''derived-key master key ring is empty'')
      else case check_derived_ring master_keys of
        Inl e \<Rightarrow> Inl e
      | Inr _ \<Rightarrow>
          if map_of master_keys current_kid = None then
            Inl (Credentials (''derived_keys current_kid '' @ debug_str current_kid @ '' is not in the master key ring''))
          else Inr \<lparr>da_master_keys = master_keys, da_current_kid = current_kid\<rparr>)"

definition is_derived_access_key :: "string \<Rightarrow> bool" where
  "is_derived_access_key akid = starts_with akid derived_prefix"

definition derived_parse_access_key :: "string \<Rightarrow> derived_key_id option" where
  "derived_parse_access_key akid =
     (if length akid > max_access_key_id_len then None
      else case strip_prefix akid derived_prefix of
        None \<Rightarrow> None
      | Some rest \<Rightarrow>
          (case rsplit_once field_sep rest of
             None \<Rightarrow> None
           | Some (head, mac) \<Rightarrow>
               (case split_once field_sep head of
                  None \<Rightarrow> None
                | Some (kid, payload) \<Rightarrow>
                    if kid \<noteq> [] \<and> payload \<noteq> [] \<and> mac \<noteq> []
                    then Some \<lparr>di_kid = kid, di_payload = payload, di_mac = mac\<rparr> else None)))"

definition id_mac :: "crypto \<Rightarrow> string \<Rightarrow> string \<Rightarrow> string \<Rightarrow> string" where
  "id_mac cr key kid payload =
     cr_hmac cr key (domain_id @ [CHR 0x00] @ kid @ [CHR 0x00] @ payload)"

definition secret_mac :: "crypto \<Rightarrow> string \<Rightarrow> string \<Rightarrow> string \<Rightarrow> string" where
  "secret_mac cr key kid akid =
     cr_hmac cr key (domain_secret @ [CHR 0x00] @ kid @ [CHR 0x00] @ akid)"

definition to_be_bytes :: "u32 \<Rightarrow> string" where
  "to_be_bytes e =
     [char_of (unat e div 2 ^ 24), char_of (unat e div 2 ^ 16 mod 256),
      char_of (unat e div 2 ^ 8 mod 256), char_of (unat e mod 256)]"

definition from_be_bytes :: "char \<Rightarrow> char \<Rightarrow> char \<Rightarrow> char \<Rightarrow> u32" where
  "from_be_bytes a b c d =
     of_nat (code_of a * 2 ^ 24 + code_of b * 2 ^ 16 + code_of c * 2 ^ 8 + code_of d)"

definition typ_byte :: "principal_type \<Rightarrow> char" where
  "typ_byte t = (case t of User \<Rightarrow> CHR 0x00 | ServiceAccount \<Rightarrow> CHR 0x01)"

definition encode_payload :: "crypto \<Rightarrow> derived_principal \<Rightarrow> gateway_error + string" where
  "encode_payload cr p =
     (if dp_tenant p = [] then Inl (Credentials ''derived key: `tenant` must be non-empty'')
      else if length (dp_tenant p) > max_tenant_len then
        Inl (Credentials (''derived key: `tenant` is '' @ nat_digits (length (dp_tenant p)) @ '' bytes, over the 255-byte cap the one-byte length prefix allows''))
      else if dp_sub p = [] then Inl (Credentials ''derived key: `sub` must be non-empty'')
      else Inr (cr_b64_encode cr
        ([payload_version, typ_byte (dp_principal_type p)] @ to_be_bytes (dp_key_epoch p) @
         [char_of (length (dp_tenant p))] @ dp_tenant p @ dp_sub p)))"

definition decode_payload :: "crypto \<Rightarrow> string \<Rightarrow> derived_principal option" where
  "decode_payload cr payload =
     (case cr_b64_decode cr payload of
        None \<Rightarrow> None
      | Some bytes \<Rightarrow>
          if length bytes < 7 then None
          else if bytes ! 0 \<noteq> payload_version then None
          else
            (case (if bytes ! 1 = CHR 0x00 then Some User
                   else if bytes ! 1 = CHR 0x01 then Some ServiceAccount else None) of
               None \<Rightarrow> None
             | Some typ \<Rightarrow>
                 let epoch = from_be_bytes (bytes ! 2) (bytes ! 3) (bytes ! 4) (bytes ! 5);
                     tenant_len = code_of (bytes ! 6);
                     tenant_end = 7 + tenant_len
                 in if length bytes \<le> tenant_end then None
                    else
                      (case (from_utf8 (take tenant_len (drop 7 bytes)), from_utf8 (drop tenant_end bytes)) of
                         (Some tenant, Some sub) \<Rightarrow>
                           if tenant = [] \<or> sub = [] then None
                           else Some \<lparr>dp_tenant = tenant, dp_sub = sub, dp_principal_type = typ,
                                      dp_key_epoch = epoch\<rparr>
                       | _ \<Rightarrow> None)))"

definition derived_verify :: "crypto \<Rightarrow> derived_key_authority \<Rightarrow> string \<Rightarrow> derived_principal option" where
  "derived_verify cr a akid =
     (case derived_parse_access_key akid of
        None \<Rightarrow> None
      | Some k \<Rightarrow>
          (case map_of (da_master_keys a) (di_kid k) of
             None \<Rightarrow> None
           | Some key \<Rightarrow>
               (case cr_b64_decode cr (di_mac k) of
                  None \<Rightarrow> None
                | Some tag \<Rightarrow>
                    if length tag \<noteq> mac_len then None
                    else if take (length tag) (id_mac cr key (di_kid k) (di_payload k)) \<noteq> tag then None
                    else decode_payload cr (di_payload k))))"

definition derived_secret_for_access_key :: "crypto \<Rightarrow> derived_key_authority \<Rightarrow> string \<Rightarrow> string option" where
  "derived_secret_for_access_key cr a akid =
     (case derived_parse_access_key akid of
        None \<Rightarrow> None
      | Some k \<Rightarrow>
          (case derived_verify cr a akid of
             None \<Rightarrow> None
           | Some _ \<Rightarrow>
               (case map_of (da_master_keys a) (di_kid k) of
                  None \<Rightarrow> None
                | Some key \<Rightarrow> Some (cr_hex cr (secret_mac cr key (di_kid k) akid)))))"

definition derived_mint ::
  "crypto \<Rightarrow> derived_key_authority \<Rightarrow> derived_principal \<Rightarrow> gateway_error + derived_key_credential" where
  "derived_mint cr a p =
     (case encode_payload cr p of
        Inl e \<Rightarrow> Inl e
      | Inr payload \<Rightarrow>
          (case map_of (da_master_keys a) (da_current_kid a) of
             None \<Rightarrow> Inl (Credentials ''current_kid is not in the ring'')
           | Some key \<Rightarrow>
               let mac = id_mac cr key (da_current_kid a) payload;
                   akid = derived_prefix @ da_current_kid a @ [field_sep] @ payload @ [field_sep]
                          @ cr_b64_encode cr (take mac_len mac)
               in if length akid > max_access_key_id_len then
                    Inl (Credentials (''derived access-key id would be '' @ nat_digits (length akid) @
                      '' characters, over the 1024 cap; shorten `sub` (currently '' @
                      nat_digits (length (dp_sub p)) @ '' bytes) '' @ [CHR 0xE2, CHR 0x80, CHR 0x94] @
                      '' it is never truncated, because two principals sharing a truncated id would share a credential''))
                  else Inr \<lparr>dc_access_key_id = akid,
                            dc_secret_access_key = cr_hex cr (secret_mac cr key (da_current_kid a) akid)\<rparr>))"

section \<open>Static credentials\<close>

record static_credential =
  st_secret_access_key :: string
  st_principal_sub :: string
  st_tenant :: string
  st_organization_id :: string
  st_groups :: "string list"

type_synonym static_credentials = "string \<rightharpoonup> static_credential"

record static_credential_store =
  scs_by_access_key :: static_credentials

definition store_replace :: "static_credentials \<Rightarrow> static_credential_store \<Rightarrow> static_credential_store" where
  "store_replace creds s = s\<lparr>scs_by_access_key := creds\<rparr>"

definition store_insert :: "string \<Rightarrow> static_credential \<Rightarrow> static_credential_store \<Rightarrow> static_credential_store" where
  "store_insert k c s = s\<lparr>scs_by_access_key := (scs_by_access_key s)(k \<mapsto> c)\<rparr>"

definition store_secret :: "static_credential_store \<Rightarrow> string \<Rightarrow> string option" where
  "store_secret s akid = map_option st_secret_access_key (scs_by_access_key s akid)"

definition store_resolve :: "static_credential_store \<Rightarrow> string \<Rightarrow> resolved_principal option" where
  "store_resolve s akid =
     map_option (\<lambda>c. \<lparr>rp_sub = st_principal_sub c, rp_principal_type = ServiceAccount,
        rp_groups = st_groups c, rp_tenant = st_tenant c, rp_organization_id = st_organization_id c\<rparr>)
       (scs_by_access_key s akid)"

section \<open>Admission and minting of derived keys\<close>

text \<open>The tenant directory and the key-epoch floor are what the trait objects answer at that moment.\<close>

record derived_keys =
  dk_authority :: derived_key_authority
  dk_tenants :: "string \<Rightarrow> string option"
  dk_epochs :: "string \<Rightarrow> string \<Rightarrow> u32 option"

definition derived_admit :: "crypto \<Rightarrow> derived_keys \<Rightarrow> string \<Rightarrow> (derived_principal \<times> string) option" where
  "derived_admit cr d akid =
     (case derived_verify cr (dk_authority d) akid of
        None \<Rightarrow> None
      | Some p \<Rightarrow>
          (case dk_epochs d (dp_tenant p) (principal_subject_key (dp_principal_type p) (dp_sub p)) of
             None \<Rightarrow> None
           | Some floor_epoch \<Rightarrow>
               if dp_key_epoch p < floor_epoch then None
               else case dk_tenants d (dp_tenant p) of
                 None \<Rightarrow> None
               | Some org \<Rightarrow> Some (p, org)))"

definition derived_secret :: "crypto \<Rightarrow> derived_keys \<Rightarrow> string \<Rightarrow> string option" where
  "derived_secret cr d akid =
     (case derived_admit cr d akid of
        None \<Rightarrow> None
      | Some _ \<Rightarrow> derived_secret_for_access_key cr (dk_authority d) akid)"

definition derived_resolve :: "crypto \<Rightarrow> derived_keys \<Rightarrow> string \<Rightarrow> resolved_principal option" where
  "derived_resolve cr d akid =
     (case derived_admit cr d akid of
        None \<Rightarrow> None
      | Some (p, org) \<Rightarrow>
          Some \<lparr>rp_sub = dp_sub p, rp_principal_type = dp_principal_type p, rp_groups = [],
                rp_tenant = dp_tenant p, rp_organization_id = org\<rparr>)"

record minted_derived_key =
  mk_credential :: derived_key_credential
  mk_key_epoch :: u32
  mk_kid :: string

datatype derived_mint_refusal =
    EmptySubject
  | UnroutableTenant string
  | OrganizationMismatch
  | NotEnabledForTenant string
  | EpochBelowFloor u32 u32
  | MintFailed string

fun derived_mint_refusal_message :: "derived_mint_refusal \<Rightarrow> string" where
  "derived_mint_refusal_message EmptySubject = ''sub must be non-empty''"
| "derived_mint_refusal_message (UnroutableTenant t) =
     ''tenant '' @ debug_str t @ '' is not routable on this gateway''"
| "derived_mint_refusal_message OrganizationMismatch =
     ''organization_id disagrees with this gateway's tenant binding''"
| "derived_mint_refusal_message (NotEnabledForTenant t) =
     ''long-lived keys are not enabled for tenant '' @ debug_str t @
     '': the policy bundle in force publishes no `s3_key_epoch` for it, so a key minted now would be refused on first use''"
| "derived_mint_refusal_message (EpochBelowFloor requested floor_epoch) =
     ''requested key_epoch '' @ nat_digits (unat requested) @ '' is below the revocation floor '' @
     nat_digits (unat floor_epoch) @
     '' in force for this principal; a key minted there would be refused on first use''"
| "derived_mint_refusal_message (MintFailed why) = ''mint failed: '' @ why"

definition derived_keys_mint ::
  "crypto \<Rightarrow> derived_keys \<Rightarrow> string \<Rightarrow> string \<Rightarrow> principal_type \<Rightarrow> string \<Rightarrow> u32 option \<Rightarrow>
   derived_mint_refusal + minted_derived_key" where
  "derived_keys_mint cr d tenant organization_id typ sub requested_epoch =
     (if trim sub = [] then Inl EmptySubject
      else case dk_tenants d tenant of
        None \<Rightarrow> Inl (UnroutableTenant tenant)
      | Some bound \<Rightarrow>
          if bound \<noteq> organization_id then Inl OrganizationMismatch
          else case dk_epochs d tenant (principal_subject_key typ sub) of
            None \<Rightarrow> Inl (NotEnabledForTenant tenant)
          | Some floor_epoch \<Rightarrow>
              (case (case requested_epoch of
                       None \<Rightarrow> Inr floor_epoch
                     | Some requested \<Rightarrow>
                         if requested \<ge> floor_epoch then Inr requested
                         else Inl (EpochBelowFloor requested floor_epoch)) of
                 Inl e \<Rightarrow> Inl e
               | Inr key_epoch \<Rightarrow>
                   (case derived_mint cr (dk_authority d)
                           \<lparr>dp_tenant = tenant, dp_sub = sub, dp_principal_type = typ, dp_key_epoch = key_epoch\<rparr> of
                      Inl e \<Rightarrow> Inl (MintFailed (gateway_error_display e))
                    | Inr credential \<Rightarrow>
                        Inr \<lparr>mk_credential = credential, mk_key_epoch = key_epoch,
                             mk_kid = da_current_kid (dk_authority d)\<rparr>)))"

section \<open>Identity\<close>

record identity =
  id_sts :: sts_authority
  id_creds :: static_credential_store
  id_derived :: "derived_keys option"

definition identity_secret_key :: "crypto \<Rightarrow> identity \<Rightarrow> string \<Rightarrow> string option" where
  "identity_secret_key cr i akid =
     (if is_sts_access_key akid then sts_secret_for_access_key cr (id_sts i) akid
      else if is_derived_access_key akid then
        (case id_derived i of None \<Rightarrow> None | Some d \<Rightarrow> derived_secret cr d akid)
      else store_secret (id_creds i) akid)"

definition identity_resolve ::
  "crypto \<Rightarrow> identity \<Rightarrow> nat \<Rightarrow> string \<Rightarrow> string option \<Rightarrow> gateway_error + resolved_principal" where
  "identity_resolve cr i now akid security_token =
     (if is_sts_access_key akid then
        (case security_token of
           None \<Rightarrow> Inl (Sts ''sts credential without session token'')
         | Some token \<Rightarrow>
             (case verify_session cr (id_sts i) now akid token of
                Inl e \<Rightarrow> Inl e
              | Inr claims \<Rightarrow>
                  Inr \<lparr>rp_sub = sc_sub claims, rp_principal_type = sc_principal_type claims,
                       rp_groups = sc_groups claims, rp_tenant = sc_tenant claims,
                       rp_organization_id = sc_org claims\<rparr>))
      else if is_derived_access_key akid then
        (case Option.bind (id_derived i) (\<lambda>d. derived_resolve cr d akid) of
           None \<Rightarrow> Inl (Credentials (''unknown access key '' @ akid))
         | Some p \<Rightarrow> Inr p)
      else
        (case store_resolve (id_creds i) akid of
           None \<Rightarrow> Inl (Credentials (''unknown access key '' @ akid))
         | Some p \<Rightarrow> Inr p))"

definition get_secret_key :: "crypto \<Rightarrow> identity \<Rightarrow> string \<Rightarrow> s3_error + string" where
  "get_secret_key cr i akid =
     (case identity_secret_key cr i akid of
        Some secret \<Rightarrow> Inr secret
      | None \<Rightarrow> Inl (s3_error_of ''InvalidAccessKeyId'' ''unknown access key''))"

text \<open>The session token a request carries, in its header or its presigned query.\<close>

fun find_query_param :: "string \<Rightarrow> string list \<Rightarrow> string option" where
  "find_query_param p [] = None"
| "find_query_param p (x # xs) =
     (case strip_prefix x p of None \<Rightarrow> find_query_param p xs | Some v \<Rightarrow> Some v)"

definition session_token :: "header_map \<Rightarrow> string option \<Rightarrow> string option" where
  "session_token headers query =
     (case Option.bind (get_header headers ''x-amz-security-token'') to_str of
        Some v \<Rightarrow> Some v
      | None \<Rightarrow>
          (case query of
             None \<Rightarrow> None
           | Some q \<Rightarrow>
               map_option percent_decode (find_query_param ''X-Amz-Security-Token='' (split_on CHR ''&'' q))))"

section \<open>Lemmas\<close>

lemma well_formed_no_dot: "kid_is_well_formed kid \<Longrightarrow> CHR ''.'' \<notin> set kid"
  by (auto simp: kid_is_well_formed_def list_all_iff is_alphanumeric_def is_alpha_def is_upper_def
      is_lower_def is_digit_def)

lemma sts_parse_iff:
  "sts_parse_access_key akid = Some k \<longleftrightarrow>
     akid = access_key_id_for (sk_kid k) (sk_sid k) \<and> CHR ''.'' \<notin> set (sk_kid k) \<and> sk_kid k \<noteq> [] \<and> sk_sid k \<noteq> []"
proof
  show "akid = access_key_id_for (sk_kid k) (sk_sid k) \<and> CHR ''.'' \<notin> set (sk_kid k) \<and> sk_kid k \<noteq> [] \<and> sk_sid k \<noteq> []"
    if "sts_parse_access_key akid = Some k"
    using that by (auto simp: sts_parse_access_key_def access_key_id_for_def kid_sep_def strip_prefix_Some
        split_once_Some split: option.splits if_splits)
  show "sts_parse_access_key akid = Some k"
    if "akid = access_key_id_for (sk_kid k) (sk_sid k) \<and> CHR ''.'' \<notin> set (sk_kid k) \<and> sk_kid k \<noteq> [] \<and> sk_sid k \<noteq> []"
    using that by (simp add: sts_parse_access_key_def access_key_id_for_def kid_sep_def)
qed

lemma check_ring_kids: "check_ring sk ring = Inr () \<Longrightarrow> (kid, key) \<in> set ring \<Longrightarrow> kid_is_well_formed kid"
  by (induction sk ring rule: check_ring.induct) (auto simp: validate_kid_def split: if_splits)

lemma sts_with_key_ring_ok:
  assumes "sts_with_key_ring ring cur sk = Inr a"
  shows "sa_master_keys a = ring \<and> sa_current_kid a = cur \<and> sa_signing_key a = sk \<and>
    map_of ring cur \<noteq> None \<and> (\<forall>kid. map_of ring kid \<noteq> None \<longrightarrow> kid_is_well_formed kid)"
  using assms check_ring_kids [of sk ring]
  by (auto simp: sts_with_key_ring_def split: if_splits sum.splits dest!: map_of_SomeD)

lemma check_derived_ring_kids: "check_derived_ring ring = Inr () \<Longrightarrow> (kid, key) \<in> set ring \<Longrightarrow> kid_is_well_formed kid"
  by (induction ring rule: check_derived_ring.induct) (auto simp: validate_derived_kid_def split: if_splits)

lemma derived_with_key_ring_ok:
  assumes "derived_with_key_ring ring cur = Inr a"
  shows "da_master_keys a = ring \<and> da_current_kid a = cur \<and> map_of ring cur \<noteq> None \<and> kid_is_well_formed cur"
  using assms check_derived_ring_kids [of ring]
  by (auto simp: derived_with_key_ring_def split: if_splits sum.splits dest!: map_of_SomeD)

lemma be_bytes_nat:
  fixes n :: nat
  assumes "n < 2 ^ 32"
  shows "n div 2 ^ 24 * 2 ^ 24 + n div 2 ^ 16 mod 256 * 2 ^ 16 + n div 2 ^ 8 mod 256 * 2 ^ 8 + n mod 256 = n"
proof -
  have a: "n div 2 ^ 8 = n div 2 ^ 16 * 256 + n div 2 ^ 8 mod 256"
    using div_mult_mod_eq [of "n div 2 ^ 8" 256] by (simp add: div_mult2_eq [symmetric])
  have b: "n div 2 ^ 16 = n div 2 ^ 24 * 256 + n div 2 ^ 16 mod 256"
    using div_mult_mod_eq [of "n div 2 ^ 16" 256] by (simp add: div_mult2_eq [symmetric])
  have c: "n = n div 2 ^ 8 * 256 + n mod 256"
    using div_mult_mod_eq [of n 256] by simp
  have "w * 2 ^ 24 + x * 2 ^ 16 + y * 2 ^ 8 + z = m" if "h = g * 256 + y" "g = w * 256 + x" "m = h * 256 + z"
    for w x y z h g m :: nat
    using that by simp
  from this [OF a b c] show ?thesis .
qed

lemma from_be_to_be:
  "to_be_bytes e = [a, b, c, d] \<Longrightarrow> from_be_bytes a b c d = e"
proof -
  assume "to_be_bytes e = [a, b, c, d]"
  then have abcd: "a = char_of (unat e div 2 ^ 24)" "b = char_of (unat e div 2 ^ 16 mod 256)"
      "c = char_of (unat e div 2 ^ 8 mod 256)" "d = char_of (unat e mod 256)"
    by (simp_all add: to_be_bytes_def)
  have e: "unat e < 2 ^ 32" using unsigned_less [of e] by simp
  then have "unat e div 2 ^ 24 < 256" by (simp add: less_mult_imp_div_less)
  then have "from_be_bytes a b c d = of_nat (unat e div 2 ^ 24 * 2 ^ 24 + unat e div 2 ^ 16 mod 256 * 2 ^ 16
      + unat e div 2 ^ 8 mod 256 * 2 ^ 8 + unat e mod 256)"
    unfolding from_be_bytes_def abcd by (simp add: of_char_of)
  then show ?thesis by (simp only: be_bytes_nat [OF e]) simp
qed

lemma length_to_be_bytes: "length (to_be_bytes e) = 4"
  by (simp add: to_be_bytes_def)

lemma decode_encode_payload:
  assumes "crypto_ok cr" "encode_payload cr p = Inr payload" "valid_utf8 (dp_tenant p)" "valid_utf8 (dp_sub p)"
  shows "decode_payload cr payload = Some p \<and> payload \<noteq> [] \<and> CHR ''.'' \<notin> set payload"
proof -
  obtain a b c d where be: "to_be_bytes (dp_key_epoch p) = [a, b, c, d]"
    by (simp add: to_be_bytes_def)
  define bytes where "bytes = payload_version # typ_byte (dp_principal_type p) # a # b # c # d #
    char_of (length (dp_tenant p)) # dp_tenant p @ dp_sub p"
  have t: "dp_tenant p \<noteq> []" "length (dp_tenant p) \<le> 255" "dp_sub p \<noteq> []" "payload = cr_b64_encode cr bytes"
    using assms(2) be by (auto simp: encode_payload_def max_tenant_len_def bytes_def split: if_splits)
  have dec: "cr_b64_decode cr payload = Some bytes" "payload \<noteq> []" "CHR ''.'' \<notin> set payload"
    using assms(1) by (auto simp: crypto_ok_def t(4) bytes_def)
  have len: "code_of (bytes ! 6) = length (dp_tenant p)"
    using t(2) by (simp add: bytes_def)
  have parts: "take (length (dp_tenant p)) (drop 7 bytes) = dp_tenant p"
      "drop (7 + length (dp_tenant p)) bytes = dp_sub p"
      "\<not> length bytes \<le> 7 + length (dp_tenant p)" "\<not> length bytes < 7"
    using t(3) by (simp_all add: bytes_def drop_Cons')
  have "decode_payload cr payload = Some p"
    unfolding decode_payload_def dec(1) option.case Let_def len parts
    using from_be_to_be [OF be] t assms(3,4)
    by (cases p; cases "dp_principal_type p") (simp_all add: bytes_def parts from_utf8_def typ_byte_def)
  with dec show ?thesis by simp
qed

lemma derived_parse_minted:
  assumes "kid_is_well_formed kid" "payload \<noteq> []" "CHR ''.'' \<notin> set payload" "mac \<noteq> []" "CHR ''.'' \<notin> set mac"
    "length (derived_prefix @ kid @ [field_sep] @ payload @ [field_sep] @ mac) \<le> max_access_key_id_len"
  shows "derived_parse_access_key (derived_prefix @ kid @ [field_sep] @ payload @ [field_sep] @ mac) =
    Some \<lparr>di_kid = kid, di_payload = payload, di_mac = mac\<rparr>"
proof -
  have "rsplit_once CHR ''.'' ((kid @ CHR ''.'' # payload) @ CHR ''.'' # mac) = Some (kid @ CHR ''.'' # payload, mac)"
    using assms(5) by (rule rsplit_once_append)
  moreover have "split_once CHR ''.'' (kid @ CHR ''.'' # payload) = Some (kid, payload)"
    using well_formed_no_dot [OF assms(1)] by simp
  ultimately show ?thesis
    using assms by (simp add: derived_parse_access_key_def field_sep_def kid_is_well_formed_def)
qed

lemma derived_mint_verifies:
  assumes "crypto_ok cr" "derived_with_key_ring ring cur = Inr a" "valid_utf8 (dp_tenant p)" "valid_utf8 (dp_sub p)"
    "derived_mint cr a p = Inr c"
  shows "derived_verify cr a (dc_access_key_id c) = Some p \<and>
    derived_secret_for_access_key cr a (dc_access_key_id c) = Some (dc_secret_access_key c)"
proof -
  note ring = derived_with_key_ring_ok [OF assms(2)]
  then obtain key where key: "map_of (da_master_keys a) (da_current_kid a) = Some key" by auto
  obtain payload where pl: "encode_payload cr p = Inr payload"
    using assms(5) by (cases "encode_payload cr p") (auto simp: derived_mint_def)
  define mac where "mac = cr_b64_encode cr (take mac_len (id_mac cr key (da_current_kid a) payload))"
  define akid where "akid = derived_prefix @ da_current_kid a @ [field_sep] @ payload @ [field_sep] @ mac"
  have c: "dc_access_key_id c = akid" "length akid \<le> max_access_key_id_len"
      "dc_secret_access_key c = cr_hex cr (secret_mac cr key (da_current_kid a) akid)"
    using assms(5) pl key by (auto simp: derived_mint_def Let_def akid_def mac_def split: if_splits)
  have dp: "decode_payload cr payload = Some p" "payload \<noteq> []" "CHR ''.'' \<notin> set payload"
    using decode_encode_payload [OF assms(1) pl assms(3,4)] by auto
  have l: "length (id_mac cr key (da_current_kid a) payload) = 32"
    using assms(1) by (simp add: crypto_ok_def id_mac_def)
  then have "take mac_len (id_mac cr key (da_current_kid a) payload) \<noteq> []"
    by (auto simp: mac_len_def)
  then have m: "cr_b64_decode cr mac = Some (take mac_len (id_mac cr key (da_current_kid a) payload))"
      "mac \<noteq> []" "CHR ''.'' \<notin> set mac"
    using assms(1) by (auto simp: crypto_ok_def mac_def)
  have parse: "derived_parse_access_key akid = Some \<lparr>di_kid = da_current_kid a, di_payload = payload, di_mac = mac\<rparr>"
    unfolding akid_def using ring dp m c(2) by (intro derived_parse_minted) (simp_all add: akid_def)
  have "derived_verify cr a akid = Some p"
    using parse key m(1) dp(1) l by (simp add: derived_verify_def mac_len_def)
  with parse key c show ?thesis by (simp add: derived_secret_for_access_key_def)
qed

lemma derived_mint_prefix: "derived_mint cr a p = Inr c \<Longrightarrow> prefix derived_prefix (dc_access_key_id c)"
  by (auto simp: derived_mint_def Let_def split: sum.splits option.splits if_splits)

lemma derived_not_sts: "is_derived_access_key akid \<Longrightarrow> \<not> is_sts_access_key akid"
  by (auto simp: is_derived_access_key_def is_sts_access_key_def starts_with_def derived_prefix_def sts_prefix_def prefix_def)

section \<open>Revocation through the key-epoch floor\<close>

text \<open>The trait \<open>KeyEpochFloor\<close>: a subject's floor is never below its tenant's epoch, and a tenant without an
  epoch has no floor at all. Whatever answers it, a key below the tenant's epoch is refused.\<close>

locale key_epochs =
  fixes floor_for :: "'s \<Rightarrow> string \<Rightarrow> string \<Rightarrow> u32 option"
    and tenant_epoch :: "'s \<Rightarrow> string \<Rightarrow> u32 option"
  assumes absent: "tenant_epoch s t = None \<Longrightarrow> floor_for s t k = None"
    and raises: "tenant_epoch s t = Some e \<Longrightarrow> floor_for s t k = Some f \<Longrightarrow> e \<le> f"
begin

lemma revoked:
  assumes "derived_verify cr (dk_authority d) akid = Some p" "dk_epochs d = floor_for s"
    "case tenant_epoch s (dp_tenant p) of None \<Rightarrow> True | Some e \<Rightarrow> dp_key_epoch p < e"
  shows "derived_admit cr d akid = None"
proof (cases "tenant_epoch s (dp_tenant p)")
  case None
  with assms absent show ?thesis by (simp add: derived_admit_def)
next
  case (Some e)
  with assms raises [OF Some] show ?thesis
    by (fastforce simp: derived_admit_def split: option.splits)
qed

end

definition store_tenant_epoch :: "bundle_store \<Rightarrow> string \<Rightarrow> u32 option" where
  "store_tenant_epoch s tenant =
     (if tenant = [] then None
      else Option.bind (Option.bind (Option.bind (jget ''tenants'' (b_data (bst_current s))) (jget tenant)) (jget ''s3_key_epoch'')) as_epoch)"

interpretation bundle_epochs: key_epochs store_key_epoch_floor store_tenant_epoch
proof (unfold_locales, goal_cases)
  case (1 s t k)
  then show ?case
    by (cases "Option.bind (jget ''tenants'' (b_data (bst_current s))) (jget t)")
      (auto simp: store_key_epoch_floor_def store_tenant_epoch_def bundle_key_epoch_floor_def split: if_splits)
next
  case (2 s t e k f)
  then show ?case
    by (cases "Option.bind (jget ''tenants'' (b_data (bst_current s))) (jget t)")
      (auto simp: store_key_epoch_floor_def store_tenant_epoch_def bundle_key_epoch_floor_def Let_def split: if_splits)
qed

section \<open>Properties\<close>

subsection \<open>A concrete set of primitives for the witnesses\<close>

fun demo_b64_encode :: "string \<Rightarrow> string" where
  "demo_b64_encode [] = []"
| "demo_b64_encode (c # cs) =
     (if c = CHR ''.'' then ''~1'' else if c = CHR ''~'' then ''~0'' else [c]) @ demo_b64_encode cs"

fun demo_b64_decode :: "string \<Rightarrow> string" where
  "demo_b64_decode [] = []"
| "demo_b64_decode [c] = [c]"
| "demo_b64_decode (c # d # cs) =
     (if c = CHR ''~'' then (if d = CHR ''1'' then CHR ''.'' else CHR ''~'') # demo_b64_decode cs
      else c # demo_b64_decode (d # cs))"

lemma demo_decode_plain: "c \<noteq> CHR ''~'' \<Longrightarrow> demo_b64_decode (c # cs) = c # demo_b64_decode cs"
  by (cases cs) simp_all

lemma demo_b64_roundtrip: "demo_b64_decode (demo_b64_encode x) = x"
  by (induction x) (auto simp: demo_decode_plain)

lemma demo_b64_no_dot: "CHR ''.'' \<notin> set (demo_b64_encode x)"
  by (induction x) auto

definition demo_claims :: session_claims where
  "demo_claims = \<lparr>sc_sub = ''u1'', sc_principal_type = User, sc_groups = [''g''], sc_tenant = ''acme'',
     sc_org = ''org1'', sc_sid = ''s1'', sc_exp = 100\<rparr>"

definition demo_crypto :: crypto where
  "demo_crypto = \<lparr>cr_hmac = \<lambda>k m. take 32 (k @ replicate 32 CHR ''m''), cr_hex = \<lambda>x. x,
     cr_b64_encode = demo_b64_encode, cr_b64_decode = \<lambda>x. Some (demo_b64_decode x),
     cr_jwt_encode = \<lambda>key kid claims.
       if kid = Some ''v1'' \<and> claims = demo_claims then Inr ''tok'' else Inl ''unsupported'',
     cr_jwt_decode = \<lambda>key now token.
       if token = ''tok'' \<and> now < 100 then Inr (Some ''v1'', demo_claims) else Inl ''invalid''\<rparr>"

lemma demo_crypto_ok: "crypto_ok demo_crypto"
  by (auto simp: crypto_ok_def demo_crypto_def demo_b64_roundtrip demo_b64_no_dot demo_claims_def
      neq_Nil_conv)

definition demo_key :: string where
  "demo_key = ''0123456789abcdef0123456789abcdef''"

definition demo_signing_key :: string where
  "demo_signing_key = ''fedcba9876543210fedcba9876543210''"

subsection \<open>Session credentials\<close>

text \<open>The session access-key id \<open>HFST<kid>.<sid>\<close> is unambiguous. For a key of a ring the authority accepted
  and a non-empty session id, printing and then parsing gives both back, and every id the parser accepts is
  the printed form of what it parsed: no two pairs share an id, and no id has two readings.\<close>
theorem sts_key_id_roundtrip:
  assumes "sts_with_key_ring ring cur sk = Inr a" "map_of ring kid \<noteq> None" "sid \<noteq> []"
  shows "sts_parse_access_key (access_key_id_for kid sid) = Some \<lparr>sk_kid = kid, sk_sid = sid\<rparr> \<and>
    (sts_parse_access_key akid = Some k \<longrightarrow> akid = access_key_id_for (sk_kid k) (sk_sid k))"
  using sts_with_key_ring_ok [OF assms(1)] assms(2,3) well_formed_no_dot [of kid]
  by (auto simp: sts_parse_iff kid_is_well_formed_def)

theorem sts_key_id_roundtrip_witness:
  "sts_parse_access_key (access_key_id_for ''v1'' ''a.b'') = Some \<lparr>sk_kid = ''v1'', sk_sid = ''a.b''\<rparr>"
proof -
  have "sts_with_key_ring [(''v1'', demo_key)] ''v1'' demo_signing_key =
      Inr \<lparr>sa_master_keys = [(''v1'', demo_key)], sa_current_kid = ''v1'', sa_signing_key = demo_signing_key\<rparr>"
    by code_simp
  from sts_key_id_roundtrip [OF this, of "''v1''" "''a.b''"] show ?thesis by simp
qed

text \<open>What the session authority mints, the gateway accepts. A credential minted by an authority with an
  accepted ring resolves, until its expiry, to exactly the principal its claims describe, and the secret the
  signature check derives from the access-key id is the secret the client was given.\<close>
theorem sts_mint_verifies:
  assumes "crypto_ok cr" "sts_with_key_ring ring cur sk = Inr (id_sts i)"
    "sts_mint cr (id_sts i) sid claims = Inr c" "now < unat (sn_expires_at c)"
  shows "identity_resolve cr i now (sn_access_key_id c) (Some (sn_session_token c)) =
      Inr \<lparr>rp_sub = sc_sub claims, rp_principal_type = sc_principal_type claims, rp_groups = sc_groups claims,
           rp_tenant = sc_tenant claims, rp_organization_id = sc_org claims\<rparr> \<and>
    identity_secret_key cr i (sn_access_key_id c) = Some (sn_secret_access_key c)"
proof -
  let ?a = "id_sts i"
  note ring = sts_with_key_ring_ok [OF assms(2)]
  have c: "sid \<noteq> []" "sc_sid claims = sid" "sn_access_key_id c = access_key_id_for (sa_current_kid ?a) sid"
      "derive_secret cr ?a (sa_current_kid ?a) sid = Some (sn_secret_access_key c)" "sn_expires_at c = sc_exp claims"
      "cr_jwt_encode cr (sa_signing_key ?a) (Some (sa_current_kid ?a)) claims = Inr (sn_session_token c)"
    using assms(3) by (auto simp: sts_mint_def sts_access_key_id_def split: if_splits option.splits sum.splits)
  have parse: "sts_parse_access_key (sn_access_key_id c) = Some \<lparr>sk_kid = sa_current_kid ?a, sk_sid = sid\<rparr>"
    using ring c well_formed_no_dot [of "sa_current_kid ?a"] by (simp add: sts_parse_iff kid_is_well_formed_def)
  have "cr_jwt_decode cr (sa_signing_key ?a) now (sn_session_token c) = Inr (Some (sa_current_kid ?a), claims)"
    using assms(1,4) c unfolding crypto_ok_def by metis
  then have v: "verify_session cr ?a now (sn_access_key_id c) (sn_session_token c) = Inr claims"
    using parse ring c by (auto simp: verify_session_def)
  have p: "is_sts_access_key (sn_access_key_id c)"
    using c by (simp add: is_sts_access_key_def access_key_id_for_def starts_with_def)
  show ?thesis using v p parse c by (simp add: identity_resolve_def identity_secret_key_def sts_secret_for_access_key_def)
qed

lemma demo_ring_ok:
  "sts_with_key_ring [(''v1'', demo_key)] ''v1'' demo_signing_key =
     Inr \<lparr>sa_master_keys = [(''v1'', demo_key)], sa_current_kid = ''v1'', sa_signing_key = demo_signing_key\<rparr>"
  by code_simp

definition demo_identity :: identity where
  "demo_identity =
     \<lparr>id_sts = \<lparr>sa_master_keys = [(''v1'', demo_key)], sa_current_kid = ''v1'', sa_signing_key = demo_signing_key\<rparr>,
      id_creds = \<lparr>scs_by_access_key = Map.empty\<rparr>, id_derived = None\<rparr>"

theorem sts_mint_verifies_witness:
  "\<exists>c. sts_mint demo_crypto (id_sts demo_identity) ''s1'' demo_claims = Inr c \<and>
     identity_resolve demo_crypto demo_identity 5 (sn_access_key_id c) (Some (sn_session_token c)) =
       Inr \<lparr>rp_sub = ''u1'', rp_principal_type = User, rp_groups = [''g''], rp_tenant = ''acme'', rp_organization_id = ''org1''\<rparr>"
proof -
  let ?c = "\<lparr>sn_access_key_id = ''HFSTv1.s1'', sn_secret_access_key = demo_key, sn_session_token = ''tok'', sn_expires_at = 100\<rparr>"
  have m: "sts_mint demo_crypto (id_sts demo_identity) ''s1'' demo_claims = Inr ?c"
    by (simp add: sts_mint_def demo_identity_def demo_claims_def demo_crypto_def derive_secret_def demo_key_def
        sts_access_key_id_def access_key_id_for_def sts_prefix_def kid_sep_def)
  have r: "sts_with_key_ring [(''v1'', demo_key)] ''v1'' demo_signing_key = Inr (id_sts demo_identity)"
    using demo_ring_ok by (simp add: demo_identity_def)
  have "5 < unat (sn_expires_at ?c)" by simp
  from sts_mint_verifies [OF demo_crypto_ok r m this] m show ?thesis
    by (intro exI [of _ ?c]) (simp add: demo_claims_def)
qed

text \<open>C17: A session credential is bound to its token and its signing key. Whenever a session access-key id
  resolves, a token was presented, it verified, it was minted under the very key id the access-key id
  names, that key is still in the ring, the access-key id is the one printed from that key id and the
  token's session id, and the signature was checked against the secret derived from the two. So a token
  cannot be combined with another session's key, and retiring a ring key ends its sessions.\<close>
theorem sts_session_bound:
  assumes "is_sts_access_key akid" "identity_resolve cr i now akid tok = Inr p"
  shows "\<exists>token claims kid key. tok = Some token \<and>
    cr_jwt_decode cr (sa_signing_key (id_sts i)) now token = Inr (Some kid, claims) \<and>
    map_of (sa_master_keys (id_sts i)) kid = Some key \<and>
    akid = access_key_id_for kid (sc_sid claims) \<and>
    identity_secret_key cr i akid = Some (cr_hex cr (cr_hmac cr key (kid @ [CHR 0x00] @ sc_sid claims))) \<and>
    rp_tenant p = sc_tenant claims \<and> rp_organization_id p = sc_org claims \<and> rp_sub p = sc_sub claims"
proof -
  obtain token claims where t: "tok = Some token" "verify_session cr (id_sts i) now akid token = Inr claims"
      "rp_tenant p = sc_tenant claims" "rp_organization_id p = sc_org claims" "rp_sub p = sc_sub claims"
    using assms by (auto simp: identity_resolve_def split: option.splits sum.splits)
  then obtain k key where k: "sts_parse_access_key akid = Some k" "sk_sid k = sc_sid claims"
      "map_of (sa_master_keys (id_sts i)) (sk_kid k) = Some key"
      "cr_jwt_decode cr (sa_signing_key (id_sts i)) now token = Inr (Some (sk_kid k), claims)"
    by (auto simp: verify_session_def split: option.splits sum.splits if_splits)
  moreover have "identity_secret_key cr i akid = Some (cr_hex cr (cr_hmac cr key (sk_kid k @ [CHR 0x00] @ sc_sid claims)))"
    using assms(1) k by (simp add: identity_secret_key_def sts_secret_for_access_key_def derive_secret_def)
  ultimately show ?thesis using t sts_parse_iff [of akid k] by metis
qed

theorem sts_session_bound_witness:
  "\<exists>(claims :: session_claims) kid. ''HFSTv1.s1'' = access_key_id_for kid (sc_sid claims)"
proof -
  have a: "is_sts_access_key ''HFSTv1.s1''" by code_simp
  have b: "identity_resolve demo_crypto demo_identity 5 ''HFSTv1.s1'' (Some ''tok'') =
      Inr \<lparr>rp_sub = ''u1'', rp_principal_type = User, rp_groups = [''g''], rp_tenant = ''acme'', rp_organization_id = ''org1''\<rparr>"
    by code_simp
  from sts_session_bound [OF a b] show ?thesis by (elim exE conjE) (intro exI, assumption)
qed

subsection \<open>Derived keys\<close>

text \<open>C15: What the derived-key service mints, the gateway admits. With a ring the authority accepted, a key
  minted for a routable tenant of the caller's organization resolves to exactly the requested principal with
  the organization the tenant is bound to, the secret re-derived from the id is the one handed out, and the
  epoch stamped in it is at or above the floor. In particular the payload encoding loses nothing: tenant,
  subject, principal kind and epoch are read back as they were written.\<close>
theorem derived_mint_admitted:
  assumes "crypto_ok cr" "derived_with_key_ring ring cur = Inr (dk_authority d)"
    "valid_utf8 tenant" "valid_utf8 sub" "id_derived i = Some d"
    "derived_keys_mint cr d tenant org ty sub requested = Inr m"
  shows "identity_resolve cr i now (dc_access_key_id (mk_credential m)) tok =
      Inr \<lparr>rp_sub = sub, rp_principal_type = ty, rp_groups = [], rp_tenant = tenant, rp_organization_id = org\<rparr> \<and>
    identity_secret_key cr i (dc_access_key_id (mk_credential m)) = Some (dc_secret_access_key (mk_credential m)) \<and>
    (case dk_epochs d tenant (principal_subject_key ty sub) of None \<Rightarrow> False | Some f \<Rightarrow> f \<le> mk_key_epoch m) \<and>
    (case requested of None \<Rightarrow> True | Some e \<Rightarrow> mk_key_epoch m = e)"
proof -
  let ?p = "\<lparr>dp_tenant = tenant, dp_sub = sub, dp_principal_type = ty, dp_key_epoch = mk_key_epoch m\<rparr>"
  let ?id = "dc_access_key_id (mk_credential m)"
  have m: "dk_tenants d tenant = Some org" "derived_mint cr (dk_authority d) ?p = Inr (mk_credential m)"
      "\<exists>f. dk_epochs d tenant (principal_subject_key ty sub) = Some f \<and> f \<le> mk_key_epoch m"
      "case requested of None \<Rightarrow> True | Some e \<Rightarrow> mk_key_epoch m = e"
    using assms(6) by (auto simp: derived_keys_mint_def split: if_splits option.splits sum.splits)
  have v: "derived_verify cr (dk_authority d) ?id = Some ?p"
      "derived_secret_for_access_key cr (dk_authority d) ?id = Some (dc_secret_access_key (mk_credential m))"
    using derived_mint_verifies [OF assms(1,2) _ _ m(2)] assms(3,4) by simp_all
  have pre: "is_derived_access_key ?id" "\<not> is_sts_access_key ?id"
    using derived_mint_prefix [OF m(2)] derived_not_sts [of ?id]
    by (auto simp: is_derived_access_key_def starts_with_def)
  have "derived_admit cr d ?id = Some (?p, org)"
    using v m by (auto simp: derived_admit_def)
  then show ?thesis
    using v m pre assms(5)
    by (auto simp: identity_resolve_def identity_secret_key_def derived_resolve_def derived_secret_def)
qed

definition demo_epoch_store :: bundle_store where
  "demo_epoch_store = \<lparr>bst_current = \<lparr>b_revision = ''r1'', b_data = JObj [(''tenants'', JObj [(''acme'',
     JObj [(''s3_key_epoch'', JNum (PosInt 4))])])], b_placement = Unplaced\<rparr>\<rparr>"

definition demo_derived :: derived_keys where
  "demo_derived = \<lparr>dk_authority = \<lparr>da_master_keys = [(''d1'', demo_key)], da_current_kid = ''d1''\<rparr>,
     dk_tenants = (\<lambda>t. if t = ''acme'' then Some ''org1'' else None), dk_epochs = store_key_epoch_floor demo_epoch_store\<rparr>"

definition demo_payload :: string where
  "demo_payload = CHR 0x01 # CHR 0x01 # CHR 0x00 # CHR 0x00 # CHR 0x00 # CHR 0x04 # CHR 0x04 # ''acmesa1''"

definition demo_derived_id :: string where
  "demo_derived_id = ''HFSAd1.'' @ demo_payload @ ''.0123456789abcdef''"

lemma demo_derived_floor: "store_key_epoch_floor demo_epoch_store ''acme'' k = Some 4"
  by (simp add: store_key_epoch_floor_def demo_epoch_store_def bundle_key_epoch_floor_def as_epoch_def)

lemma demo_char_of: "char_of (4 :: nat) = CHR 0x04" "char_of (0 :: nat) = CHR 0x00"
  by code_simp+

lemma demo_encode:
  "encode_payload demo_crypto \<lparr>dp_tenant = ''acme'', dp_sub = ''sa1'', dp_principal_type = ServiceAccount, dp_key_epoch = 4\<rparr> =
     Inr demo_payload"
proof -
  have b: "to_be_bytes 4 = CHR 0x00 # CHR 0x00 # CHR 0x00 # [CHR 0x04]"
    using demo_char_of by (simp add: to_be_bytes_def)
  have l: "length ''acme'' = 4" by simp
  show ?thesis
    unfolding encode_payload_def derived_principal.select_convs l b demo_char_of
    by (simp add: max_tenant_len_def demo_crypto_def payload_version_def typ_byte_def demo_payload_def)
qed

lemma demo_mint:
  "derived_mint demo_crypto (dk_authority demo_derived)
     \<lparr>dp_tenant = ''acme'', dp_sub = ''sa1'', dp_principal_type = ServiceAccount, dp_key_epoch = 4\<rparr> =
     Inr \<lparr>dc_access_key_id = demo_derived_id, dc_secret_access_key = demo_key\<rparr>"
proof -
  have "cr_hmac demo_crypto demo_key m = demo_key" "cr_hex demo_crypto x = x"
      "cr_b64_encode demo_crypto (take mac_len demo_key) = ''0123456789abcdef''" for m x
    by (simp_all add: demo_crypto_def demo_key_def mac_len_def)
  then show ?thesis
    by (simp add: derived_mint_def demo_encode demo_derived_def demo_derived_id_def demo_payload_def id_mac_def secret_mac_def
        derived_prefix_def field_sep_def max_access_key_id_len_def)
qed

lemma demo_derived_mint:
  "derived_keys_mint demo_crypto demo_derived ''acme'' ''org1'' ServiceAccount ''sa1'' None =
     Inr \<lparr>mk_credential = \<lparr>dc_access_key_id = demo_derived_id, dc_secret_access_key = demo_key\<rparr>, mk_key_epoch = 4, mk_kid = ''d1''\<rparr>"
proof -
  have t: "trim ''sa1'' \<noteq> []" by code_simp
  have "dk_epochs demo_derived ''acme'' k = Some 4" "dk_tenants demo_derived ''acme'' = Some ''org1''"
      "da_current_kid (dk_authority demo_derived) = ''d1''" for k
    by (simp_all add: demo_derived_floor demo_derived_def)
  with t demo_mint show ?thesis by (simp add: derived_keys_mint_def)
qed

lemma demo_derived_ring: "derived_with_key_ring [(''d1'', demo_key)] ''d1'' = Inr (dk_authority demo_derived)"
  by code_simp

lemma demo_utf8: "valid_utf8 ''acme''" "valid_utf8 ''sa1''"
  by code_simp+

theorem derived_mint_admitted_witness:
  "identity_resolve demo_crypto (demo_identity\<lparr>id_derived := Some demo_derived\<rparr>) 0 demo_derived_id None =
     Inr \<lparr>rp_sub = ''sa1'', rp_principal_type = ServiceAccount, rp_groups = [], rp_tenant = ''acme'', rp_organization_id = ''org1''\<rparr>"
proof -
  have i: "id_derived (demo_identity\<lparr>id_derived := Some demo_derived\<rparr>) = Some demo_derived" by simp
  from derived_mint_admitted [OF demo_crypto_ok demo_derived_ring demo_utf8 i demo_derived_mint, of 0 None] show ?thesis by simp
qed

text \<open>C16: Raising an epoch revokes. When the bundle in force publishes for a key's tenant an epoch above
  the one the key carries, or no readable epoch at all, the key yields neither a secret nor a principal,
  whatever the authority's ring and the tenant directory say.\<close>
theorem epoch_revokes_derived_key:
  assumes "derived_verify cr (dk_authority d) akid = Some p" "dk_epochs d = store_key_epoch_floor s"
    "case store_tenant_epoch s (dp_tenant p) of None \<Rightarrow> True | Some e \<Rightarrow> dp_key_epoch p < e"
    "is_derived_access_key akid" "id_derived i = Some d"
  shows "identity_secret_key cr i akid = None \<and>
    identity_resolve cr i now akid tok = Inl (Credentials (''unknown access key '' @ akid))"
proof -
  have "\<not> is_sts_access_key akid"
    using assms(4) by (rule derived_not_sts)
  moreover have "derived_admit cr d akid = None"
    using assms(1-3) by (rule bundle_epochs.revoked)
  ultimately show ?thesis
    using assms(4,5) by (simp add: identity_secret_key_def identity_resolve_def derived_secret_def derived_resolve_def)
qed

theorem epoch_revokes_derived_key_witness:
  "identity_secret_key demo_crypto (demo_identity\<lparr>id_derived := Some (demo_derived\<lparr>dk_epochs := store_key_epoch_floor
     (demo_epoch_store\<lparr>bst_current := (bst_current demo_epoch_store)\<lparr>b_data := JNull\<rparr>\<rparr>)\<rparr>)\<rparr>) demo_derived_id = None"
proof -
  let ?s = "demo_epoch_store\<lparr>bst_current := (bst_current demo_epoch_store)\<lparr>b_data := JNull\<rparr>\<rparr>"
  let ?d = "demo_derived\<lparr>dk_epochs := store_key_epoch_floor ?s\<rparr>"
  have v: "derived_verify demo_crypto (dk_authority ?d) demo_derived_id =
      Some \<lparr>dp_tenant = ''acme'', dp_sub = ''sa1'', dp_principal_type = ServiceAccount, dp_key_epoch = 4\<rparr>"
    using derived_mint_verifies [OF demo_crypto_ok demo_derived_ring _ _ demo_mint] demo_utf8 by simp
  have e: "store_tenant_epoch ?s t = None" for t
    by (simp add: store_tenant_epoch_def)
  have p: "is_derived_access_key demo_derived_id"
    by (simp add: is_derived_access_key_def starts_with_def derived_prefix_def demo_derived_id_def)
  show ?thesis
    using epoch_revokes_derived_key [OF v _ _ p, of ?s "demo_identity\<lparr>id_derived := Some ?d\<rparr>"] by (simp add: e)
qed

subsection \<open>Separate namespaces\<close>

text \<open>The three credential families cannot reach into each other. An access-key id is of at most one
  minted family, and for an id of either minted family the static credential file has no say: replacing the
  whole store, or inserting an entry under that very id, changes neither its secret nor its principal.
  For every other id the session and derived authorities have no say.\<close>
theorem credential_namespaces_disjoint:
  "\<not> (is_sts_access_key akid \<and> is_derived_access_key akid) \<and>
   (if is_sts_access_key akid \<or> is_derived_access_key akid then
      identity_secret_key cr (i\<lparr>id_creds := c\<rparr>) akid = identity_secret_key cr i akid \<and>
      identity_resolve cr (i\<lparr>id_creds := c\<rparr>) now akid tok = identity_resolve cr i now akid tok
    else
      identity_secret_key cr (i\<lparr>id_sts := a, id_derived := d\<rparr>) akid = identity_secret_key cr i akid \<and>
      identity_resolve cr (i\<lparr>id_sts := a, id_derived := d\<rparr>) now akid tok = identity_resolve cr i now akid tok)"
  using derived_not_sts [of akid] by (auto simp: identity_secret_key_def identity_resolve_def cong: option.case_cong)

end
