(* ===== verification/S0_Config.thy ===== *)
theory S0_Config
  imports S0_Auth
begin

text \<open>
  The gateway's configuration, \<open>config.rs\<close>: its structures, the validation done when a document is loaded, the
  normalisation of the two key rings, and the interpolation of environment variables into the raw document.

  Parsing JSON into the structures is \<open>serde_json\<close>'s and an argument of \<open>config_from_json\<close>, as is the escaping of a JSON
  string in \<open>expand_env\<close>. A socket address is its text and its port. A \<open>Secret<String>\<close> is the string it exposes.
\<close>

section \<open>Structures\<close>

record socket_addr =
  so_text :: string
  so_port :: nat

record sts_config =
  st_master_key_hex :: "string option"
  st_master_keys :: "string btree"
  st_current_kid :: "string option"
  st_signing_key_hex :: string
  st_session_ttl_secs :: u64

record derived_keys_config =
  dc_master_key_hex :: "string option"
  dc_master_keys :: "string btree"
  dc_current_kid :: "string option"

record static_credential_config =
  sr_access_key_id :: string
  sr_secret_access_key :: string
  sr_principal_sub :: string
  sr_tenant :: string
  sr_organization_id :: string
  sr_groups :: "string list"

datatype pdp_config = PdpEmbedded u64 | PdpSidecar string u64 u64

datatype audit_backend_kind = ControlPlane | StdoutNdjson

record audit_file_config =
  af_sink_url :: string
  af_spill_path :: string
  af_backend :: audit_backend_kind
  af_organization_label_key :: string
  af_extra_labels :: "string btree"

record limits_config =
  lm_xml_max_body_size :: nat
  lm_post_object_max_file_size :: u64
  lm_presigned_url_max_skew_time_secs :: u32
  lm_max_delete_keys :: nat
  lm_max_tag_count :: nat
  lm_max_list_fanout :: nat
  lm_max_buckets_per_page :: nat
  lm_max_bucket_list_pages :: nat
  lm_max_connections :: nat
  lm_header_read_timeout_secs :: u64
  lm_backend_connect_timeout_secs :: u64
  lm_backend_read_timeout_secs :: u64

definition limits_default :: limits_config where
  "limits_default =
     \<lparr>lm_xml_max_body_size = 20 * 1024 * 1024, lm_post_object_max_file_size = 64 * 1024 * 1024,
      lm_presigned_url_max_skew_time_secs = 900, lm_max_delete_keys = 1000, lm_max_tag_count = 10,
      lm_max_list_fanout = 16, lm_max_buckets_per_page = 1000, lm_max_bucket_list_pages = 64,
      lm_max_connections = 1024, lm_header_read_timeout_secs = 15, lm_backend_connect_timeout_secs = 5,
      lm_backend_read_timeout_secs = 0\<rparr>"

definition backend_read_timeout :: "limits_config \<Rightarrow> u64 option" where
  "backend_read_timeout l =
     (if lm_backend_read_timeout_secs l > 0 then Some (lm_backend_read_timeout_secs l) else None)"

record backend_config =
  bc_id :: string
  bc_kind :: backend_kind
  bc_endpoint_url :: string
  bc_region :: string
  bc_force_path_style :: bool
  bc_profile :: "backend_profile option"

record tenant_config =
  tc_tenant :: string
  tc_organization_id :: string
  tc_backend_id :: string
  tc_owner_access_key :: string
  tc_owner_secret_key :: string

record internal_api_config =
  ic_listen :: socket_addr
  ic_shared_secret :: "string option"
  ic_max_session_ttl_secs :: u64

record sts_mint_config =
  mc_listen :: socket_addr
  mc_issuer :: string
  mc_audience :: string
  mc_jwks_uri :: "string option"
  mc_public_key_pem :: "string option"
  mc_sub_claim :: string
  mc_groups_claim :: string
  mc_tenant_claim :: string
  mc_org_claim :: string
  mc_jwks_timeout_secs :: u64
  mc_jwks_refresh_secs :: u64
  mc_web_identity_enabled :: bool
  mc_web_identity_audiences :: "string list"
  mc_role_name_template :: "string option"
  mc_max_duration_secs :: u64
  mc_max_connections :: nat
  mc_connection_timeout_secs :: u64

record gateway_config =
  gc_listen :: socket_addr
  gc_admin_listen :: socket_addr
  gc_sts :: sts_config
  gc_derived_keys :: "derived_keys_config option"
  gc_pdp :: pdp_config
  gc_audit :: audit_file_config
  gc_limits :: limits_config
  gc_backends :: "backend_config list"
  gc_tenants :: "tenant_config list"
  gc_static_credentials :: "static_credential_config list"
  gc_bundle_path :: string
  gc_bundle_url :: "string option"
  gc_bundle_poll_secs :: u64
  gc_bundle_timeout_secs :: u64
  gc_bundle_shared_secret :: "string option"
  gc_sts_mint :: "sts_mint_config option"
  gc_internal :: "internal_api_config option"

section \<open>Key rings\<close>

definition sts_key_ring :: "sts_config \<Rightarrow> string btree \<times> string" where
  "sts_key_ring s =
     (case st_master_key_hex s of
        Some hex \<Rightarrow>
          if st_master_keys s = [] then ([(default_kid, hex)], default_kid)
          else (st_master_keys s, case st_current_kid s of None \<Rightarrow> [] | Some k \<Rightarrow> k)
      | None \<Rightarrow> (st_master_keys s, case st_current_kid s of None \<Rightarrow> [] | Some k \<Rightarrow> k))"

definition derived_key_ring :: "derived_keys_config \<Rightarrow> string btree \<times> string" where
  "derived_key_ring d =
     (case dc_master_key_hex d of
        Some hex \<Rightarrow>
          if dc_master_keys d = [] then ([(default_kid, hex)], default_kid)
          else (dc_master_keys d, case dc_current_kid d of None \<Rightarrow> [] | Some k \<Rightarrow> k)
      | None \<Rightarrow> (dc_master_keys d, case dc_current_kid d of None \<Rightarrow> [] | Some k \<Rightarrow> k))"

definition debug_list :: "string list \<Rightarrow> string" where
  "debug_list xs = ''['' @ join '', '' (map debug_str xs) @ '']''"

definition validate_sts_key_ring :: "gateway_config \<Rightarrow> gateway_error + unit" where
  "validate_sts_key_ring g =
     (let s = gc_sts g in
      case (st_master_key_hex s, st_master_keys s = []) of
        (None, True) \<Rightarrow> Inl (Config ''sts needs either master_key_hex or a non-empty master_keys ring'')
      | (Some _, False) \<Rightarrow>
          Inl (Config ''sts.master_key_hex and sts.master_keys are mutually exclusive; master_key_hex is shorthand for a one-entry ring'')
      | (Some _, True) \<Rightarrow>
          if st_current_kid s \<noteq> None then Inl (Config ''sts.current_kid is meaningless without sts.master_keys'')
          else Inr ()
      | (None, False) \<Rightarrow>
          (case st_current_kid s of
             None \<Rightarrow>
               Inl (Config ''sts.current_kid is required with sts.master_keys: which key mints new sessions is an operator decision, never inferred'')
           | Some kid \<Rightarrow>
               if map_of (st_master_keys s) kid = None then
                 Inl (Config (''sts.current_kid '' @ debug_str kid @ '' is not one of sts.master_keys '' @
                   debug_list (map fst (st_master_keys s))))
               else Inr ()))"

definition derived_ring_shape :: "derived_keys_config \<Rightarrow> gateway_error + unit" where
  "derived_ring_shape d =
     (case (dc_master_key_hex d, dc_master_keys d = []) of
        (None, True) \<Rightarrow>
          Inl (Config ''derived_keys needs either master_key_hex or a non-empty master_keys ring; omit the whole `derived_keys` section to switch the feature off'')
      | (Some _, False) \<Rightarrow>
          Inl (Config ''derived_keys.master_key_hex and derived_keys.master_keys are mutually exclusive; master_key_hex is shorthand for a one-entry ring'')
      | (Some _, True) \<Rightarrow>
          if dc_current_kid d \<noteq> None then
            Inl (Config ''derived_keys.current_kid is meaningless without derived_keys.master_keys'')
          else Inr ()
      | (None, False) \<Rightarrow>
          (case dc_current_kid d of
             None \<Rightarrow>
               Inl (Config ''derived_keys.current_kid is required with derived_keys.master_keys: which key mints new credentials is an operator decision, never inferred'')
           | Some kid \<Rightarrow>
               if map_of (dc_master_keys d) kid = None then
                 Inl (Config (''derived_keys.current_kid '' @ debug_str kid @ '' is not one of derived_keys.master_keys '' @
                   debug_list (map fst (dc_master_keys d))))
               else Inr ()))"

fun no_shared_key :: "string \<Rightarrow> string btree \<Rightarrow> string btree \<Rightarrow> gateway_error + unit" where
  "no_shared_key signing sts_ring [] = Inr ()"
| "no_shared_key signing sts_ring ((kid, key) # rest) =
     (if key = signing then
        Inl (Config (''derived_keys master key '' @ kid @ '' is the same material as sts.signing_key_hex; the two credential classes must not share a key''))
      else case find (\<lambda>(_, k). k = key) sts_ring of
        Some (sts_kid, _) \<Rightarrow>
          Inl (Config (''derived_keys master key '' @ kid @ '' is the same material as sts master key '' @ sts_kid @
            ''; the two credential classes must not share a key '' @ [CHR 0xE2, CHR 0x80, CHR 0x94] @
            '' retiring a kid to revoke long-lived credentials would then 403 every live session''))
      | None \<Rightarrow> no_shared_key signing sts_ring rest)"

definition validate_derived_key_ring :: "gateway_config \<Rightarrow> gateway_error + unit" where
  "validate_derived_key_ring g =
     (case gc_derived_keys g of
        None \<Rightarrow> Inr ()
      | Some d \<Rightarrow>
          (case derived_ring_shape d of
             Inl e \<Rightarrow> Inl e
           | Inr _ \<Rightarrow>
               no_shared_key (st_signing_key_hex (gc_sts g)) (fst (sts_key_ring (gc_sts g))) (fst (derived_key_ring d))))"

section \<open>Validation\<close>

definition validate_internal_listener :: "gateway_config \<Rightarrow> gateway_error + unit" where
  "validate_internal_listener g =
     (case gc_internal g of
        None \<Rightarrow> Inr ()
      | Some i \<Rightarrow>
          if so_port (ic_listen i) = so_port (gc_admin_listen g) then
            Inl (Config (''internal.listen '' @ so_text (ic_listen i) @ '' shares a port with admin_listen '' @
              so_text (gc_admin_listen g) @
              ''; the admin listener is UNAUTHENTICATED by design (a probe cannot present a secret) and a credential-minting endpoint must never share it''))
          else if so_port (ic_listen i) = so_port (gc_listen g) then
            Inl (Config (''internal.listen '' @ so_text (ic_listen i) @ '' shares a port with the S3 data-plane listener '' @
              so_text (gc_listen g) @
              ''; the data plane is fronted by an Ingress and a credential-minting endpoint must never be reachable from it''))
          else if (case gc_sts_mint g of None \<Rightarrow> False | Some m \<Rightarrow> so_port (ic_listen i) = so_port (mc_listen m)) then
            Inl (Config (''internal.listen '' @ so_text (ic_listen i) @ '' shares a port with sts_mint.listen '' @
              (case gc_sts_mint g of None \<Rightarrow> [] | Some m \<Rightarrow> so_text (mc_listen m))))
          else if ic_max_session_ttl_secs i = 0 then
            Inl (Config ''internal.max_session_ttl_secs must be > 0; a zero ceiling clamps every minted session to nothing and is not a way to disable the endpoint (omit the `internal` section for that)'')
          else Inr ())"

definition validate_mint_listener :: "gateway_config \<Rightarrow> gateway_error + unit" where
  "validate_mint_listener g =
     (case gc_sts_mint g of
        None \<Rightarrow> Inr ()
      | Some m \<Rightarrow>
          if so_port (mc_listen m) = so_port (gc_listen g) then
            Inl (Config (''sts_mint.listen '' @ so_text (mc_listen m) @ '' shares a port with the S3 data-plane listener '' @
              so_text (gc_listen g) @
              ''; the mint is a separate, deliberately unauthenticated socket and must not be a route inside the SigV4-authenticated data plane''))
          else if so_port (mc_listen m) = so_port (gc_admin_listen g) then
            Inl (Config (''sts_mint.listen '' @ so_text (mc_listen m) @ '' shares a port with admin_listen '' @
              so_text (gc_admin_listen g) @
              ''; the admin listener is published for probes and scraping and must never also mint credentials''))
          else if mc_max_duration_secs m = 0 then
            Inl (Config ''sts_mint.max_duration_secs must be > 0; a zero ceiling clamps every minted session to nothing and is not a way to disable the surface (set sts_mint.web_identity_enabled=false for that)'')
          else if mc_max_connections m = 0 then
            Inl (Config ''sts_mint.max_connections must be > 0; zero is not 'unbounded', it is a listener that accepts no connection at all while still binding the port and still passing a TCP probe'')
          else if mc_connection_timeout_secs m = 0 then
            Inl (Config ''sts_mint.connection_timeout_secs must be > 0; zero is not 'no timeout', it closes every connection before it can be answered. Raise it if the default of 30 s is too short for your IdP'')
          else Inr ())"

fun check_tenant_backends :: "(string \<Rightarrow> bool) \<Rightarrow> tenant_config list \<Rightarrow> gateway_error + unit" where
  "check_tenant_backends known [] = Inr ()"
| "check_tenant_backends known (t # ts) =
     (if \<not> known (tc_backend_id t) then
        Inl (Config (''tenant '' @ tc_tenant t @ '' references unknown backend '' @ tc_backend_id t))
      else check_tenant_backends known ts)"

definition check_static_credential :: "(string \<Rightarrow> string option) \<Rightarrow> static_credential_config \<Rightarrow> gateway_error + unit" where
  "check_static_credential tenant_org c =
     (if is_sts_access_key (sr_access_key_id c) then
        Inl (Config (''static credential '' @ sr_access_key_id c @ '' is inside the STS access-key namespace '' @
          debug_str sts_prefix @ ''*; STS keys are minted as '' @ sts_prefix @ ''<kid>'' @ [kid_sep] @
          ''<sid> and every key carrying the prefix is answered by the STS authority, so this credential would never resolve''))
      else if is_derived_access_key (sr_access_key_id c) then
        Inl (Config (''static credential '' @ sr_access_key_id c @ '' is inside the DERIVED long-lived access-key namespace '' @
          debug_str derived_prefix @ ''*; derived keys are minted as '' @ derived_prefix @ ''<kid>'' @ [field_sep] @ ''<payload>'' @
          [field_sep] @ ''<mac> and every key carrying the prefix is answered by the derived-key authority (or by nothing at all, when `derived_keys` is unset), so this credential would never resolve''))
      else case tenant_org (sr_tenant c) of
        None \<Rightarrow>
          Inl (Config (''static credential '' @ sr_access_key_id c @ '' references unknown tenant '' @ sr_tenant c))
      | Some org \<Rightarrow>
          if org \<noteq> sr_organization_id c then
            Inl (Config (''static credential '' @ sr_access_key_id c @ '' org '' @ sr_organization_id c @
              '' disagrees with tenant '' @ sr_tenant c @ '' org '' @ org))
          else Inr ())"

fun check_static_credentials :: "(string \<Rightarrow> string option) \<Rightarrow> static_credential_config list \<Rightarrow> gateway_error + unit" where
  "check_static_credentials tenant_org [] = Inr ()"
| "check_static_credentials tenant_org (c # cs) =
     (case check_static_credential tenant_org c of
        Inl e \<Rightarrow> Inl e
      | Inr _ \<Rightarrow> check_static_credentials tenant_org cs)"

text \<open>A \<open>HashMap\<close> collected from a list keeps the last entry of a key.\<close>

definition collect_map :: "('k \<times> 'v) list \<Rightarrow> 'k \<Rightarrow> 'v option" where
  "collect_map kvs = map_of (rev kvs)"

definition check_timeouts :: "gateway_config \<Rightarrow> gateway_error + unit" where
  "check_timeouts g =
     (if gc_bundle_timeout_secs g = 0 then
        Inl (Config ''bundle_timeout_secs must be > 0; an unbounded bundle fetch stalls revocation'')
      else if lm_backend_connect_timeout_secs (gc_limits g) = 0 then
        Inl (Config ''limits.backend_connect_timeout_secs must be > 0'')
      else if (case gc_sts_mint g of None \<Rightarrow> False | Some m \<Rightarrow> mc_jwks_timeout_secs m = 0) then
        Inl (Config ''sts_mint.jwks_timeout_secs must be > 0; an unbounded JWKS fetch hangs mint requests'')
      else if gc_bundle_shared_secret g \<noteq> None \<and> gc_bundle_url g = None then
        Inl (Config ''bundle_shared_secret is set but bundle_url is not; the credential would never be sent (the bundle is being re-read from bundle_path)'')
      else Inr ())"

definition and_then :: "'e + unit \<Rightarrow> 'e + unit \<Rightarrow> 'e + unit" where
  "and_then a b = (case a of Inl e \<Rightarrow> Inl e | Inr _ \<Rightarrow> b)"

definition config_validate :: "gateway_config \<Rightarrow> gateway_error + unit" where
  "config_validate g =
     and_then (validate_sts_key_ring g)
     (and_then (validate_derived_key_ring g)
     (and_then (check_tenant_backends (\<lambda>i. i \<in> set (map bc_id (gc_backends g))) (gc_tenants g))
     (and_then (check_static_credentials (collect_map (map (\<lambda>t. (tc_tenant t, tc_organization_id t)) (gc_tenants g)))
                  (gc_static_credentials g))
     (and_then (check_timeouts g)
     (and_then (validate_internal_listener g) (validate_mint_listener g))))))"

definition config_from_json :: "(string \<Rightarrow> gateway_config res) \<Rightarrow> string \<Rightarrow> gateway_error + gateway_config" where
  "config_from_json from_str raw =
     (case from_str raw of
        Inl e \<Rightarrow> Inl (Config (''parse: '' @ e))
      | Inr g \<Rightarrow> (case config_validate g of Inl e \<Rightarrow> Inl e | Inr _ \<Rightarrow> Inr g))"

section \<open>Interpolation and identity\<close>

text \<open>\<open>split_once(":-")\<close> on the text between the braces.\<close>

fun split_once_str :: "string \<Rightarrow> string \<Rightarrow> (string \<times> string) option" where
  "split_once_str sep [] = (if sep = [] then Some ([], []) else None)"
| "split_once_str sep (c # cs) =
     (if prefix sep (c # cs) then Some ([], drop (length sep) (c # cs))
      else map_option (\<lambda>(a, b). (c # a, b)) (split_once_str sep cs))"

lemma split_once_str_Some: "split_once_str sep s = Some (a, b) \<Longrightarrow> s = a @ sep @ b"
  by (induction s arbitrary: a) (auto split: if_splits simp: prefix_def)

definition valid_env_name :: "string \<Rightarrow> bool" where
  "valid_env_name name \<longleftrightarrow> name \<noteq> [] \<and> list_all (\<lambda>c. is_alphanumeric c \<or> c = CHR ''_'') name"

definition env_value :: "(string \<Rightarrow> string option) \<Rightarrow> string \<Rightarrow> gateway_error + string" where
  "env_value env body =
     (let (name, fallback) =
            (case split_once_str '':-'' body of Some (n, f) \<Rightarrow> (n, Some f) | None \<Rightarrow> (body, None))
      in if \<not> valid_env_name name then
           Inl (Config (''invalid environment variable name in config: ${'' @ body @ ''}''))
         else case env name of
           Some v \<Rightarrow> Inr v
         | None \<Rightarrow>
             (case fallback of
                Some f \<Rightarrow> Inr f
              | None \<Rightarrow>
                  Inl (Config (''config references ${'' @ name @ ''} but '' @ name @ '' is not set (use ${'' @ name @
                    '':-fallback} to allow a default)''))))"

function expand_env :: "(string \<Rightarrow> string) \<Rightarrow> (string \<Rightarrow> string option) \<Rightarrow> string \<Rightarrow> gateway_error + string" where
  "expand_env json_escape env raw =
     (case split_once_str ''${'' raw of
        None \<Rightarrow> Inr raw
      | Some (before, after) \<Rightarrow>
          (case split_once CHR ''}'' after of
             None \<Rightarrow> Inl (Config ''unterminated `${` in config; expected a closing `}`'')
           | Some (body, rest) \<Rightarrow>
               (case env_value env body of
                  Inl e \<Rightarrow> Inl e
                | Inr v \<Rightarrow>
                    (case expand_env json_escape env rest of
                       Inl e \<Rightarrow> Inl e
                     | Inr out \<Rightarrow> Inr (before @ json_escape v @ out)))))"
  by pat_completeness auto
termination
  by (relation "measure (\<lambda>(_, _, raw). length raw)")
    (auto dest!: split_once_str_Some simp: split_once_Some)

declare expand_env.simps [simp del]

definition instance_id_from :: "(string \<Rightarrow> string option) \<Rightarrow> nat \<Rightarrow> string" where
  "instance_id_from lookup pid =
     (case filter (\<lambda>v. trim v \<noteq> []) (List.map_filter lookup [''POD_NAME'', ''HOSTNAME'']) of
        v # _ \<Rightarrow> trim v
      | [] \<Rightarrow> ''pid-'' @ nat_digits pid)"

text \<open>\<open>GatewayConfig::load\<close>: the file \<open>GATEWAY_CONFIG\<close> names, expanded, decoded and validated. Reading a file is a parameter.\<close>

definition config_load ::
  "(string \<Rightarrow> gateway_config res) \<Rightarrow> (string \<Rightarrow> string) \<Rightarrow> (string \<Rightarrow> string option) \<Rightarrow> (string \<Rightarrow> string + string) \<Rightarrow>
   gateway_error + gateway_config" where
  "config_load from_str json_escape env read_to_string =
     (let path = (case env ''GATEWAY_CONFIG'' of Some p \<Rightarrow> p | None \<Rightarrow> ''gateway.json'')
      in case read_to_string path of
           Inl e \<Rightarrow> Inl (Config (''read '' @ path @ '': '' @ e))
         | Inr raw \<Rightarrow>
             (case expand_env json_escape env raw of
                Inl e \<Rightarrow> Inl e
              | Inr expanded \<Rightarrow> config_from_json from_str expanded))"

text \<open>A configuration the process starts from was validated.\<close>

lemma config_load_valid: "config_load from_str esc env rd = Inr g \<Longrightarrow> config_validate g = Inr ()"
  by (auto simp: config_load_def config_from_json_def Let_def split: sum.splits)

end
