(* ===== verification/S0_Registry.thy ===== *)
theory S0_Registry
  imports S0_Config
begin

text \<open>
  The backend registry of \<open>proxy/mod.rs\<close> (the routing table, the secret-free route snapshots, the pool of re-signing
  clients) and the parts of \<open>gateway.rs\<close> that build and re-apply the running state from a configuration.

  A re-signing client is what \<open>build_proxy\<close> puts into it. \<open>proxy_for\<close> reads the routing table and, later, locks the pool:
  it is modelled as these two steps, so that a configuration applied between them can be told apart from one applied
  before or after.
\<close>

section \<open>Routes and clients\<close>

record tenant_route =
  tr_backend :: backend_config
  tr_owner_access_key :: string
  tr_owner_secret_key :: string
  tr_organization_id :: string
  tr_shares_upstream_identity :: bool

record route_snapshot =
  rs_tenant :: string
  rs_backend_id :: string
  rs_backend_kind :: backend_kind
  rs_organization_id :: string
  rs_shares_upstream_identity :: bool

type_synonym routes = "string \<rightharpoonup> tenant_route"

record timeout_config =
  to_connect_timeout :: u64
  to_read_timeout :: "u64 option"

record s3_client =
  cl_access_key :: string
  cl_secret_key :: string
  cl_endpoint_url :: string
  cl_region :: string
  cl_force_path_style :: bool
  cl_timeouts :: timeout_config

record backend_registry =
  rg_routes :: routes
  rg_pool :: "string \<times> string \<rightharpoonup> s3_client"
  rg_timeouts :: timeout_config

definition backend_timeouts :: "limits_config \<Rightarrow> timeout_config" where
  "backend_timeouts l =
     \<lparr>to_connect_timeout = lm_backend_connect_timeout_secs l, to_read_timeout = backend_read_timeout l\<rparr>"

definition build_proxy :: "backend_config \<Rightarrow> string \<Rightarrow> string \<Rightarrow> timeout_config \<Rightarrow> s3_client" where
  "build_proxy backend access_key secret_key timeouts =
     \<lparr>cl_access_key = access_key, cl_secret_key = secret_key, cl_endpoint_url = bc_endpoint_url backend,
      cl_region = bc_region backend, cl_force_path_style = bc_force_path_style backend, cl_timeouts = timeouts\<rparr>"

definition organization_of :: "backend_registry \<Rightarrow> string \<Rightarrow> string option" where
  "organization_of reg tenant = map_option tr_organization_id (rg_routes reg tenant)"

text \<open>How many tenants one upstream identity \<open>(backend, access key)\<close> re-signs for.\<close>

definition identity_count :: "tenant_config list \<Rightarrow> string \<Rightarrow> string \<Rightarrow> nat" where
  "identity_count ts backend_id access_key =
     length (filter (\<lambda>t. tc_backend_id t = backend_id \<and> tc_owner_access_key t = access_key) ts)"

fun add_routes ::
  "(string \<Rightarrow> backend_config option) \<Rightarrow> tenant_config list \<Rightarrow> tenant_config list \<Rightarrow> routes \<Rightarrow> gateway_error + routes" where
  "add_routes backends all [] routes = Inr routes"
| "add_routes backends all (t # ts) routes =
     (case backends (tc_backend_id t) of
        None \<Rightarrow> Inl (Config (''unknown backend '' @ tc_backend_id t))
      | Some backend \<Rightarrow>
          add_routes backends all ts
            (routes(tc_tenant t \<mapsto>
               \<lparr>tr_backend = backend, tr_owner_access_key = tc_owner_access_key t,
                tr_owner_secret_key = tc_owner_secret_key t, tr_organization_id = tc_organization_id t,
                tr_shares_upstream_identity = (identity_count all (tc_backend_id t) (tc_owner_access_key t) > 1)\<rparr>)))"

definition build_routes :: "gateway_config \<Rightarrow> gateway_error + routes" where
  "build_routes cfg =
     add_routes (collect_map (map (\<lambda>b. (bc_id b, b)) (gc_backends cfg))) (gc_tenants cfg) (gc_tenants cfg) Map.empty"

section \<open>The registry\<close>

definition registry_from_config :: "gateway_config \<Rightarrow> gateway_error + backend_registry" where
  "registry_from_config cfg =
     (case build_routes cfg of
        Inl e \<Rightarrow> Inl e
      | Inr routes \<Rightarrow>
          Inr \<lparr>rg_routes = routes, rg_pool = Map.empty, rg_timeouts = backend_timeouts (gc_limits cfg)\<rparr>)"

definition registry_apply_config :: "gateway_config \<Rightarrow> backend_registry \<Rightarrow> gateway_error + backend_registry" where
  "registry_apply_config cfg reg =
     (case build_routes cfg of
        Inl e \<Rightarrow> Inl e
      | Inr routes \<Rightarrow> Inr (reg\<lparr>rg_routes := routes, rg_pool := Map.empty\<rparr>))"

definition route_snapshot_for :: "backend_registry \<Rightarrow> string \<Rightarrow> route_snapshot option" where
  "route_snapshot_for reg tenant =
     map_option (\<lambda>route.
       \<lparr>rs_tenant = tenant, rs_backend_id = bc_id (tr_backend route), rs_backend_kind = bc_kind (tr_backend route),
        rs_organization_id = tr_organization_id route,
        rs_shares_upstream_identity = tr_shares_upstream_identity route\<rparr>)
       (rg_routes reg tenant)"

definition proxy_route :: "routes \<Rightarrow> route_snapshot \<Rightarrow> gateway_error + tenant_route" where
  "proxy_route routes snapshot =
     (case routes (rs_tenant snapshot) of
        None \<Rightarrow> Inl (Backend (''no route for tenant '' @ rs_tenant snapshot))
      | Some route \<Rightarrow>
          if bc_id (tr_backend route) \<noteq> rs_backend_id snapshot then
            Inl (Backend (''tenant '' @ rs_tenant snapshot @ '' was authorized against backend '' @ rs_backend_id snapshot @
              '' but now routes to '' @ bc_id (tr_backend route) @ ''; refusing to forward across a routing change''))
          else if tr_shares_upstream_identity route \<noteq> rs_shares_upstream_identity snapshot then
            Inl (Backend (''tenant '' @ rs_tenant snapshot @ '' was authorized under a routing table where it '' @
              (if rs_shares_upstream_identity snapshot then ''shared'' else ''did not share'') @
              '' its upstream identity; refusing to forward across a routing change''))
          else Inr route)"

definition pool_client :: "tenant_route \<Rightarrow> route_snapshot \<Rightarrow> backend_registry \<Rightarrow> backend_registry \<times> s3_client" where
  "pool_client route snapshot reg =
     (let key = (bc_id (tr_backend route), rs_tenant snapshot) in
      case rg_pool reg key of
        Some p \<Rightarrow> (reg, p)
      | None \<Rightarrow>
          let p = build_proxy (tr_backend route) (tr_owner_access_key route) (tr_owner_secret_key route) (rg_timeouts reg)
          in (reg\<lparr>rg_pool := (rg_pool reg)(key \<mapsto> p)\<rparr>, p))"

definition proxy_for :: "route_snapshot \<Rightarrow> backend_registry \<Rightarrow> backend_registry \<times> (gateway_error + s3_client)" where
  "proxy_for snapshot reg =
     (case proxy_route (rg_routes reg) snapshot of
        Inl e \<Rightarrow> (reg, Inl e)
      | Inr route \<Rightarrow> (case pool_client route snapshot reg of (reg', p) \<Rightarrow> (reg', Inr p)))"

section \<open>The gateway's reloadable state\<close>

definition credentials_from_config :: "gateway_config \<Rightarrow> static_credentials" where
  "credentials_from_config cfg =
     collect_map (map (\<lambda>c. (sr_access_key_id c,
       \<lparr>st_secret_access_key = sr_secret_access_key c, st_principal_sub = sr_principal_sub c, st_tenant = sr_tenant c,
        st_organization_id = sr_organization_id c, st_groups = sr_groups c\<rparr>)) (gc_static_credentials cfg))"

definition store_from_config :: "gateway_config \<Rightarrow> static_credential_store" where
  "store_from_config cfg = store_replace (credentials_from_config cfg) \<lparr>scs_by_access_key = Map.empty\<rparr>"

record reloadable =
  rl_registry :: backend_registry
  rl_credentials :: static_credential_store
  rl_limits :: limits_config

definition gateway_apply_config :: "gateway_config \<Rightarrow> reloadable \<Rightarrow> reloadable \<times> (gateway_error + unit)" where
  "gateway_apply_config cfg gw =
     (let credentials = credentials_from_config cfg in
      case registry_apply_config cfg (rl_registry gw) of
        Inl e \<Rightarrow> (gw, Inl e)
      | Inr reg \<Rightarrow>
          (gw\<lparr>rl_registry := reg, rl_credentials := store_replace credentials (rl_credentials gw),
              rl_limits := gc_limits cfg\<rparr>, Inr ()))"

fun decode_ring :: "string \<Rightarrow> (string \<Rightarrow> string res) \<Rightarrow> string btree \<Rightarrow> gateway_error + string btree" where
  "decode_ring what hex_decode [] = Inr []"
| "decode_ring what hex_decode ((kid, hex) # rest) =
     (case hex_decode hex of
        Inl e \<Rightarrow> Inl (Config (what @ '' master key '' @ kid @ '': '' @ e))
      | Inr key \<Rightarrow>
          (case decode_ring what hex_decode rest of Inl e \<Rightarrow> Inl e | Inr ks \<Rightarrow> Inr ((kid, key) # ks)))"

definition build_sts :: "(string \<Rightarrow> string res) \<Rightarrow> gateway_config \<Rightarrow> gateway_error + sts_authority" where
  "build_sts hex_decode cfg =
     (let (ring, current_kid) = sts_key_ring (gc_sts cfg) in
      case decode_ring ''sts'' hex_decode ring of
        Inl e \<Rightarrow> Inl e
      | Inr master_keys \<Rightarrow>
          (case hex_decode (st_signing_key_hex (gc_sts cfg)) of
             Inl e \<Rightarrow> Inl (Config (''sts signing_key_hex: '' @ e))
           | Inr signing \<Rightarrow> sts_with_key_ring master_keys current_kid signing))"

definition build_identity ::
  "(string \<Rightarrow> string res) \<Rightarrow> gateway_config \<Rightarrow> sts_authority \<Rightarrow> static_credential_store \<Rightarrow> backend_registry \<Rightarrow> bundle_store \<Rightarrow>
   gateway_error + identity" where
  "build_identity hex_decode cfg sts creds reg bundles =
     (case gc_derived_keys cfg of
        None \<Rightarrow> Inr \<lparr>id_sts = sts, id_creds = creds, id_derived = None\<rparr>
      | Some d \<Rightarrow>
          (let (ring, current_kid) = derived_key_ring d in
           case decode_ring ''derived_keys'' hex_decode ring of
             Inl e \<Rightarrow> Inl e
           | Inr master_keys \<Rightarrow>
               (case derived_with_key_ring master_keys current_kid of
                  Inl e \<Rightarrow> Inl e
                | Inr authority \<Rightarrow>
                    Inr \<lparr>id_sts = sts, id_creds = creds,
                         id_derived = Some \<lparr>dk_authority = authority, dk_tenants = organization_of reg,
                                            dk_epochs = store_key_epoch_floor bundles\<rparr>\<rparr>)))"

section \<open>What a routing table holds\<close>

lemma collect_map_Some: "collect_map kvs k = Some v \<Longrightarrow> (k, v) \<in> set kvs"
  by (auto simp: collect_map_def dest: map_of_SomeD)

lemma collect_map_None: "collect_map kvs k = None \<longleftrightarrow> k \<notin> fst ` set kvs"
  by (simp add: collect_map_def map_of_eq_None_iff)

lemma collect_map_image:
  "collect_map (map (\<lambda>x. (f x, g (h x))) xs) k = map_option g (collect_map (map (\<lambda>x. (f x, h x)) xs) k)"
proof -
  have "rev (map (\<lambda>x. (f x, g (h x))) xs) = map (\<lambda>(k, v). (k, g v)) (rev (map (\<lambda>x. (f x, h x)) xs))"
    by (simp add: rev_map comp_def)
  then show ?thesis by (simp add: collect_map_def map_of_map)
qed

definition route_entry :: "(string \<Rightarrow> backend_config option) \<Rightarrow> tenant_config list \<Rightarrow> tenant_config \<Rightarrow> tenant_route" where
  "route_entry backends all t =
     \<lparr>tr_backend = the (backends (tc_backend_id t)), tr_owner_access_key = tc_owner_access_key t,
      tr_owner_secret_key = tc_owner_secret_key t, tr_organization_id = tc_organization_id t,
      tr_shares_upstream_identity = (identity_count all (tc_backend_id t) (tc_owner_access_key t) > 1)\<rparr>"

lemma add_routes_spec:
  "add_routes backends all ts r0 = Inr r \<longleftrightarrow>
     (\<forall>t \<in> set ts. backends (tc_backend_id t) \<noteq> None) \<and>
     r = r0 ++ collect_map (map (\<lambda>t. (tc_tenant t, route_entry backends all t)) ts)"
proof (induction ts arbitrary: r0)
  case (Cons t ts)
  show ?case
  proof (cases "backends (tc_backend_id t)")
    case (Some b)
    then have "add_routes backends all (t # ts) r0 = add_routes backends all ts (r0(tc_tenant t \<mapsto> route_entry backends all t))"
      by (simp add: route_entry_def)
    moreover have "r0(a \<mapsto> x) ++ collect_map m = r0 ++ collect_map ((a, x) # m)" for a x m
      by (simp add: collect_map_def map_add_def fun_eq_iff split: option.splits)
    ultimately show ?thesis using Cons.IH Some by (simp only: list.map list.set ball_simps option.simps simp_thms)
  qed simp
qed (auto simp: collect_map_def)

lemma build_routes_spec:
  "build_routes cfg = Inr r \<longleftrightarrow>
     (\<forall>t \<in> set (gc_tenants cfg). tc_backend_id t \<in> set (map bc_id (gc_backends cfg))) \<and>
     r = collect_map (map (\<lambda>t. (tc_tenant t, route_entry (collect_map (map (\<lambda>b. (bc_id b, b)) (gc_backends cfg)))
                                              (gc_tenants cfg) t)) (gc_tenants cfg))"
proof -
  have "(\<exists>y. collect_map (map (\<lambda>b. (bc_id b, b)) (gc_backends cfg)) i = Some y) \<longleftrightarrow> i \<in> set (map bc_id (gc_backends cfg))" for i
    using collect_map_None [of "map (\<lambda>b. (bc_id b, b)) (gc_backends cfg)" i] by (auto simp: image_image)
  then show ?thesis by (simp add: build_routes_def add_routes_spec)
qed

lemma check_tenant_backends_ok: "check_tenant_backends known ts = Inr () \<longleftrightarrow> (\<forall>t \<in> set ts. known (tc_backend_id t))"
  by (induction ts) auto

lemma check_static_credentials_ok:
  "check_static_credentials org cs = Inr () \<longleftrightarrow>
     (\<forall>c \<in> set cs. \<not> is_sts_access_key (sr_access_key_id c) \<and> \<not> is_derived_access_key (sr_access_key_id c) \<and>
        org (sr_tenant c) = Some (sr_organization_id c))"
  by (induction cs) (auto simp: check_static_credential_def split: option.splits sum.splits if_splits)

lemma and_then_ok: "and_then a b = Inr () \<longleftrightarrow> a = Inr () \<and> b = Inr ()"
  by (cases a) (simp_all add: and_then_def)

section \<open>The pool holds the clients of the table in force\<close>

inductive reg_reach :: "backend_registry \<Rightarrow> bool" where
  start: "registry_from_config cfg = Inr reg \<Longrightarrow> reg_reach reg"
| applied: "reg_reach reg \<Longrightarrow> registry_apply_config cfg reg = Inr reg' \<Longrightarrow> reg_reach reg'"
| served: "reg_reach reg \<Longrightarrow> proxy_for snapshot reg = (reg', r) \<Longrightarrow> reg_reach reg'"

definition client_of :: "tenant_route \<Rightarrow> timeout_config \<Rightarrow> s3_client" where
  "client_of route timeouts =
     build_proxy (tr_backend route) (tr_owner_access_key route) (tr_owner_secret_key route) timeouts"

definition pool_ok :: "backend_registry \<Rightarrow> bool" where
  "pool_ok reg \<longleftrightarrow>
     (\<forall>backend tenant client. rg_pool reg (backend, tenant) = Some client \<longrightarrow>
        (\<exists>route. rg_routes reg tenant = Some route \<and> bc_id (tr_backend route) = backend \<and>
           client = client_of route (rg_timeouts reg)))"

lemma proxy_route_Inr:
  "proxy_route routes snapshot = Inr route \<longleftrightarrow>
     routes (rs_tenant snapshot) = Some route \<and> bc_id (tr_backend route) = rs_backend_id snapshot \<and>
     tr_shares_upstream_identity route = rs_shares_upstream_identity snapshot"
  by (auto simp: proxy_route_def split: option.splits)

lemma proxy_for_ok:
  assumes "pool_ok reg" "proxy_for snapshot reg = (reg', r)"
  shows "pool_ok reg' \<and> rg_routes reg' = rg_routes reg \<and> rg_timeouts reg' = rg_timeouts reg \<and>
    (case r of Inl _ \<Rightarrow> reg' = reg
     | Inr client \<Rightarrow> \<exists>route. proxy_route (rg_routes reg) snapshot = Inr route \<and> client = client_of route (rg_timeouts reg))"
proof (cases "proxy_route (rg_routes reg) snapshot")
  case (Inl e)
  with assms show ?thesis by (auto simp: proxy_for_def)
next
  case (Inr route)
  note route = Inr [unfolded proxy_route_Inr]
  show ?thesis
  proof (cases "rg_pool reg (bc_id (tr_backend route), rs_tenant snapshot)")
    case None
    with assms(2) Inr have "reg' = reg\<lparr>rg_pool := (rg_pool reg)((bc_id (tr_backend route), rs_tenant snapshot) \<mapsto>
        client_of route (rg_timeouts reg))\<rparr>" "r = Inr (client_of route (rg_timeouts reg))"
      by (auto simp: proxy_for_def pool_client_def Let_def client_of_def)
    with assms(1) Inr route show ?thesis
      by (auto simp: pool_ok_def split: if_splits)
  next
    case (Some p)
    with assms Inr route show ?thesis
      by (fastforce simp: proxy_for_def pool_client_def pool_ok_def)
  qed
qed

lemma reg_reach_pool_ok: "reg_reach reg \<Longrightarrow> pool_ok reg"
proof (induction rule: reg_reach.induct)
  case (start cfg reg)
  then show ?case by (auto simp: registry_from_config_def pool_ok_def split: sum.splits)
next
  case (applied reg cfg reg')
  then show ?case by (auto simp: registry_apply_config_def pool_ok_def split: sum.splits)
next
  case (served reg snapshot reg' r)
  then show ?case using proxy_for_ok by blast
qed

section \<open>The tenant directory\<close>

text \<open>The trait \<open>TenantDirectory\<close> next to the snapshots the access layer routes by: whatever answers both from one table
  attributes a derived key to the organization its request is routed for.\<close>

locale tenant_directory =
  fixes directory :: "'r \<Rightarrow> string \<Rightarrow> string option"
    and snapshot :: "'r \<Rightarrow> string \<Rightarrow> route_snapshot option"
  assumes one_table: "directory r t = map_option rs_organization_id (snapshot r t)"
    and own_name: "snapshot r t = Some s \<Longrightarrow> rs_tenant s = t"
begin

lemma derived_key_attribution:
  assumes "derived_resolve cr d akid = Some p" "dk_tenants d = directory r"
  shows "\<exists>s. snapshot r (rp_tenant p) = Some s \<and> rs_tenant s = rp_tenant p \<and> rs_organization_id s = rp_organization_id p"
  using assms by (auto simp: derived_resolve_def derived_admit_def one_table own_name split: option.splits if_splits)

end

interpretation registry_directory: tenant_directory organization_of route_snapshot_for
  by unfold_locales (auto simp: organization_of_def route_snapshot_for_def option.map_comp comp_def)

section \<open>Properties\<close>

definition demo_backend :: backend_config where
  "demo_backend = \<lparr>bc_id = ''b1'', bc_kind = Ceph, bc_endpoint_url = ''http://rgw'', bc_region = ''us-east-1'',
     bc_force_path_style = True, bc_profile = None\<rparr>"

definition demo_tenant :: "string \<Rightarrow> tenant_config" where
  "demo_tenant secret = \<lparr>tc_tenant = ''acme'', tc_organization_id = ''org1'', tc_backend_id = ''b1'',
     tc_owner_access_key = ''AK'', tc_owner_secret_key = secret\<rparr>"

definition demo_credential :: static_credential_config where
  "demo_credential = \<lparr>sr_access_key_id = ''EXT1'', sr_secret_access_key = ''s'', sr_principal_sub = ''sa1'', sr_tenant = ''acme'',
     sr_organization_id = ''org1'', sr_groups = []\<rparr>"

definition demo_config :: "string \<Rightarrow> gateway_config" where
  "demo_config secret =
     \<lparr>gc_listen = \<lparr>so_text = ''0.0.0.0:8014'', so_port = 8014\<rparr>, gc_admin_listen = \<lparr>so_text = ''0.0.0.0:8016'', so_port = 8016\<rparr>,
      gc_sts = \<lparr>st_master_key_hex = Some ''aa'', st_master_keys = [], st_current_kid = None, st_signing_key_hex = ''bb'',
                st_session_ttl_secs = 3600\<rparr>,
      gc_derived_keys = None, gc_pdp = PdpEmbedded 100000,
      gc_audit = \<lparr>af_sink_url = ''http://sink'', af_spill_path = ''/s'', af_backend = ControlPlane,
                  af_organization_label_key = ''org'', af_extra_labels = []\<rparr>,
      gc_limits = limits_default, gc_backends = [demo_backend],
      gc_tenants = [demo_tenant secret], gc_static_credentials = [demo_credential], gc_bundle_path = ''b.json'', gc_bundle_url = None,
      gc_bundle_poll_secs = 30, gc_bundle_timeout_secs = 10, gc_bundle_shared_secret = None, gc_sts_mint = None,
      gc_internal = None\<rparr>"

definition demo_registry :: "string \<Rightarrow> backend_registry" where
  "demo_registry secret =
     \<lparr>rg_routes = [''acme'' \<mapsto> \<lparr>tr_backend = demo_backend, tr_owner_access_key = ''AK'', tr_owner_secret_key = secret,
        tr_organization_id = ''org1'', tr_shares_upstream_identity = False\<rparr>],
      rg_pool = Map.empty, rg_timeouts = backend_timeouts limits_default\<rparr>"

definition demo_snapshot :: route_snapshot where
  "demo_snapshot = \<lparr>rs_tenant = ''acme'', rs_backend_id = ''b1'', rs_backend_kind = Ceph, rs_organization_id = ''org1'',
     rs_shares_upstream_identity = False\<rparr>"

lemma demo_routes: "build_routes (demo_config secret) = Inr (rg_routes (demo_registry secret))"
  by (simp add: build_routes_def demo_config_def collect_map_def demo_backend_def demo_tenant_def demo_registry_def identity_count_def)

lemma demo_registry_from_config: "registry_from_config (demo_config secret) = Inr (demo_registry secret)"
  by (simp add: registry_from_config_def demo_routes) (simp add: demo_registry_def demo_config_def)

text \<open>C33: A forward goes to the backend the request was authorized for, with that tenant's current credential. In every
  state reached by loading a configuration, applying others and serving requests, one at a time, a client handed out for a
  route snapshot is the one built from the tenant's entry in the routing table in force, on the backend and
  with the sharing of the upstream identity that the snapshot names.\<close>
theorem proxy_for_current_route:
  assumes "reg_reach reg" "proxy_for snapshot reg = (reg', Inr client)"
  shows "\<exists>route. rg_routes reg (rs_tenant snapshot) = Some route \<and>
    bc_id (tr_backend route) = rs_backend_id snapshot \<and>
    tr_shares_upstream_identity route = rs_shares_upstream_identity snapshot \<and>
    cl_access_key client = tr_owner_access_key route \<and> cl_secret_key client = tr_owner_secret_key route \<and>
    cl_endpoint_url client = bc_endpoint_url (tr_backend route)"
  using proxy_for_ok [OF reg_reach_pool_ok [OF assms(1)] assms(2)]
  by (auto simp: proxy_route_Inr client_of_def build_proxy_def)

theorem proxy_for_current_route_witness:
  "\<exists>reg' client. proxy_for demo_snapshot (demo_registry ''s1'') = (reg', Inr client) \<and> cl_secret_key client = ''s1''"
proof -
  let ?reg = "demo_registry ''s1''"
  have r: "reg_reach ?reg" using demo_registry_from_config by (rule reg_reach.start)
  obtain reg' client where p: "proxy_for demo_snapshot ?reg = (reg', Inr client)"
    by (simp add: proxy_for_def proxy_route_def demo_snapshot_def demo_registry_def demo_backend_def pool_client_def Let_def)
  from proxy_for_current_route [OF r p] have "cl_secret_key client = ''s1''"
    by (auto simp: demo_snapshot_def demo_registry_def)
  with p show ?thesis by blast
qed

text \<open>C39: A rotated secret can stay in use. A request reads the routing table; before it locks the pool, a configuration
  that still routes the tenant to the same backend is applied, which replaces the table and empties the pool; the request then
  builds its client from the route it read and pools it. From then on every request of that tenant is served with the
  secret of the replaced table, whatever secret the table in force has.\<close>
theorem pool_race_keeps_old_secret:
  assumes "proxy_route (rg_routes reg) snapshot = Inr old" "registry_apply_config cfg reg = Inr reg1"
    "pool_client old snapshot reg1 = (reg2, c)" "proxy_route (rg_routes reg1) snapshot = Inr new"
  shows "rg_routes reg2 (rs_tenant snapshot) = Some new \<and>
    (\<exists>client. proxy_for snapshot reg2 = (reg2, Inr client) \<and> cl_secret_key client = tr_owner_secret_key old)"
proof -
  have empty: "rg_pool reg1 = Map.empty"
    using assms(2) by (auto simp: registry_apply_config_def split: sum.splits)
  have same: "bc_id (tr_backend old) = bc_id (tr_backend new)"
    using assms(1,4) by (simp add: proxy_route_Inr)
  let ?c = "client_of old (rg_timeouts reg1)"
  have reg2: "reg2 = reg1\<lparr>rg_pool := [(bc_id (tr_backend new), rs_tenant snapshot) \<mapsto> ?c]\<rparr>"
    using assms(3) empty same by (auto simp: pool_client_def Let_def client_of_def)
  have "proxy_for snapshot reg2 = (reg2, Inr ?c)"
    using assms(4) by (simp add: proxy_for_def pool_client_def reg2)
  moreover have "rg_routes reg2 (rs_tenant snapshot) = Some new"
    using assms(4) by (simp add: proxy_route_Inr reg2)
  ultimately show ?thesis by (auto simp: client_of_def build_proxy_def)
qed

theorem pool_race_keeps_old_secret_witness:
  "\<exists>reg2 route client. rg_routes reg2 ''acme'' = Some route \<and> tr_owner_secret_key route = ''new'' \<and>
     proxy_for demo_snapshot reg2 = (reg2, Inr client) \<and> cl_secret_key client = ''old''"
proof -
  let ?route = "\<lambda>secret. \<lparr>tr_backend = demo_backend, tr_owner_access_key = ''AK'', tr_owner_secret_key = secret,
        tr_organization_id = ''org1'', tr_shares_upstream_identity = False\<rparr>"
  have a: "proxy_route (rg_routes (demo_registry secret)) demo_snapshot = Inr (?route secret)" for secret
    by (simp add: proxy_route_def demo_registry_def demo_snapshot_def demo_backend_def)
  have b: "registry_apply_config (demo_config ''new'') (demo_registry ''old'') = Inr (demo_registry ''new'')"
    by (simp add: registry_apply_config_def demo_routes) (simp add: demo_registry_def)
  obtain reg2 c where c: "pool_client (?route ''old'') demo_snapshot (demo_registry ''new'') = (reg2, c)"
    by (cases "pool_client (?route ''old'') demo_snapshot (demo_registry ''new'')")
  have t: "rs_tenant demo_snapshot = ''acme''" by (simp add: demo_snapshot_def)
  from pool_race_keeps_old_secret [OF a b c a] obtain client where
    "proxy_for demo_snapshot reg2 = (reg2, Inr client)" "cl_secret_key client = ''old''"
    "rg_routes reg2 ''acme'' = Some (?route ''new'')"
    unfolding t by auto
  then show ?thesis by (intro exI [of _ reg2] exI [of _ "?route ''new''"] exI [of _ client]) simp
qed



end
