(* ===== verification/S0_Audit.thy ===== *)
theory S0_Audit
  imports S0_Model
begin

text \<open>
  The audit trail: the record and its labels (\<open>audit/record.rs\<close>), the record held across the forward
  (\<open>audit/pending.rs\<close>), and the sink with its worker (\<open>audit/sink.rs\<close>): a bounded queue, batches, the spill
  file and the counters of what was lost.

  The spill file is its complete lines and a torn tail without a newline, which a failed write can leave. What the world
  decides, whether a batch ships, a file opens or a write completes, is an argument of each step; so is whether the
  gate budget, a token bucket over \<open>f64\<close>, has a token. Writing a record as JSON and reading it back are \<open>serde_json\<close>'s,
  and arguments. The counters are natural numbers.
\<close>

section \<open>Records\<close>

datatype outcome = OutcomeAllowed | OutcomeDenied | OutcomeError

datatype backend_outcome = NotAttempted | SucceededStatusUnknown | BackendFailed

datatype gate_stage = Anonymous | OperationNotEnforced | IdentityRejected | TenantNotRoutable

record gate_context =
  gx_operation :: string
  gx_stage :: gate_stage
  gx_access_key_id :: "string option"
  gx_tenant :: "string option"
  gx_suppressed_since_last :: nat

record gateway_meta =
  gm_backend_id :: string
  gm_backend_kind :: string
  gm_outcome :: outcome
  gm_denied_keys :: "string list"
  gm_backend :: backend_outcome
  gm_backend_status :: "nat option"
  gm_object_name :: "string option"
  gm_copy_source_object_name :: "string option"

record audit_record =
  ar_decision_id :: string
  ar_path :: string
  ar_input :: "opa_input option"
  ar_gate :: "gate_context option"
  ar_result :: decision
  ar_requested_by :: string
  ar_timestamp :: string
  ar_labels :: "string btree"
  ar_gateway :: gateway_meta

definition default_org_label_key :: string where
  "default_org_label_key = ''s0/organization-id''"

definition decision_path :: string where
  "decision_path = ''s3/authz/decision''"

definition gate_path :: string where
  "gate_path = ''s3/authz/gate''"

record label_policy =
  lp_organization_key :: string
  lp_extra :: "string btree"

definition policy_labels :: "label_policy \<Rightarrow> string option \<Rightarrow> string btree" where
  "policy_labels lp organization_id =
     (case organization_id of
        None \<Rightarrow> lp_extra lp
      | Some org \<Rightarrow> btree_insert (lp_organization_key lp) org (lp_extra lp))"

definition label_policy_default :: label_policy where
  "label_policy_default = \<lparr>lp_organization_key = default_org_label_key, lp_extra = []\<rparr>"

definition audit_record_new ::
  "string \<Rightarrow> string \<Rightarrow> opa_input \<Rightarrow> decision \<Rightarrow> gateway_meta \<Rightarrow> label_policy \<Rightarrow> audit_record" where
  "audit_record_new decision_id timestamp input result gateway labels =
     \<lparr>ar_decision_id = decision_id, ar_path = decision_path, ar_input = Some input, ar_gate = None, ar_result = result,
      ar_requested_by = p_sub (oi_principal input), ar_timestamp = timestamp,
      ar_labels = policy_labels labels (Some (oi_organization_id input)), ar_gateway = gateway\<rparr>"

definition audit_gate_record ::
  "string \<Rightarrow> string \<Rightarrow> gate_context \<Rightarrow> string \<Rightarrow> string \<Rightarrow> label_policy \<Rightarrow> audit_record" where
  "audit_gate_record decision_id timestamp gate reason requested_by labels =
     \<lparr>ar_decision_id = decision_id, ar_path = gate_path, ar_input = None, ar_gate = Some gate,
      ar_result = decision_deny reason, ar_requested_by = requested_by, ar_timestamp = timestamp,
      ar_labels = policy_labels labels None,
      ar_gateway = \<lparr>gm_backend_id = [], gm_backend_kind = [], gm_outcome = OutcomeDenied, gm_denied_keys = [],
                    gm_backend = NotAttempted, gm_backend_status = None, gm_object_name = None,
                    gm_copy_source_object_name = None\<rparr>\<rparr>"

definition record_settle :: "backend_outcome \<Rightarrow> nat option \<Rightarrow> audit_record \<Rightarrow> audit_record" where
  "record_settle backend backend_status r =
     r\<lparr>ar_gateway := (ar_gateway r)
        \<lparr>gm_backend := backend, gm_backend_status := backend_status,
         gm_outcome := (if backend = BackendFailed then OutcomeError else gm_outcome (ar_gateway r))\<rparr>\<rparr>"

section \<open>A pending record\<close>

text \<open>\<open>PendingAudit\<close> is the record while it is held; what is emitted is the second component.\<close>

type_synonym pending_audit = "audit_record option"

definition pending_new :: "audit_record \<Rightarrow> pending_audit" where
  "pending_new r = Some r"

definition pending_settle :: "backend_outcome \<Rightarrow> nat option \<Rightarrow> pending_audit \<Rightarrow> pending_audit \<times> audit_record list" where
  "pending_settle backend status p =
     (case p of None \<Rightarrow> (None, []) | Some r \<Rightarrow> (None, [record_settle backend status r]))"

definition pending_decision_id :: "pending_audit \<Rightarrow> string option" where
  "pending_decision_id p = map_option ar_decision_id p"

definition pending_drop :: "pending_audit \<Rightarrow> audit_record list" where
  "pending_drop p = (case p of None \<Rightarrow> [] | Some r \<Rightarrow> [r])"

section \<open>The sink\<close>

definition max_spill_bytes :: nat where
  "max_spill_bytes = 64 * 1024 * 1024"

record audit_metrics =
  am_queue_dropped :: nat
  am_shipped :: nat
  am_post_failures :: nat
  am_spilled :: nat
  am_spill_dropped :: nat
  am_spill_replayed :: nat
  am_spill_abandoned :: nat
  am_gate_suppressed :: nat

definition metrics_default :: audit_metrics where
  "metrics_default = \<lparr>am_queue_dropped = 0, am_shipped = 0, am_post_failures = 0, am_spilled = 0, am_spill_dropped = 0,
     am_spill_replayed = 0, am_spill_abandoned = 0, am_gate_suppressed = 0\<rparr>"

definition dropped_total :: "audit_metrics \<Rightarrow> nat" where
  "dropped_total m = am_queue_dropped m + am_spill_dropped m + am_spill_abandoned m"

record spill_file =
  sf_lines :: "string list"
  sf_torn :: string

definition spill_empty :: spill_file where
  "spill_empty = \<lparr>sf_lines = [], sf_torn = []\<rparr>"

record audit_state =
  as_queue :: "audit_record list"
  as_closed :: bool
  as_suppressed :: nat
  as_buf :: "audit_record list"
  as_spill :: spill_file
  as_metrics :: audit_metrics
  as_running :: bool

record audit_config =
  ac_queue_capacity :: nat
  ac_batch_max :: nat
  ac_to_string :: "audit_record \<Rightarrow> string option"
  ac_from_str :: "string \<Rightarrow> audit_record option"

definition audit_spawn :: "spill_file \<Rightarrow> audit_state" where
  "audit_spawn spill =
     \<lparr>as_queue = [], as_closed = False, as_suppressed = 0, as_buf = [], as_spill = spill, as_metrics = metrics_default,
      as_running = True\<rparr>"

definition sink_emit :: "audit_config \<Rightarrow> audit_record \<Rightarrow> audit_state \<Rightarrow> audit_state" where
  "sink_emit cfg r s =
     (if as_closed s \<or> length (as_queue s) \<ge> ac_queue_capacity cfg then
        s\<lparr>as_metrics := (as_metrics s)\<lparr>am_queue_dropped := am_queue_dropped (as_metrics s) + 1\<rparr>\<rparr>
      else s\<lparr>as_queue := as_queue s @ [r]\<rparr>)"

text \<open>\<open>GateBudget::take\<close>: \<open>token\<close> says whether the bucket holds one.\<close>

definition gate_take :: "bool \<Rightarrow> nat \<Rightarrow> nat option \<times> nat" where
  "gate_take token suppressed = (if token then (Some suppressed, 0) else (None, suppressed + 1))"

definition emit_gate_denial :: "audit_config \<Rightarrow> bool \<Rightarrow> audit_record \<Rightarrow> audit_state \<Rightarrow> audit_state" where
  "emit_gate_denial cfg token r s =
     (case gate_take token (as_suppressed s) of
        (None, n) \<Rightarrow>
          s\<lparr>as_suppressed := n,
            as_metrics := (as_metrics s)\<lparr>am_gate_suppressed := am_gate_suppressed (as_metrics s) + 1\<rparr>\<rparr>
      | (Some suppressed, n) \<Rightarrow>
          sink_emit cfg (r\<lparr>ar_gate := map_option (\<lambda>g. g\<lparr>gx_suppressed_since_last := suppressed\<rparr>) (ar_gate r)\<rparr>)
            (s\<lparr>as_suppressed := n\<rparr>))"

section \<open>Who owns the spill file\<close>

text \<open>
  The owner markers on the disk, by path. A marker that cannot be read or written leaves the configured path in use,
  which is the error branch of \<open>claim\<close>; \<open>io\<close> says whether the disk answers.
\<close>

definition path_split :: "string \<Rightarrow> string \<times> string" where
  "path_split p = (case rsplit_once CHR ''/'' p of None \<Rightarrow> ([], p) | Some (dir, name) \<Rightarrow> (dir @ ''/'', name))"

text \<open>\<open>file_stem\<close> and \<open>extension\<close>: split at the last dot, unless it is the first character or there is none.\<close>

definition stem_ext :: "string \<Rightarrow> string \<times> string option" where
  "stem_ext name =
     (case rsplit_once CHR ''.'' name of
        None \<Rightarrow> (name, None)
      | Some (stem, ext) \<Rightarrow> if stem = [] then (name, None) else (stem, Some ext))"

definition sanitize :: "string \<Rightarrow> string" where
  "sanitize inst = map (\<lambda>c. if is_alphanumeric c \<or> c = CHR ''-'' \<or> c = CHR ''_'' then c else CHR ''_'') inst"

definition instance_unique :: "string \<Rightarrow> string \<Rightarrow> string" where
  "instance_unique p inst =
     fst (path_split p) @
     (case stem_ext (snd (path_split p)) of
        (stem, Some ext) \<Rightarrow> stem @ ''.'' @ sanitize inst @ ''.'' @ ext
      | (stem, None) \<Rightarrow> stem @ ''.'' @ sanitize inst)"

definition owner_marker :: "string \<Rightarrow> string" where
  "owner_marker p = p @ ''.owner''"

definition claim :: "string \<Rightarrow> string \<Rightarrow> (string \<rightharpoonup> string) \<Rightarrow> (string \<rightharpoonup> string) \<times> bool" where
  "claim p inst disk =
     (case disk (owner_marker p) of
        None \<Rightarrow> (disk(owner_marker p \<mapsto> inst), True)
      | Some m \<Rightarrow> (disk, trim m = inst))"

definition claim_spill_path ::
  "bool \<Rightarrow> string \<Rightarrow> string \<Rightarrow> (string \<rightharpoonup> string) \<Rightarrow> (string \<rightharpoonup> string) \<times> string"
where
  "claim_spill_path io configured inst disk =
     (if \<not> io then (disk, configured)
      else case claim configured inst disk of
        (disk1, True) \<Rightarrow> (disk1, configured)
      | (disk1, False) \<Rightarrow>
          let unique = instance_unique configured inst
          in (fst (claim unique inst disk1), unique))"

section \<open>The worker\<close>

text \<open>
  What the file system does to one \<open>write_all\<close>: complete, or fail after whole lines and a torn one. The failure is
  reported to the caller, which is what \<open>write_all\<close> promises.
\<close>

datatype write_outcome = Written | WriteFailed nat string

record spill_io =
  io_metadata_ok :: bool
  io_open_ok :: bool
  io_write :: write_outcome
  io_read_ok :: bool
  io_remove_ok :: bool

definition spill_size :: "spill_file \<Rightarrow> nat" where
  "spill_size f = sum_list (map (\<lambda>l. length l + 1) (sf_lines f)) + length (sf_torn f)"

text \<open>Appending lines, each with its newline: a torn tail becomes the start of the first of them.\<close>

fun spill_append :: "string list \<Rightarrow> spill_file \<Rightarrow> spill_file" where
  "spill_append [] f = f"
| "spill_append (l # ls) f = f\<lparr>sf_lines := sf_lines f @ (sf_torn f @ l) # ls, sf_torn := []\<rparr>"

definition spill_tear :: "string \<Rightarrow> spill_file \<Rightarrow> spill_file" where
  "spill_tear t f = f\<lparr>sf_torn := sf_torn f @ t\<rparr>"

fun spill_write :: "write_outcome \<Rightarrow> string list \<Rightarrow> spill_file \<Rightarrow> spill_file" where
  "spill_write Written ls f = spill_append ls f"
| "spill_write (WriteFailed n t) ls f = spill_tear t (spill_append (take n ls) f)"

text \<open>\<open>contents.lines().filter(|l| !l.trim().is_empty())\<close>.\<close>

definition spill_contents :: "spill_file \<Rightarrow> string list" where
  "spill_contents f =
     filter (\<lambda>l. trim l \<noteq> []) (sf_lines f @ (if sf_torn f = [] then [] else [sf_torn f]))"

definition count_spill_lines :: "spill_io \<Rightarrow> spill_file \<Rightarrow> nat" where
  "count_spill_lines io f = (if io_read_ok io then length (spill_contents f) else 0)"

definition add_spill_dropped :: "nat \<Rightarrow> audit_state \<Rightarrow> audit_state" where
  "add_spill_dropped n s =
     s\<lparr>as_metrics := (as_metrics s)\<lparr>am_spill_dropped := am_spill_dropped (as_metrics s) + n\<rparr>\<rparr>"

definition add_post_failure :: "audit_state \<Rightarrow> audit_state" where
  "add_post_failure s =
     s\<lparr>as_metrics := (as_metrics s)\<lparr>am_post_failures := am_post_failures (as_metrics s) + 1\<rparr>\<rparr>"

definition worker_spill :: "audit_config \<Rightarrow> spill_io \<Rightarrow> audit_record list \<Rightarrow> audit_state \<Rightarrow> audit_state" where
  "worker_spill cfg io batch s =
     (let lines = List.map_filter (ac_to_string cfg) batch;
          serialized = length lines;
          s1 = add_spill_dropped (length batch - serialized) s
      in if io_metadata_ok io \<and> spill_size (as_spill s1) > max_spill_bytes then add_spill_dropped serialized s1
         else if \<not> io_open_ok io then add_spill_dropped serialized s1
         else let s2 = s1\<lparr>as_spill := spill_write (io_write io) lines (as_spill s1)\<rparr>
              in if io_write io = Written then
                   s2\<lparr>as_metrics := (as_metrics s2)\<lparr>am_spilled := am_spilled (as_metrics s2) + serialized\<rparr>\<rparr>
                 else add_spill_dropped serialized s2)"

text \<open>\<open>ship\<close> is whether the backend took the batch.\<close>

definition worker_flush :: "audit_config \<Rightarrow> spill_io \<Rightarrow> bool \<Rightarrow> audit_state \<Rightarrow> audit_state" where
  "worker_flush cfg io ship s =
     (if as_buf s = [] then s
      else let batch = as_buf s; s1 = s\<lparr>as_buf := []\<rparr>
           in if ship then
                s1\<lparr>as_metrics := (as_metrics s1)\<lparr>am_shipped := am_shipped (as_metrics s1) + length batch\<rparr>\<rparr>
              else worker_spill cfg io batch (add_post_failure s1))"

definition worker_replay_spill :: "audit_config \<Rightarrow> spill_io \<Rightarrow> bool \<Rightarrow> audit_state \<Rightarrow> audit_state" where
  "worker_replay_spill cfg io ship s =
     (let contents = spill_contents (as_spill s)
      in if \<not> io_read_ok io \<or> contents = [] then s
         else let batch = List.map_filter (ac_from_str cfg) contents;
                  unparseable = length contents - length batch;
                  s1 = add_spill_dropped unparseable s;
                  removed = (\<lambda>s. if io_remove_ok io then s\<lparr>as_spill := spill_empty\<rparr> else s)
              in if batch = [] then removed s1
                 else if ship then
                   (removed s1)\<lparr>as_metrics := (as_metrics s1)
                      \<lparr>am_spill_replayed := am_spill_replayed (as_metrics s1) + length batch,
                       am_shipped := am_shipped (as_metrics s1) + length batch\<rparr>\<rparr>
                 else add_post_failure s1)"

definition worker_finish :: "audit_config \<Rightarrow> spill_io \<Rightarrow> bool \<Rightarrow> audit_state \<Rightarrow> audit_state" where
  "worker_finish cfg io ship s =
     (let s1 = worker_replay_spill cfg io ship s
      in s1\<lparr>as_running := False, as_closed := True,
            as_metrics := (as_metrics s1)\<lparr>am_spill_abandoned :=
               am_spill_abandoned (as_metrics s1) + count_spill_lines io (as_spill s1)\<rparr>\<rparr>)"

text \<open>
  The arms of the loop's \<open>select!\<close>. Each flush meets its own world, so the drain takes one answer per record. Once the
  worker has returned its receiver is gone, and a later send fails as on a closed channel.
\<close>

definition worker_recv :: "audit_config \<Rightarrow> spill_io \<Rightarrow> bool \<Rightarrow> audit_state \<Rightarrow> audit_state" where
  "worker_recv cfg io ship s =
     (case as_queue s of
        [] \<Rightarrow> s
      | r # q \<Rightarrow>
          let s1 = s\<lparr>as_queue := q, as_buf := as_buf s @ [r]\<rparr>
          in if length (as_buf s1) \<ge> ac_batch_max cfg then worker_flush cfg io ship s1 else s1)"

definition worker_tick :: "audit_config \<Rightarrow> spill_io \<times> bool \<Rightarrow> spill_io \<times> bool \<Rightarrow> audit_state \<Rightarrow> audit_state" where
  "worker_tick cfg e1 e2 s =
     worker_replay_spill cfg (fst e2) (snd e2) (worker_flush cfg (fst e1) (snd e1) s)"

fun worker_drain :: "audit_config \<Rightarrow> (nat \<Rightarrow> spill_io \<times> bool) \<Rightarrow> nat \<Rightarrow> audit_state \<Rightarrow> audit_state" where
  "worker_drain cfg world 0 s = s"
| "worker_drain cfg world (Suc n) s = worker_drain cfg world n (worker_recv cfg (fst (world n)) (snd (world n)) s)"

definition worker_shutdown ::
  "audit_config \<Rightarrow> (nat \<Rightarrow> spill_io \<times> bool) \<Rightarrow> spill_io \<times> bool \<Rightarrow> spill_io \<times> bool \<Rightarrow> audit_state \<Rightarrow> audit_state"
where
  "worker_shutdown cfg world e1 e2 s =
     worker_finish cfg (fst e2) (snd e2)
       (worker_flush cfg (fst e1) (snd e1) (worker_drain cfg world (length (as_queue s)) s))"

section \<open>What happens to a record\<close>

text \<open>The runs of a sink and its worker, with the number of records handed to the sink so far.\<close>

inductive audit_reach :: "audit_config \<Rightarrow> audit_state \<Rightarrow> nat \<Rightarrow> bool" for cfg where
  spawned: "audit_reach cfg (audit_spawn spill) 0"
| emitted: "audit_reach cfg s n \<Longrightarrow> audit_reach cfg (sink_emit cfg r s) (Suc n)"
| gated: "audit_reach cfg s n \<Longrightarrow> audit_reach cfg (emit_gate_denial cfg token r s) (Suc n)"
| received: "audit_reach cfg s n \<Longrightarrow> as_running s \<Longrightarrow> audit_reach cfg (worker_recv cfg io ship s) n"
| ticked: "audit_reach cfg s n \<Longrightarrow> as_running s \<Longrightarrow> audit_reach cfg (worker_tick cfg e1 e2 s) n"
| stopped: "audit_reach cfg s n \<Longrightarrow> as_running s \<Longrightarrow> audit_reach cfg (worker_shutdown cfg world e1 e2 s) n"

definition settled_records :: "audit_state \<Rightarrow> nat" where
  "settled_records s =
     am_shipped (as_metrics s) + dropped_total (as_metrics s) + am_gate_suppressed (as_metrics s)"

definition nonblank :: "string \<Rightarrow> bool" where
  "nonblank l \<longleftrightarrow> trim l \<noteq> []"

definition accounted :: "audit_state \<Rightarrow> nat" where
  "accounted s =
     length (as_queue s) + length (as_buf s) + length (filter nonblank (sf_lines (as_spill s))) + settled_records s"

text \<open>A written record is a line with something on it.\<close>

definition writes_lines :: "audit_config \<Rightarrow> bool" where
  "writes_lines cfg \<longleftrightarrow> (\<forall>r l. ac_to_string cfg r = Some l \<longrightarrow> nonblank l)"

named_theorems audit_defs

lemmas audit_counters [audit_defs] =
  accounted_def settled_records_def dropped_total_def add_spill_dropped_def add_post_failure_def spill_tear_def

lemma dropWhile_all: "(\<forall>x \<in> set (dropWhile P l). P x) \<longleftrightarrow> (\<forall>x \<in> set l. P x)"
  by (induction l) auto

lemma nonblank_iff: "nonblank l \<longleftrightarrow> \<not> list_all is_space l"
  unfolding nonblank_def trim_def by (simp add: list_all_iff dropWhile_all)

lemma nonblank_append: "nonblank l \<Longrightarrow> nonblank (t @ l)"
  by (simp add: nonblank_iff)

lemma map_filter_length: "length (List.map_filter f xs) \<le> length xs"
  by (induction xs) (simp_all add: List.map_filter_simps split: option.splits)

lemma spill_append_pending:
  assumes "list_all nonblank ls"
  shows "length (filter nonblank (sf_lines (spill_append ls f))) = length (filter nonblank (sf_lines f)) + length ls"
  using assms by (cases ls) (auto simp: nonblank_append list_all_iff)

lemma spill_write_pending:
  assumes "list_all nonblank ls"
  shows "length (filter nonblank (sf_lines f)) + (if e = Written then length ls else 0)
           \<le> length (filter nonblank (sf_lines (spill_write e ls f)))"
proof (cases e)
  case (WriteFailed n t)
  have "list_all nonblank (take n ls)"
    using assms by (auto simp: list_all_iff dest: in_set_takeD)
  then show ?thesis
    using WriteFailed by (simp add: spill_tear_def spill_append_pending)
qed (simp add: assms spill_append_pending)

lemma spill_contents_pending: "length (filter nonblank (sf_lines f)) \<le> length (spill_contents f)"
  unfolding spill_contents_def nonblank_def by simp

lemma written_lines_nonblank:
  assumes "writes_lines cfg"
  shows "list_all nonblank (List.map_filter (ac_to_string cfg) batch)"
  using assms unfolding writes_lines_def
  by (induction batch) (simp_all add: List.map_filter_simps split: option.splits)

lemma worker_spill_accounted:
  assumes "writes_lines cfg"
  shows "accounted s + length batch \<le> accounted (worker_spill cfg io batch s)"
  using map_filter_length [of "ac_to_string cfg" batch]
    spill_write_pending [OF written_lines_nonblank [OF assms], where f = "as_spill s" and e = "io_write io" and batch1 = batch]
  unfolding worker_spill_def Let_def by (auto simp: audit_defs)

lemma worker_flush_accounted:
  assumes "writes_lines cfg"
  shows "accounted s \<le> accounted (worker_flush cfg io ship s)"
  using worker_spill_accounted [OF assms, where s = "add_post_failure (s\<lparr>as_buf := []\<rparr>)" and batch = "as_buf s" and io = io]
  unfolding worker_flush_def Let_def by (auto simp: audit_defs)

lemma worker_replay_accounted: "accounted s \<le> accounted (worker_replay_spill cfg io ship s)"
  using map_filter_length [of "ac_from_str cfg" "spill_contents (as_spill s)"]
    spill_contents_pending [of "as_spill s"]
  unfolding worker_replay_spill_def Let_def by (auto simp: audit_defs spill_empty_def)

lemma worker_finish_accounted: "accounted s \<le> accounted (worker_finish cfg io ship s)"
  using worker_replay_accounted [of s cfg io ship] unfolding worker_finish_def Let_def by (simp add: audit_defs)

lemma worker_recv_accounted:
  assumes "writes_lines cfg"
  shows "accounted s \<le> accounted (worker_recv cfg io ship s)"
proof (cases "as_queue s")
  case (Cons r q)
  then show ?thesis
    using worker_flush_accounted [OF assms, where s = "s\<lparr>as_queue := q, as_buf := as_buf s @ [r]\<rparr>" and io = io and ship = ship]
    unfolding worker_recv_def Let_def by (simp add: audit_defs)
qed (simp add: worker_recv_def)

lemma worker_drain_accounted:
  assumes "writes_lines cfg"
  shows "accounted s \<le> accounted (worker_drain cfg world n s)"
proof (induction n arbitrary: s)
  case (Suc n)
  show ?case
    using le_trans [OF worker_recv_accounted [OF assms] Suc.IH] by simp
qed simp

lemma worker_shutdown_accounted:
  assumes "writes_lines cfg"
  shows "accounted s \<le> accounted (worker_shutdown cfg world e1 e2 s)"
  unfolding worker_shutdown_def
  using worker_drain_accounted [OF assms] worker_flush_accounted [OF assms] worker_finish_accounted le_trans by metis

lemma emit_accounted: "Suc (accounted s) = accounted (sink_emit cfg r s)"
  unfolding sink_emit_def by (simp add: audit_defs)

lemma gate_accounted: "Suc (accounted s) = accounted (emit_gate_denial cfg token r s)"
proof (cases token)
  case True
  then show ?thesis
    unfolding emit_gate_denial_def gate_take_def by (simp flip: emit_accounted) (simp add: audit_defs)
qed (simp add: emit_gate_denial_def gate_take_def audit_defs)

lemma reach_accounted:
  assumes "audit_reach cfg s n" and "writes_lines cfg"
  shows "n \<le> accounted s"
  using assms
proof (induction rule: audit_reach.induct)
  case (emitted s n r)
  then show ?case using emit_accounted [of s cfg r] by simp
next
  case (gated s n token r)
  then show ?case using gate_accounted [of s cfg token r] by simp
next
  case (received s n io ship)
  then show ?case using worker_recv_accounted [of cfg s io ship] by simp
next
  case (ticked s n e1 e2)
  then show ?case
    using worker_flush_accounted [of cfg s "fst e1" "snd e1"]
      worker_replay_accounted [of "worker_flush cfg (fst e1) (snd e1) s" cfg "fst e2" "snd e2"]
    by (simp add: worker_tick_def)
next
  case (stopped s n world e1 e2)
  then show ?case using worker_shutdown_accounted [of cfg s world e1 e2] by simp
qed simp

lemma worker_flush_queue: "as_queue (worker_flush cfg io ship s) = as_queue s" "as_buf (worker_flush cfg io ship s) = []"
  by (simp_all add: worker_flush_def worker_spill_def Let_def add_spill_dropped_def add_post_failure_def)

lemma worker_recv_queue: "as_queue (worker_recv cfg io ship s) = tl (as_queue s)"
  by (simp add: worker_recv_def Let_def worker_flush_queue split: list.splits)

lemma worker_drain_queue: "n = length (as_queue s) \<Longrightarrow> as_queue (worker_drain cfg world n s) = []"
proof (induction n arbitrary: s)
  case (Suc n)
  have "n = length (as_queue (worker_recv cfg (fst (world n)) (snd (world n)) s))"
    using Suc.prems by (simp add: worker_recv_queue)
  from Suc.IH [OF this] show ?case by simp
qed simp

lemma worker_replay_queue:
  "as_queue (worker_replay_spill cfg io ship s) = as_queue s" "as_buf (worker_replay_spill cfg io ship s) = as_buf s"
  by (simp_all add: worker_replay_spill_def Let_def add_spill_dropped_def add_post_failure_def)

lemma worker_finish_settles:
  assumes "as_queue s = []" and "as_buf s = []" and "io_read_ok io"
  shows "accounted s \<le> settled_records (worker_finish cfg io ship s)"
  using assms worker_replay_accounted [of s cfg io ship]
    spill_contents_pending [of "as_spill (worker_replay_spill cfg io ship s)"]
  unfolding worker_finish_def Let_def
  by (simp add: accounted_def worker_replay_queue count_spill_lines_def settled_records_def dropped_total_def)

lemma worker_shutdown_settles:
  assumes "writes_lines cfg" and "io_read_ok (fst e2)"
  shows "accounted s \<le> settled_records (worker_shutdown cfg world e1 e2 s)"
  unfolding worker_shutdown_def
  by (rule order_trans [OF order_trans [OF worker_drain_accounted [OF assms(1)] worker_flush_accounted [OF assms(1)]]
        worker_finish_settles])
     (simp_all add: worker_flush_queue worker_drain_queue assms)

lemma path_split_append: "fst (path_split p) @ snd (path_split p) = p"
  by (auto simp: path_split_def rsplit_once_Some split: option.splits)

lemma instance_unique_longer: "length p < length (instance_unique p inst)"
proof -
  let ?n = "snd (path_split p)"
  have "length (fst (path_split p)) + length ?n = length p"
    using path_split_append [of p] by (metis length_append)
  moreover have "length ?n < length (case stem_ext ?n of
       (stem, Some ext) \<Rightarrow> stem @ ''.'' @ sanitize inst @ ''.'' @ ext | (stem, None) \<Rightarrow> stem @ ''.'' @ sanitize inst)"
    by (auto simp: stem_ext_def rsplit_once_Some split: option.splits)
  ultimately show ?thesis
    unfolding instance_unique_def length_append by linarith
qed

lemma instance_unique_inj: "sanitize i \<noteq> sanitize j \<Longrightarrow> instance_unique p i \<noteq> instance_unique p j"
  unfolding instance_unique_def by (auto split: prod.splits option.splits)

lemma claim_spill_path_cases:
  assumes "claim_spill_path True configured i disk = (disk1, p)" and "trim i = i"
  shows "p = instance_unique configured i \<or>
    p = configured \<and> (\<exists>m. disk1 (owner_marker configured) = Some m \<and> trim m = i) \<and>
      (\<forall>m. disk (owner_marker configured) = Some m \<longrightarrow> trim m = i)"
  using assms by (auto simp: claim_spill_path_def claim_def Let_def split: option.splits if_splits bool.splits prod.splits)

section \<open>Properties\<close>


text \<open>Two replicas configured with one spill path never use the same file, whatever markers were on the disk,
  provided their names stay apart once the characters outside letters, digits, dash and underscore are replaced.\<close>

theorem spill_path_exclusive:
  assumes "i \<noteq> j" and "trim i = i" and "trim j = j" and "sanitize i \<noteq> sanitize j"
    and "claim_spill_path True configured i disk = (disk1, p)" and "claim_spill_path True configured j disk1 = (disk2, q)"
  shows "p \<noteq> q"
  using claim_spill_path_cases [OF assms(5,2)] claim_spill_path_cases [OF assms(6,3)] assms(1)
    instance_unique_longer [of configured i] instance_unique_longer [of configured j]
    instance_unique_inj [OF assms(4), of configured]
  by auto

theorem spill_path_exclusive_witness:
  "snd (claim_spill_path True ''/s'' ''a'' Map.empty) \<noteq>
   snd (claim_spill_path True ''/s'' ''b'' (fst (claim_spill_path True ''/s'' ''a'' Map.empty)))"
  by (rule spill_path_exclusive [of "''a''" "''b''" "''/s''" Map.empty
        "fst (claim_spill_path True ''/s'' ''a'' Map.empty)" _
        "fst (claim_spill_path True ''/s'' ''b'' (fst (claim_spill_path True ''/s'' ''a'' Map.empty)))"])
     (simp_all add: trim_def is_space_def sanitize_def is_alphanumeric_def is_alpha_def is_lower_def)

text \<open>Without that proviso two replicas do share one: each loses the configured path to a third, and both take the
  path their names are replaced to, the second one ignoring that it is claimed.\<close>

lemma spill_path_collision:
  "snd (claim_spill_path True ''/s.x'' ''a.b'' [''/s.x.owner'' \<mapsto> ''c'']) =
   snd (claim_spill_path True ''/s.x'' ''a_b''
     (fst (claim_spill_path True ''/s.x'' ''a.b'' [''/s.x.owner'' \<mapsto> ''c''])))"
  by code_simp

definition demo_audit_config :: audit_config where
  "demo_audit_config = \<lparr>ac_queue_capacity = 1, ac_batch_max = 8, ac_to_string = (\<lambda>r. Some ''{}''), ac_from_str = (\<lambda>l. None)\<rparr>"

definition demo_io :: spill_io where
  "demo_io = \<lparr>io_metadata_ok = True, io_open_ok = True, io_write = WriteFailed 0 ''{'', io_read_ok = True, io_remove_ok = True\<rparr>"

definition demo_gate_record :: audit_record where
  "demo_gate_record =
     audit_gate_record ''1'' ''now''
       \<lparr>gx_operation = ''PutObject'', gx_stage = Anonymous, gx_access_key_id = None, gx_tenant = None, gx_suppressed_since_last = 0\<rparr>
       ''no credentials'' ''anonymous'' label_policy_default"

definition demo_audit_state :: audit_state where
  "demo_audit_state =
     sink_emit demo_audit_config demo_gate_record (sink_emit demo_audit_config demo_gate_record (audit_spawn spill_empty))"

lemma demo_audit_reach: "audit_reach demo_audit_config demo_audit_state (Suc (Suc 0))"
  unfolding demo_audit_state_def by (intro audit_reach.intros)

lemma demo_audit_facts:
  "writes_lines demo_audit_config" "as_running demo_audit_state" "io_read_ok (fst (demo_io, False))"
  by (simp_all add: writes_lines_def nonblank_iff demo_audit_config_def demo_io_def is_space_def
      demo_audit_state_def sink_emit_def audit_spawn_def)


end
