(* ===== verification/S0_Access.thy ===== *)
theory S0_Access
  imports S0_Optable S0_Headers S0_Listing S0_Registry S0_Audit
begin

text \<open>
  The access layer (\<open>access/mod.rs\<close> and \<open>access/proof.rs\<close>): the check every request passes, the enforce helpers, and
  one hook per operation.

  A hook runs on a state of its own: the extensions of its request, the questions it has asked the policy engine with
  their verdicts, and the audit records it has emitted. What it shares with every other request, the bundle, the routing
  table, the limits and the quota ledger, is the \<open>gateway_state\<close>, and a hook that awaits an answer may find all of it
  changed: the policy engine and the sizing of a copy source are functions from the shared state to the shared state and
  an answer. Decision ids and timestamps are functions of a serial number.
\<close>

section \<open>The request and what rides with it\<close>

record extensions =
  ex_principal :: "resolved_principal option"
  ex_route :: "route_snapshot option"
  ex_placement :: "bucket_placement option"
  ex_operation :: "string option"
  ex_proof :: "string option"
  ex_obligations :: "response_obligations option"
  ex_pending :: "pending_audit option"
  ex_reservation :: "quota_reservation option"

definition extensions_new :: extensions where
  "extensions_new =
     \<lparr>ex_principal = None, ex_route = None, ex_placement = None, ex_operation = None, ex_proof = None,
      ex_obligations = None, ex_pending = None, ex_reservation = None\<rparr>"

record http_parts =
  ht_method :: string
  ht_query :: "string option"
  ht_headers :: header_map

record gateway_state =
  gw_bundles :: bundle_store
  gw_registry :: backend_registry
  gw_limits :: limits_config
  gw_quota :: ledger_state

record head_object_input =
  ho_bucket :: string
  ho_key :: string
  ho_version_id :: "string option"
  ho_sse_customer_algorithm :: "string option"
  ho_sse_customer_key :: "string option"
  ho_sse_customer_key_md5 :: "string option"

record environment =
  en_pdp :: "gateway_state \<Rightarrow> opa_input \<Rightarrow> gateway_state \<times> (gateway_error + decision)"
  en_head_object :: "s3_client \<Rightarrow> gateway_state \<Rightarrow> head_object_input \<Rightarrow> gateway_state \<times> (s3_error + int option)"
  en_new_decision_id :: "nat \<Rightarrow> string"
  en_now_rfc3339 :: "nat \<Rightarrow> string"
  en_show_time :: "int \<Rightarrow> string"
  en_labels :: label_policy

record hook_state =
  hs_gw :: gateway_state
  hs_ext :: extensions
  hs_asked :: "(opa_input \<times> decision) list"
  hs_emitted :: "audit_record list"
  hs_serial :: nat

definition redacted_params :: "string list" where
  "redacted_params = [''x-amz-signature'', ''x-amz-security-token'', ''x-amz-credential'']"

definition redact_query :: "string \<Rightarrow> string" where
  "redact_query q =
     join ''&'' (map (\<lambda>p. let name = hd (split_on CHR ''='' p)
                        in if to_ascii_lowercase name \<in> set redacted_params then name @ ''=REDACTED'' else p)
       (split_on CHR ''&'' q))"

definition request_meta_of :: "http_parts \<Rightarrow> request_meta" where
  "request_meta_of h =
     \<lparr>rm_method = ht_method h, rm_params = map_option redact_query (ht_query h), rm_headers_subset = []\<rparr>"

section \<open>The context of a hook\<close>

record req_ctx =
  cx_principal :: resolved_principal
  cx_route :: route_snapshot
  cx_placement :: bucket_placement
  cx_operation :: string
  cx_meta :: request_meta

definition req_ctx_new :: "http_parts \<Rightarrow> extensions \<Rightarrow> s3_error + req_ctx" where
  "req_ctx_new h ext =
     (case ex_principal ext of
        None \<Rightarrow> Inl (s3_error_of ''InternalError'' ''resolved principal missing from request'')
      | Some prin \<Rightarrow>
          (case ex_route ext of
             None \<Rightarrow> Inl (s3_error_of ''InternalError'' ''route snapshot missing from request'')
           | Some route \<Rightarrow>
               (case ex_placement ext of
                  None \<Rightarrow> Inl (s3_error_of ''InternalError'' ''bucket placement missing from request'')
                | Some placement \<Rightarrow>
                    (case ex_operation ext of
                       None \<Rightarrow> Inl (s3_error_of ''InternalError'' ''operation name missing from request'')
                     | Some operation \<Rightarrow>
                         Inr \<lparr>cx_principal = prin, cx_route = route, cx_placement = placement,
                              cx_operation = operation, cx_meta = request_meta_of h\<rparr>))))"

definition input_placement_refusal :: "req_ctx \<Rightarrow> opa_input \<Rightarrow> placement_refusal option" where
  "input_placement_refusal cx input =
     (case shared_identity_refusal (cx_placement cx) (rs_shares_upstream_identity (cx_route cx)) of
        Some r \<Rightarrow> Some r
      | None \<Rightarrow>
          let backend = rs_backend_id (cx_route cx)
          in case refusal (cx_placement cx) backend (oi_tenant input) (oi_bucket input) of
               Some r \<Rightarrow> Some r
             | None \<Rightarrow>
                 (case oi_copy_source input of
                    None \<Rightarrow> None
                  | Some src \<Rightarrow> refusal (cx_placement cx) backend (oi_tenant input) (cs_bucket src)))"

definition write_target_of :: "req_ctx \<Rightarrow> opa_input \<Rightarrow> write_target" where
  "write_target_of cx input =
     \<lparr>wt_backend = rs_backend_id (cx_route cx), wt_tenant = oi_tenant input, wt_bucket = oi_bucket input\<rparr>"

definition base_input :: "req_ctx \<Rightarrow> action \<Rightarrow> string \<Rightarrow> opa_input" where
  "base_input cx act bucket =
     \<lparr>oi_principal = to_opa_principal (cx_principal cx),
      oi_backend = \<lparr>be_id = rs_backend_id (cx_route cx), be_kind = rs_backend_kind (cx_route cx)\<rparr>,
      oi_tenant = rs_tenant (cx_route cx), oi_organization_id = rs_organization_id (cx_route cx), oi_action = act,
      oi_bucket = bucket, oi_object = None, oi_prefix = None, oi_copy_source = None, oi_delete_keys = None,
      oi_object_tags = None, oi_requested_tags = None, oi_acl_grants = [], oi_bypass_governance = False,
      oi_request = cx_meta cx\<rparr>"

definition write_input :: "req_ctx \<Rightarrow> action \<Rightarrow> string \<Rightarrow> string \<Rightarrow> request_riders \<Rightarrow> opa_input" where
  "write_input cx act bucket obj riders =
     (base_input cx act bucket)\<lparr>oi_object := Some obj, oi_acl_grants := rr_acl riders, oi_requested_tags := rr_tags riders,
        oi_bypass_governance := rr_bypass_governance riders\<rparr>"

definition prove :: "req_ctx \<Rightarrow> hook_state \<Rightarrow> hook_state" where
  "prove cx s = s\<lparr>hs_ext := (hs_ext s)\<lparr>ex_proof := Some (cx_operation cx)\<rparr>\<rparr>"

section \<open>Deciding and recording\<close>

definition pdp_error_reason :: string where
  "pdp_error_reason = ''pdp evaluation error''"

definition decide :: "environment \<Rightarrow> req_ctx \<Rightarrow> opa_input \<Rightarrow> hook_state \<Rightarrow> decision \<times> hook_state" where
  "decide env cx input s =
     (case input_placement_refusal cx input of
        Some r \<Rightarrow> (decision_deny (placement_reason r), s)
      | None \<Rightarrow>
          let (gw, answer) = en_pdp env (hs_gw s) input;
              d = (case answer of Inr d \<Rightarrow> d | Inl e \<Rightarrow> decision_deny pdp_error_reason)
          in (d, s\<lparr>hs_gw := gw, hs_asked := hs_asked s @ [(input, d)]\<rparr>))"

definition make_record ::
  "environment \<Rightarrow> opa_input \<Rightarrow> decision \<Rightarrow> outcome \<Rightarrow> string list \<Rightarrow> hook_state \<Rightarrow> audit_record" where
  "make_record env input d outcome denied_keys s =
     (let object_name = placement_object_name (b_placement (bst_current (gw_bundles (hs_gw s))));
          meta = \<lparr>gm_backend_id = be_id (oi_backend input), gm_backend_kind = backend_kind_as_str (be_kind (oi_backend input)),
                  gm_outcome = outcome, gm_denied_keys = denied_keys, gm_backend = NotAttempted, gm_backend_status = None,
                  gm_object_name = object_name (oi_bucket input),
                  gm_copy_source_object_name = Option.bind (oi_copy_source input) (\<lambda>src. object_name (cs_bucket src))\<rparr>
      in audit_record_new (en_new_decision_id env (hs_serial s)) (en_now_rfc3339 env (hs_serial s)) input d meta (en_labels env))"

definition emit :: "audit_record \<Rightarrow> hook_state \<Rightarrow> hook_state" where
  "emit r s = s\<lparr>hs_emitted := hs_emitted s @ [r], hs_serial := Suc (hs_serial s)\<rparr>"

definition audit_denied :: "environment \<Rightarrow> opa_input \<Rightarrow> decision \<Rightarrow> string list \<Rightarrow> hook_state \<Rightarrow> string \<times> hook_state" where
  "audit_denied env input d denied_keys s =
     (let r = make_record env input d OutcomeDenied denied_keys s in (ar_decision_id r, emit r s))"

text \<open>Installing the pending record drops, and so emits, one that was there before.\<close>

definition audit_pending :: "environment \<Rightarrow> opa_input \<Rightarrow> decision \<Rightarrow> string list \<Rightarrow> hook_state \<Rightarrow> hook_state" where
  "audit_pending env input d denied_keys s =
     (let r = make_record env input d OutcomeAllowed denied_keys s;
          old = (case ex_pending (hs_ext s) of None \<Rightarrow> [] | Some p \<Rightarrow> pending_drop p)
      in s\<lparr>hs_ext := (hs_ext s)\<lparr>ex_pending := Some (pending_new r)\<rparr>, hs_emitted := hs_emitted s @ old,
           hs_serial := Suc (hs_serial s)\<rparr>)"

definition gate_denial_record ::
  "environment \<Rightarrow> nat \<Rightarrow> string \<Rightarrow> gate_stage \<Rightarrow> string option \<Rightarrow> string option \<Rightarrow> string option \<Rightarrow> string \<Rightarrow> audit_record"
where
  "gate_denial_record env serial op stage access_key_id tenant sub reason =
     audit_gate_record (en_new_decision_id env serial) (en_now_rfc3339 env serial)
       \<lparr>gx_operation = op, gx_stage = stage, gx_access_key_id = access_key_id, gx_tenant = tenant,
        gx_suppressed_since_last = 0\<rparr>
       reason (case sub of None \<Rightarrow> [] | Some p \<Rightarrow> p) (en_labels env)"

text \<open>The refusals: each emits one record and answers 403.\<close>

definition access_denied :: "string \<Rightarrow> s3_error" where
  "access_denied why = s3_error_of ''AccessDenied'' why"

definition deny :: "environment \<Rightarrow> opa_input \<Rightarrow> string \<Rightarrow> hook_state \<Rightarrow> s3_error \<times> hook_state" where
  "deny env input why s = (access_denied why, snd (audit_denied env input (decision_deny why) [] s))"

definition refuse :: "environment \<Rightarrow> opa_input \<Rightarrow> string \<Rightarrow> hook_state \<Rightarrow> s3_error \<times> hook_state" where
  "refuse env input why s = deny env input (''deny (gateway): '' @ why) s"

definition deny_placement :: "environment \<Rightarrow> opa_input \<Rightarrow> placement_refusal \<Rightarrow> hook_state \<Rightarrow> s3_error \<times> hook_state" where
  "deny_placement env input r s =
     (access_denied (placement_client_message r),
      snd (audit_denied env input (decision_deny (placement_reason r)) [] s))"

definition unimplemented_obligations :: "decision \<Rightarrow> string option" where
  "unimplemented_obligations d =
     (let missing = unimplemented (d_obligations d)
      in if missing = [] then None
         else Some (''deny (gateway): the policy requires obligation(s) '' @ join '', '' missing @
           '' which this gateway does not implement; upgrade the gateway before pushing a policy that depends on them''))"

section \<open>Charging a write\<close>

record copy_charge =
  cc_bucket :: string
  cc_key :: string
  cc_version_id :: "string option"
  cc_range :: "string option"
  cc_sse_customer_algorithm :: "string option"
  cc_sse_customer_key :: "string option"
  cc_sse_customer_key_md5 :: "string option"

datatype charge = ChargeNothing | ChargeBody "int option" | ChargeCopy copy_charge

datatype quota_denial = QuotaRefused quota_refusal | SourceUnsized string "s3_error option"

definition copy_source_unsized :: string where
  "copy_source_unsized =
     ''deny (gateway): a storage quota applies to this copy, and the copy source's size could not be read to charge it''"

fun quota_denial_reason :: "environment \<Rightarrow> quota_denial \<Rightarrow> string" where
  "quota_denial_reason env (QuotaRefused r) = quota_refusal_reason (en_show_time env) r"
| "quota_denial_reason env (SourceUnsized reason answer) = reason"

definition as_copy_source_error :: "s3_error \<Rightarrow> s3_error" where
  "as_copy_source_error e =
     (if se_status e = Some 404 then
        \<lparr>se_code = Known ''NoSuchKey'', se_message = None, se_status = Some 404, se_request_id = None, se_has_source = True\<rparr>
      else if se_status e = Some 403 then
        \<lparr>se_code = Known ''AccessDenied'', se_message = None, se_status = Some 403, se_request_id = None, se_has_source = True\<rparr>
      else e)"

fun quota_denial_into_error :: "string \<Rightarrow> quota_denial \<Rightarrow> s3_error" where
  "quota_denial_into_error decision_id (QuotaRefused r) = quota_refusal_to_s3_error r"
| "quota_denial_into_error decision_id (SourceUnsized reason None) = access_denied reason"
| "quota_denial_into_error decision_id (SourceUnsized reason (Some e)) =
     (if is_backend_error e then remint_backend_error (as_copy_source_error e) decision_id
      else e\<lparr>se_request_id := Some decision_id\<rparr>)"

definition u64_of_i64 :: "int \<Rightarrow> u64 option" where
  "u64_of_i64 l = (if l < 0 then None else Some (word_of_int l))"

definition copy_range_len :: "string \<Rightarrow> u64 option" where
  "copy_range_len rng =
     (case strip_prefix rng ''bytes='' of
        None \<Rightarrow> None
      | Some r \<Rightarrow>
          (case split_once CHR ''-'' r of
             None \<Rightarrow> None
           | Some (lo, hi) \<Rightarrow>
               (case (parse_u64 (trim lo), parse_u64 (trim hi)) of
                  (Some a, Some b) \<Rightarrow>
                    if b < a then None else let d = b - a in if d = - 1 then None else Some (d + 1)
                | _ \<Rightarrow> None)))"

definition copy_size ::
  "environment \<Rightarrow> req_ctx \<Rightarrow> copy_charge \<Rightarrow> hook_state \<Rightarrow> (quota_denial + u64) \<times> hook_state" where
  "copy_size env cx copy s =
     (case Option.bind (cc_range copy) copy_range_len of
        Some len \<Rightarrow> (Inr len, s)
      | None \<Rightarrow>
          (case proxy_for (cx_route cx) (gw_registry (hs_gw s)) of
             (reg, Inl e) \<Rightarrow>
               (Inl (SourceUnsized (copy_source_unsized @ '': no backend client'')
                  (Some (s3_error_of ''ServiceUnavailable'' ''backend unavailable''))),
                s\<lparr>hs_gw := (hs_gw s)\<lparr>gw_registry := reg\<rparr>\<rparr>)
           | (reg, Inr client) \<Rightarrow>
               let (gw, answer) = en_head_object env client ((hs_gw s)\<lparr>gw_registry := reg\<rparr>)
                     \<lparr>ho_bucket = cc_bucket copy, ho_key = cc_key copy, ho_version_id = cc_version_id copy,
                      ho_sse_customer_algorithm = cc_sse_customer_algorithm copy,
                      ho_sse_customer_key = cc_sse_customer_key copy,
                      ho_sse_customer_key_md5 = cc_sse_customer_key_md5 copy\<rparr>;
                   s1 = s\<lparr>hs_gw := gw\<rparr>
               in case answer of
                    Inr content_length \<Rightarrow>
                      (case Option.bind content_length u64_of_i64 of
                         Some len \<Rightarrow> (Inr len, s1)
                       | None \<Rightarrow>
                           (Inl (SourceUnsized (copy_source_unsized @ '': the backend reported no length'') None), s1))
                  | Inl e \<Rightarrow>
                      (Inl (SourceUnsized
                         (copy_source_unsized @ '': the backend answered '' @ s3_code_as_str (se_code e) @ '' ('' @
                          nat_digits (case se_status e of None \<Rightarrow> 0 | Some st \<Rightarrow> st) @ '')'')
                         (Some e)), s1)))"

definition hold_quota ::
  "environment \<Rightarrow> req_ctx \<Rightarrow> opa_input \<Rightarrow> charge \<Rightarrow> hook_state \<Rightarrow> (quota_denial + unit) \<times> hook_state" where
  "hold_quota env cx input ch s =
     (case placement_quotas (cx_placement cx) of
        None \<Rightarrow> (Inr (), s)
      | Some quotas \<Rightarrow>
          let target = write_target_of cx input
          in if \<not> applies_to quotas target then (Inr (), s)
             else
               let (bytes, s1) = (case ch of
                     ChargeNothing \<Rightarrow> (Inr None, s)
                   | ChargeBody len \<Rightarrow> (Inr (Some (Option.bind len u64_of_i64)), s)
                   | ChargeCopy copy \<Rightarrow>
                       (case copy_size env cx copy s of
                          (Inl e, s1) \<Rightarrow> (Inl e, s1)
                        | (Inr n, s1) \<Rightarrow> (Inr (Some (Some n)), s1)))
               in case bytes of
                    Inl e \<Rightarrow> (Inl e, s1)
                  | Inr None \<Rightarrow> (Inr (), s1)
                  | Inr (Some b) \<Rightarrow>
                      let (ledger, adm) = admit quotas target b (gw_quota (hs_gw s1));
                          s2 = s1\<lparr>hs_gw := (hs_gw s1)\<lparr>gw_quota := ledger\<rparr>\<rparr>
                      in case adm of
                           Unlimited \<Rightarrow> (Inr (), s2)
                         | Reserved r \<Rightarrow> (Inr (), s2\<lparr>hs_ext := (hs_ext s2)\<lparr>ex_reservation := Some r\<rparr>\<rparr>)
                         | Refused r \<Rightarrow> (Inl (QuotaRefused r), s2))"

definition deny_quota :: "environment \<Rightarrow> opa_input \<Rightarrow> quota_denial \<Rightarrow> hook_state \<Rightarrow> s3_error \<times> hook_state" where
  "deny_quota env input denial s =
     (let (decision_id, s1) = audit_denied env input (decision_deny (quota_denial_reason env denial)) [] s
      in (quota_denial_into_error decision_id denial, s1))"

section \<open>The enforce helpers\<close>

type_synonym enforced_run = "(s3_error + unit) \<times> hook_state"

definition refused_with :: "s3_error \<times> hook_state \<Rightarrow> (s3_error + 'a) \<times> hook_state" where
  "refused_with es = (Inl (fst es), snd es)"

text \<open>The allow side shared by a write and a copy: charge it, hold the record, mint the proof.\<close>

definition grant_charged ::
  "environment \<Rightarrow> req_ctx \<Rightarrow> opa_input \<Rightarrow> decision \<Rightarrow> charge \<Rightarrow> hook_state \<Rightarrow> enforced_run" where
  "grant_charged env cx input d ch s =
     (case hold_quota env cx input ch s of
        (Inl denial, s1) \<Rightarrow> refused_with (deny_quota env input denial s1)
      | (Inr _, s1) \<Rightarrow> (Inr (), prove cx (audit_pending env input d [] s1)))"

definition enforce_charged :: "environment \<Rightarrow> req_ctx \<Rightarrow> opa_input \<Rightarrow> charge \<Rightarrow> hook_state \<Rightarrow> enforced_run" where
  "enforce_charged env cx input ch s =
     (case input_placement_refusal cx input of
        Some r \<Rightarrow> refused_with (deny_placement env input r s)
      | None \<Rightarrow>
          let (d, s1) = decide env cx input s
          in if d_allow d then
               (case unimplemented_obligations d of
                  Some reason \<Rightarrow> refused_with (deny env input reason s1)
                | None \<Rightarrow> grant_charged env cx input d ch s1)
             else (Inl (access_denied (d_reason d)), snd (audit_denied env input d [] s1)))"

definition enforce :: "environment \<Rightarrow> req_ctx \<Rightarrow> opa_input \<Rightarrow> hook_state \<Rightarrow> enforced_run" where
  "enforce env cx input s = enforce_charged env cx input ChargeNothing s"

definition current_reserved_tag_keys :: "hook_state \<Rightarrow> reserved_tag_keys" where
  "current_reserved_tag_keys s = from_bundle (b_data (bst_current (gw_bundles (hs_gw s))))"

definition bypass_refusal :: string where
  "bypass_refusal =
     ''the request carries x-amz-bypass-governance-retention, which would override object-lock retention; no verb in '' @
     ''this gateway's grant vocabulary expresses that authority, so it is refused in code rather than left to a policy '' @
     ''that has no way to say yes''"

definition screen_riders :: "request_riders \<Rightarrow> hook_state \<Rightarrow> unit res" where
  "screen_riders riders s =
     (if rr_bypass_governance riders then Inl bypass_refusal
      else case acl_refusal (classify (rr_acl riders)) of
        Some why \<Rightarrow> Inl why
      | None \<Rightarrow>
          (case rr_tags riders of
             None \<Rightarrow> Inr ()
           | Some tags \<Rightarrow> check_tags (current_reserved_tag_keys s) tags))"

definition inline_tags_refusal :: string where
  "inline_tags_refusal =
     ''deny: the request carries an inline tag set (x-amz-tagging), which requires write_object_tags on this object; '' @
     ''no grant matches''"

definition authorize_riders ::
  "environment \<Rightarrow> req_ctx \<Rightarrow> opa_input \<Rightarrow> request_riders \<Rightarrow> hook_state \<Rightarrow> string option \<times> hook_state" where
  "authorize_riders env cx input riders s =
     (case rr_tags riders of
        None \<Rightarrow> (None, s)
      | Some _ \<Rightarrow>
          let (d, s1) = decide env cx (input\<lparr>oi_action := WriteObjectTags\<rparr>) s
          in (if d_allow d then None else Some inline_tags_refusal, s1))"

definition enforce_object_write ::
  "environment \<Rightarrow> req_ctx \<Rightarrow> action \<Rightarrow> string \<Rightarrow> string \<Rightarrow> request_riders res \<Rightarrow> charge \<Rightarrow> hook_state \<Rightarrow> enforced_run" where
  "enforce_object_write env cx act bucket obj riders ch s =
     (case riders of
        Inl why \<Rightarrow> refused_with (refuse env ((base_input cx act bucket)\<lparr>oi_object := Some obj\<rparr>) why s)
      | Inr riders \<Rightarrow>
          let input = write_input cx act bucket obj riders
          in case input_placement_refusal cx input of
               Some r \<Rightarrow> refused_with (deny_placement env input r s)
             | None \<Rightarrow>
                 (case screen_riders riders s of
                    Inl why \<Rightarrow> refused_with (refuse env input why s)
                  | Inr _ \<Rightarrow>
                      (case authorize_riders env cx input riders s of
                         (Some why, s1) \<Rightarrow> refused_with (deny env input why s1)
                       | (None, s1) \<Rightarrow> enforce_charged env cx input ch s1)))"

definition enforce_object_charged ::
  "environment \<Rightarrow> req_ctx \<Rightarrow> action \<Rightarrow> string \<Rightarrow> string \<Rightarrow> charge \<Rightarrow> hook_state \<Rightarrow> enforced_run" where
  "enforce_object_charged env cx act bucket obj ch s =
     enforce_charged env cx ((base_input cx act bucket)\<lparr>oi_object := Some obj\<rparr>) ch s"

definition enforce_object :: "environment \<Rightarrow> req_ctx \<Rightarrow> action \<Rightarrow> string \<Rightarrow> string \<Rightarrow> hook_state \<Rightarrow> enforced_run" where
  "enforce_object env cx act bucket obj s = enforce_object_charged env cx act bucket obj ChargeNothing s"

definition enforce_bucket :: "environment \<Rightarrow> req_ctx \<Rightarrow> action \<Rightarrow> string \<Rightarrow> hook_state \<Rightarrow> enforced_run" where
  "enforce_bucket env cx act bucket s = enforce env cx (base_input cx act bucket) s"

section \<open>Listings\<close>

datatype list_verdict = ListDeny string | AllowAsIs | Narrow string | FanOutTo "string list"

datatype fanout_support = FanoutSupported | FanoutUnsupported string

definition no_fanout_on_this_op :: string where
  "no_fanout_on_this_op = ''multi-prefix listing is not supported for this operation; list a single prefix''"

definition no_fanout_with_delimiter :: string where
  "no_fanout_with_delimiter =
     ''delimiter listing across multiple granted prefixes is unsupported; list a single prefix''"

definition classify_list :: "decision \<Rightarrow> nat \<Rightarrow> fanout_support \<Rightarrow> list_verdict" where
  "classify_list d max_fanout fanout =
     (if \<not> d_allow d then ListDeny (d_reason d)
      else case unimplemented_obligations d of
        Some reason \<Rightarrow> ListDeny reason
      | None \<Rightarrow>
          let ob = d_obligations d; allowed = ob_allowed_prefixes ob
          in case ob_narrow_prefix ob of
               Some np \<Rightarrow>
                 if allowed \<noteq> [] then ListDeny ''ambiguous list obligation (narrow + allowed prefixes)'' else Narrow np
             | None \<Rightarrow>
                 if allowed = [] then AllowAsIs
                 else case fanout of
                   FanoutUnsupported why \<Rightarrow> ListDeny why
                 | FanoutSupported \<Rightarrow>
                     if length allowed > max_fanout then
                       ListDeny (''list spans '' @ nat_digits (length allowed) @ '' granted prefixes, exceeding the fan-out bound '' @
                         nat_digits max_fanout @ ''; narrow your prefix'')
                     else FanOutTo (btree_set allowed))"

definition enforce_list ::
  "environment \<Rightarrow> req_ctx \<Rightarrow> string \<Rightarrow> string option \<Rightarrow> fanout_support \<Rightarrow> hook_state \<Rightarrow> list_verdict \<times> hook_state" where
  "enforce_list env cx bucket pfx fanout s =
     (let input = (base_input cx ListObjects bucket)\<lparr>oi_prefix := pfx\<rparr>
      in case input_placement_refusal cx input of
           Some r \<Rightarrow>
             (ListDeny (placement_client_message r),
              snd (audit_denied env input (decision_deny (placement_reason r)) [] s))
         | None \<Rightarrow>
             let (d, s1) = decide env cx input s;
                 verdict = classify_list d (lm_max_list_fanout (gw_limits (hs_gw s1))) fanout
             in (verdict,
                 case verdict of
                   ListDeny reason \<Rightarrow> snd (audit_denied env input (decision_deny reason) [] s1)
                 | _ \<Rightarrow> prove cx (audit_pending env input d [] s1)))"

definition list_verdict_single :: "list_verdict \<Rightarrow> string option \<Rightarrow> s3_error + string option" where
  "list_verdict_single verdict pfx =
     (case verdict of
        ListDeny reason \<Rightarrow> Inl (access_denied reason)
      | AllowAsIs \<Rightarrow> Inr pfx
      | Narrow np \<Rightarrow> Inr (Some np)
      | FanOutTo _ \<Rightarrow>
          Inl (s3_error_of ''InternalError'' ''fan-out verdict reached an operation with no fan-out dispatch''))"

datatype bucket_listing = Withhold string | Show bucket_visibility

definition ambiguous_visibility :: string where
  "ambiguous_visibility =
     ''deny (gateway): ambiguous bucket-visibility obligation '' @ [CHR 0xE2, CHR 0x80, CHR 0x94] @
     '' all_buckets_visible was set together with a visible_buckets list''"

definition classify_bucket_listing :: "decision \<Rightarrow> bucket_listing" where
  "classify_bucket_listing d =
     (if \<not> d_allow d then Withhold (d_reason d)
      else case unimplemented_obligations d of
        Some reason \<Rightarrow> Withhold reason
      | None \<Rightarrow>
          let ob = d_obligations d
          in if ob_all_buckets_visible ob \<and> ob_visible_buckets ob \<noteq> [] then Withhold ambiguous_visibility
             else if ob_all_buckets_visible ob then Show All
             else Show (visibility_only (btree_set (ob_visible_buckets ob))))"

definition enforce_bucket_listing :: "environment \<Rightarrow> req_ctx \<Rightarrow> hook_state \<Rightarrow> bucket_visibility \<times> hook_state" where
  "enforce_bucket_listing env cx s =
     (let input = base_input cx Read [];
          (d, s1) = decide env cx input s
      in case classify_bucket_listing d of
           Withhold reason \<Rightarrow> (Nothing, snd (audit_denied env input (decision_deny reason) [] s1))
         | Show visibility \<Rightarrow> (visibility, prove cx (audit_pending env input d [] s1)))"

definition bucket_source_of :: "bucket_placement \<Rightarrow> route_snapshot \<Rightarrow> bucket_source" where
  "bucket_source_of placement route =
     (if shared_identity_refusal placement (rs_shares_upstream_identity route) \<noteq> None then BundleSource []
      else case listing placement (rs_backend_id route) (rs_tenant route) of
        None \<Rightarrow> BackendSource
      | Some bs \<Rightarrow>
          BundleSource (map (\<lambda>b. \<lparr>bk_bucket_region = None, bk_creation_date = lb_created_at b, bk_name = Some (lb_name b)\<rparr>) bs))"

section \<open>Copies and batches\<close>

datatype copy_source_dto = CopyFromBucket string string "string option" | CopyFromElsewhere

record copy_sizing =
  cz_range :: "string option"
  cz_sse_customer_algorithm :: "string option"
  cz_sse_customer_key :: "string option"
  cz_sse_customer_key_md5 :: "string option"

definition copy_charge_of :: "string \<Rightarrow> string \<Rightarrow> string option \<Rightarrow> copy_sizing \<Rightarrow> copy_charge" where
  "copy_charge_of bucket key version z =
     \<lparr>cc_bucket = bucket, cc_key = key, cc_version_id = version, cc_range = cz_range z,
      cc_sse_customer_algorithm = cz_sse_customer_algorithm z, cc_sse_customer_key = cz_sse_customer_key z,
      cc_sse_customer_key_md5 = cz_sse_customer_key_md5 z\<rparr>"

definition copy_denied_reason :: "bool \<Rightarrow> bool \<Rightarrow> string" where
  "copy_denied_reason src_allow dst_allow =
     ''copy denied (source_read='' @ (if src_allow then ''true'' else ''false'') @ '', dest_write='' @
     (if dst_allow then ''true'' else ''false'') @ '')''"

definition copy_input ::
  "req_ctx \<Rightarrow> string \<Rightarrow> string \<Rightarrow> string \<Rightarrow> string \<Rightarrow> request_riders \<Rightarrow> opa_input" where
  "copy_input cx src_bucket src_key dest_bucket dest_key riders =
     (write_input cx WriteObjects dest_bucket dest_key riders)
       \<lparr>oi_copy_source := Some \<lparr>cs_bucket = src_bucket, cs_key = src_key\<rparr>\<rparr>"

definition enforce_copy ::
  "environment \<Rightarrow> req_ctx \<Rightarrow> copy_source_dto \<Rightarrow> string \<Rightarrow> string \<Rightarrow> request_riders \<Rightarrow> copy_sizing \<Rightarrow> hook_state \<Rightarrow>
   enforced_run" where
  "enforce_copy env cx source dest_bucket dest_key riders sizing s =
     (case source of
        CopyFromElsewhere \<Rightarrow> (Inl (access_denied ''unsupported copy source (access-point/outpost)''), s)
      | CopyFromBucket src_bucket src_key src_version \<Rightarrow>
          let dst_input = copy_input cx src_bucket src_key dest_bucket dest_key riders
          in case input_placement_refusal cx dst_input of
               Some r \<Rightarrow> refused_with (deny_placement env dst_input r s)
             | None \<Rightarrow>
                 (case screen_riders riders s of
                    Inl why \<Rightarrow> refused_with (refuse env dst_input why s)
                  | Inr _ \<Rightarrow>
                      let src_input = (base_input cx ReadObjects src_bucket)\<lparr>oi_object := Some src_key\<rparr>;
                          (src, s1) = decide env cx src_input s;
                          (dst, s2) = decide env cx dst_input s1
                      in if d_allow src \<and> d_allow dst then
                           (case authorize_riders env cx dst_input riders s2 of
                              (Some why, s3) \<Rightarrow> refused_with (deny env dst_input why s3)
                            | (None, s3) \<Rightarrow>
                                grant_charged env cx dst_input (decision_allow ''copy allowed (source read + dest write)'')
                                  (ChargeCopy (copy_charge_of src_bucket src_key src_version sizing)) s3)
                         else
                           (Inl (access_denied ''copy denied by policy''),
                            snd (audit_denied env dst_input
                                   (decision_deny (copy_denied_reason (d_allow src) (d_allow dst))) [] s2))))"

record object_identifier =
  od_key :: string
  od_version_id :: "string option"

record delete_objects_input =
  do_bucket :: string
  do_objects :: "object_identifier list"
  do_bypass_governance_retention :: "bool option"

fun decide_keys ::
  "environment \<Rightarrow> req_ctx \<Rightarrow> string \<Rightarrow> string list \<Rightarrow> string list \<Rightarrow> string list \<Rightarrow> hook_state \<Rightarrow>
   string list \<times> string list \<times> hook_state" where
  "decide_keys env cx bucket [] allowed refused s = (allowed, refused, s)"
| "decide_keys env cx bucket (key # keys) allowed refused s =
     (case decide env cx ((base_input cx DeleteObjects bucket)\<lparr>oi_object := Some key\<rparr>) s of
        (d, s1) \<Rightarrow>
          if d_allow d then decide_keys env cx bucket keys (allowed @ [key]) refused s1
          else decide_keys env cx bucket keys allowed (refused @ [key]) s1)"

definition over_delete_cap :: "nat \<Rightarrow> nat \<Rightarrow> string" where
  "over_delete_cap key_count cap =
     ''delete request carries '' @ nat_digits key_count @ '' keys, over the '' @ nat_digits cap @ ''-key cap''"

definition enforce_delete_objects ::
  "environment \<Rightarrow> req_ctx \<Rightarrow> nat \<Rightarrow> delete_objects_input \<Rightarrow> hook_state \<Rightarrow> (s3_error + delete_objects_input) \<times> hook_state" where
  "enforce_delete_objects env cx max_delete_keys i s =
     (let bucket = do_bucket i;
          all_keys = map od_key (do_objects i);
          input = base_input cx DeleteObjects bucket
      in case input_placement_refusal cx input of
           Some r \<Rightarrow> refused_with (deny_placement env input r s)
         | None \<Rightarrow>
             if length all_keys > max_delete_keys then
               refused_with (refuse env input (over_delete_cap (length all_keys) max_delete_keys) s)
             else if do_bypass_governance_retention i = Some True then
               refused_with (refuse env (input\<lparr>oi_bypass_governance := True\<rparr>) bypass_refusal s)
             else
               (case decide_keys env cx bucket all_keys [] [] s of
                  (allowed, refused, s1) \<Rightarrow>
                    let record_input = input\<lparr>oi_delete_keys := Some all_keys\<rparr>
                    in if allowed = [] then
                         (Inl (access_denied ''all delete keys denied by policy''),
                          snd (audit_denied env record_input (decision_deny ''all delete keys denied'') refused s1))
                       else
                         (Inr (i\<lparr>do_objects := filter (\<lambda>ob. od_key ob \<in> set allowed) (do_objects i)\<rparr>),
                          prove cx (audit_pending env record_input
                            (decision_allow (nat_digits (length allowed) @ '' allowed, '' @ nat_digits (length refused) @ '' denied''))
                            refused s1))))"

section \<open>The operations and their hooks\<close>

text \<open>
  One record per shape of input, with the fields the hook reads or changes: an object, an object written with riders, a
  copy, a listing by prefix, a tag set, a bucket.
\<close>

record object_input =
  in_bucket :: string
  in_key :: string

record put_input =
  pi_bucket :: string
  pi_key :: string
  pi_acl :: acl_fields
  pi_tagging :: "string option"
  pi_content_length :: "int option"
  pi_content_encoding :: "string option"
  pi_has_body :: bool

record delete_object_input =
  dl_bucket :: string
  dl_key :: string
  dl_bypass_governance_retention :: "bool option"

record copy_object_input =
  co_bucket :: string
  co_key :: string
  co_source :: copy_source_dto
  co_acl :: acl_fields
  co_tagging :: "string option"
  co_tagging_directive :: "string option"
  co_sizing :: copy_sizing

record list_v2_input = list_objects_v2_input +
  l2_optional_object_attributes :: "string list option"

record list_input =
  lp_bucket :: string
  lp_prefix :: "string option"
  lp_optional_object_attributes :: "string list option"

record tag_dto =
  tg_key :: "string option"
  tg_value :: "string option"

record put_tagging_input =
  pt_bucket :: string
  pt_key :: string
  pt_tag_set :: "tag_dto list"

record attributes_input =
  at_bucket :: string
  at_key :: string
  at_object_attributes :: "string list"

datatype s3_call =
    GetObject object_input | HeadObject object_input | PutObject put_input | PostObject put_input
  | DeleteObject delete_object_input | DeleteObjects_Call delete_objects_input | CopyObject copy_object_input
  | ListObjectsV2 list_v2_input | ListObjects_Call list_input | CreateMultipartUpload put_input
  | UploadPart put_input | CompleteMultipartUpload object_input | AbortMultipartUpload object_input
  | ListParts object_input | UploadPartCopy copy_object_input | ListMultipartUploads list_input
  | ListBuckets list_buckets_input | HeadBucket string | GetBucketLocation string
  | GetObjectTagging object_input | PutObjectTagging put_tagging_input | DeleteObjectTagging object_input
  | GetObjectAttributes attributes_input

definition split_comma_list :: "string list \<Rightarrow> string list" where
  "split_comma_list vs =
     (if \<not> (\<exists>v \<in> set vs. CHR '','' \<in> set v) then vs
      else concat (map (\<lambda>v. filter (\<lambda>p. p \<noteq> []) (map trim (split_on CHR '','' v))) vs))"

fun insert_tags :: "tag_dto list \<Rightarrow> string btree \<Rightarrow> string btree res" where
  "insert_tags [] tags = Inr tags"
| "insert_tags (t # ts) tags =
     (case tg_key t of
        None \<Rightarrow> Inl ''tag set carries a tag with no key''
      | Some key \<Rightarrow>
          if map_of tags key \<noteq> None then
            Inl (''tag set carries the key '' @ debug_str key @
              '' twice; the gateway will not authorize a tag set it cannot resolve the same way the backend will'')
          else insert_tags ts (btree_insert key (case tg_value t of None \<Rightarrow> [] | Some v \<Rightarrow> v) tags))"

definition parse_tag_set :: "tag_dto list \<Rightarrow> nat \<Rightarrow> string btree res" where
  "parse_tag_set tag_set max_tags =
     (if length tag_set > max_tags then
        Inl (''tag set carries '' @ nat_digits (length tag_set) @ '' tags, over the '' @ nat_digits max_tags @ ''-tag cap'')
      else insert_tags tag_set [])"

type_synonym 'i hook_run = "(s3_error + 'i) \<times> hook_state"

text \<open>\<open>ReqCtx::new(req)?\<close>, and handing the request on when the enforce helper accepts.\<close>

definition with_ctx :: "http_parts \<Rightarrow> (req_ctx \<Rightarrow> hook_state \<Rightarrow> 'i hook_run) \<Rightarrow> hook_state \<Rightarrow> 'i hook_run" where
  "with_ctx h k s = (case req_ctx_new h (hs_ext s) of Inl e \<Rightarrow> (Inl e, s) | Inr cx \<Rightarrow> k cx s)"

definition pass_on :: "'i \<Rightarrow> enforced_run \<Rightarrow> 'i hook_run" where
  "pass_on i r = (case r of (Inl e, s) \<Rightarrow> (Inl e, s) | (Inr _, s) \<Rightarrow> (Inr i, s))"

definition hook_object :: "environment \<Rightarrow> action \<Rightarrow> http_parts \<Rightarrow> object_input \<Rightarrow> hook_state \<Rightarrow> object_input hook_run" where
  "hook_object env act h i s =
     with_ctx h (\<lambda>cx s. pass_on i (enforce_object env cx act (in_bucket i) (in_key i) s)) s"

definition max_tag_count :: "hook_state \<Rightarrow> nat" where
  "max_tag_count s = lm_max_tag_count (gw_limits (hs_gw s))"

definition hook_put_object :: "environment \<Rightarrow> http_parts \<Rightarrow> put_input \<Rightarrow> hook_state \<Rightarrow> put_input hook_run" where
  "hook_put_object env h i s =
     (let ch = ChargeBody (declared_body_length (ht_headers h) (pi_content_length i));
          i1 = i\<lparr>pi_content_encoding := strip_aws_chunked (pi_content_encoding i)\<rparr>;
          riders = riders_parse (pi_acl i) (pi_tagging i) False (max_tag_count s)
      in with_ctx h (\<lambda>cx s. pass_on i1 (enforce_object_write env cx WriteObjects (pi_bucket i) (pi_key i) riders ch s)) s)"

definition hook_post_object :: "environment \<Rightarrow> http_parts \<Rightarrow> put_input \<Rightarrow> hook_state \<Rightarrow> put_input hook_run" where
  "hook_post_object env h i s =
     (let riders = riders_parse (pi_acl i) (pi_tagging i) False (max_tag_count s);
          ch = ChargeBody (Some (case pi_content_length i of None \<Rightarrow> 0 | Some n \<Rightarrow> n))
      in with_ctx h (\<lambda>cx s. pass_on i (enforce_object_write env cx WriteObjects (pi_bucket i) (pi_key i) riders ch s)) s)"

definition hook_delete_object ::
  "environment \<Rightarrow> http_parts \<Rightarrow> delete_object_input \<Rightarrow> hook_state \<Rightarrow> delete_object_input hook_run" where
  "hook_delete_object env h i s =
     (let riders = riders_default\<lparr>rr_bypass_governance := (dl_bypass_governance_retention i = Some True)\<rparr>
      in with_ctx h (\<lambda>cx s. pass_on i
           (enforce_object_write env cx DeleteObjects (dl_bucket i) (dl_key i) (Inr riders) ChargeNothing s)) s)"

definition hook_delete_objects ::
  "environment \<Rightarrow> http_parts \<Rightarrow> delete_objects_input \<Rightarrow> hook_state \<Rightarrow> delete_objects_input hook_run" where
  "hook_delete_objects env h i s =
     (let cap = lm_max_delete_keys (gw_limits (hs_gw s))
      in with_ctx h (\<lambda>cx s. enforce_delete_objects env cx cap i s) s)"

definition copy_tagging :: "copy_object_input \<Rightarrow> string option" where
  "copy_tagging i =
     (if co_tagging_directive i = Some ''REPLACE'' then
        (case co_tagging i of Some t \<Rightarrow> Some t | None \<Rightarrow> Some [])
      else co_tagging i)"

definition hook_copy_object :: "environment \<Rightarrow> http_parts \<Rightarrow> copy_object_input \<Rightarrow> hook_state \<Rightarrow> copy_object_input hook_run" where
  "hook_copy_object env h i s =
     (let riders = riders_parse (co_acl i) (copy_tagging i) False (max_tag_count s)
      in with_ctx h (\<lambda>cx s.
           case riders of
             Inl why \<Rightarrow>
               refused_with (refuse env ((base_input cx WriteObjects (co_bucket i))\<lparr>oi_object := Some (co_key i)\<rparr>) why s)
           | Inr r \<Rightarrow>
               pass_on i (enforce_copy env cx (co_source i) (co_bucket i) (co_key i) r ((co_sizing i)\<lparr>cz_range := None\<rparr>) s)) s)"

definition hook_list_objects_v2 :: "environment \<Rightarrow> http_parts \<Rightarrow> list_v2_input \<Rightarrow> hook_state \<Rightarrow> list_v2_input hook_run" where
  "hook_list_objects_v2 env h i s =
     (let i1 = i\<lparr>l2_optional_object_attributes := map_option split_comma_list (l2_optional_object_attributes i)\<rparr>;
          support = (if li_delimiter i \<noteq> None then FanoutUnsupported no_fanout_with_delimiter else FanoutSupported)
      in with_ctx h (\<lambda>cx s.
           case enforce_list env cx (li_bucket i) (li_prefix i) support s of
             (ListDeny reason, s1) \<Rightarrow> (Inl (access_denied reason), s1)
           | (AllowAsIs, s1) \<Rightarrow> (Inr i1, s1)
           | (Narrow np, s1) \<Rightarrow> (Inr (i1\<lparr>li_prefix := Some np\<rparr>), s1)
           | (FanOutTo pfxs, s1) \<Rightarrow>
               (Inr i1, s1\<lparr>hs_ext := (hs_ext s1)\<lparr>ex_obligations := Some (obligations_fanout pfxs)\<rparr>\<rparr>)) s)"

definition hook_list :: "environment \<Rightarrow> http_parts \<Rightarrow> list_input \<Rightarrow> hook_state \<Rightarrow> list_input hook_run" where
  "hook_list env h i s =
     with_ctx h (\<lambda>cx s.
       case enforce_list env cx (lp_bucket i) (lp_prefix i) (FanoutUnsupported no_fanout_on_this_op) s of
         (verdict, s1) \<Rightarrow>
           (case list_verdict_single verdict (lp_prefix i) of
              Inl e \<Rightarrow> (Inl e, s1)
            | Inr pfx \<Rightarrow> (Inr (i\<lparr>lp_prefix := pfx\<rparr>), s1))) s"

definition hook_list_objects :: "environment \<Rightarrow> http_parts \<Rightarrow> list_input \<Rightarrow> hook_state \<Rightarrow> list_input hook_run" where
  "hook_list_objects env h i s =
     hook_list env h (i\<lparr>lp_optional_object_attributes := map_option split_comma_list (lp_optional_object_attributes i)\<rparr>) s"

definition hook_create_multipart_upload :: "environment \<Rightarrow> http_parts \<Rightarrow> put_input \<Rightarrow> hook_state \<Rightarrow> put_input hook_run" where
  "hook_create_multipart_upload env h i s =
     (let i1 = i\<lparr>pi_content_encoding := strip_aws_chunked (pi_content_encoding i)\<rparr>;
          riders = riders_parse (pi_acl i) (pi_tagging i) False (max_tag_count s)
      in with_ctx h (\<lambda>cx s. pass_on i1
           (enforce_object_write env cx WriteObjects (pi_bucket i) (pi_key i) riders ChargeNothing s)) s)"

definition hook_upload_part :: "environment \<Rightarrow> http_parts \<Rightarrow> put_input \<Rightarrow> hook_state \<Rightarrow> put_input hook_run" where
  "hook_upload_part env h i s =
     (let ch = ChargeBody (declared_body_length (ht_headers h) (pi_content_length i))
      in with_ctx h (\<lambda>cx s. pass_on i (enforce_object_charged env cx WriteObjects (pi_bucket i) (pi_key i) ch s)) s)"

definition hook_complete_multipart_upload ::
  "environment \<Rightarrow> http_parts \<Rightarrow> object_input \<Rightarrow> hook_state \<Rightarrow> object_input hook_run" where
  "hook_complete_multipart_upload env h i s =
     with_ctx h (\<lambda>cx s. pass_on i
       (enforce_object_charged env cx WriteObjects (in_bucket i) (in_key i) (ChargeBody (Some 0)) s)) s"

definition hook_upload_part_copy ::
  "environment \<Rightarrow> http_parts \<Rightarrow> copy_object_input \<Rightarrow> hook_state \<Rightarrow> copy_object_input hook_run" where
  "hook_upload_part_copy env h i s =
     with_ctx h (\<lambda>cx s. pass_on i
       (enforce_copy env cx (co_source i) (co_bucket i) (co_key i) riders_default (co_sizing i) s)) s"

definition hook_list_buckets ::
  "environment \<Rightarrow> http_parts \<Rightarrow> list_buckets_input \<Rightarrow> hook_state \<Rightarrow> list_buckets_input hook_run" where
  "hook_list_buckets env h i s =
     with_ctx h (\<lambda>cx s.
       case enforce_bucket_listing env cx s of
         (visibility, s1) \<Rightarrow>
           (Inr i, s1\<lparr>hs_ext := (hs_ext s1)
              \<lparr>ex_obligations := Some (obligations_buckets visibility (bucket_source_of (cx_placement cx) (cx_route cx)))\<rparr>\<rparr>)) s"

definition hook_bucket :: "environment \<Rightarrow> http_parts \<Rightarrow> string \<Rightarrow> hook_state \<Rightarrow> string hook_run" where
  "hook_bucket env h bucket s = with_ctx h (\<lambda>cx s. pass_on bucket (enforce_bucket env cx Read bucket s)) s"

definition tagging_input :: "req_ctx \<Rightarrow> put_tagging_input \<Rightarrow> string btree option \<Rightarrow> opa_input" where
  "tagging_input cx i tags =
     (base_input cx WriteObjectTags (pt_bucket i))\<lparr>oi_object := Some (pt_key i), oi_requested_tags := tags\<rparr>"

definition hook_put_object_tagging ::
  "environment \<Rightarrow> http_parts \<Rightarrow> put_tagging_input \<Rightarrow> hook_state \<Rightarrow> put_tagging_input hook_run" where
  "hook_put_object_tagging env h i s =
     (let max_tags = max_tag_count s
      in with_ctx h (\<lambda>cx s.
           pass_on i
             (case parse_tag_set (pt_tag_set i) max_tags of
                Inl why \<Rightarrow> refused_with (refuse env (tagging_input cx i None) why s)
              | Inr tags \<Rightarrow>
                  (case check_tags (current_reserved_tag_keys s) tags of
                     Inl why \<Rightarrow> refused_with (refuse env (tagging_input cx i (Some tags)) why s)
                   | Inr _ \<Rightarrow> enforce env cx (tagging_input cx i (Some tags)) s))) s)"

definition hook_delete_object_tagging ::
  "environment \<Rightarrow> http_parts \<Rightarrow> object_input \<Rightarrow> hook_state \<Rightarrow> object_input hook_run" where
  "hook_delete_object_tagging env h i s =
     with_ctx h (\<lambda>cx s.
       pass_on i
         (case inert_reason (current_reserved_tag_keys s) of
            Some why \<Rightarrow>
              refused_with (refuse env ((base_input cx WriteObjectTags (in_bucket i))\<lparr>oi_object := Some (in_key i)\<rparr>) why s)
          | None \<Rightarrow> enforce_object env cx WriteObjectTags (in_bucket i) (in_key i) s)) s"

definition hook_get_object_attributes ::
  "environment \<Rightarrow> http_parts \<Rightarrow> attributes_input \<Rightarrow> hook_state \<Rightarrow> attributes_input hook_run" where
  "hook_get_object_attributes env h i s =
     (let i1 = i\<lparr>at_object_attributes := split_comma_list (at_object_attributes i)\<rparr>
      in with_ctx h (\<lambda>cx s. pass_on i1 (enforce_object env cx ReadObjects (at_bucket i) (at_key i) s)) s)"

text \<open>The hook \<open>s3s\<close> calls for an operation.\<close>

definition rewrap :: "('i \<Rightarrow> s3_call) \<Rightarrow> 'i hook_run \<Rightarrow> s3_call hook_run" where
  "rewrap c r = (case r of (Inl e, s) \<Rightarrow> (Inl e, s) | (Inr i, s) \<Rightarrow> (Inr (c i), s))"

fun run_hook :: "environment \<Rightarrow> http_parts \<Rightarrow> s3_call \<Rightarrow> hook_state \<Rightarrow> s3_call hook_run" where
  "run_hook env h (GetObject i) s = rewrap GetObject (hook_object env ReadObjects h i s)"
| "run_hook env h (HeadObject i) s = rewrap HeadObject (hook_object env ReadObjects h i s)"
| "run_hook env h (PutObject i) s = rewrap PutObject (hook_put_object env h i s)"
| "run_hook env h (PostObject i) s = rewrap PostObject (hook_post_object env h i s)"
| "run_hook env h (DeleteObject i) s = rewrap DeleteObject (hook_delete_object env h i s)"
| "run_hook env h (DeleteObjects_Call i) s = rewrap DeleteObjects_Call (hook_delete_objects env h i s)"
| "run_hook env h (CopyObject i) s = rewrap CopyObject (hook_copy_object env h i s)"
| "run_hook env h (ListObjectsV2 i) s = rewrap ListObjectsV2 (hook_list_objects_v2 env h i s)"
| "run_hook env h (ListObjects_Call i) s = rewrap ListObjects_Call (hook_list_objects env h i s)"
| "run_hook env h (CreateMultipartUpload i) s = rewrap CreateMultipartUpload (hook_create_multipart_upload env h i s)"
| "run_hook env h (UploadPart i) s = rewrap UploadPart (hook_upload_part env h i s)"
| "run_hook env h (CompleteMultipartUpload i) s = rewrap CompleteMultipartUpload (hook_complete_multipart_upload env h i s)"
| "run_hook env h (AbortMultipartUpload i) s = rewrap AbortMultipartUpload (hook_object env WriteObjects h i s)"
| "run_hook env h (ListParts i) s = rewrap ListParts (hook_object env ReadObjects h i s)"
| "run_hook env h (UploadPartCopy i) s = rewrap UploadPartCopy (hook_upload_part_copy env h i s)"
| "run_hook env h (ListMultipartUploads i) s = rewrap ListMultipartUploads (hook_list env h i s)"
| "run_hook env h (ListBuckets i) s = rewrap ListBuckets (hook_list_buckets env h i s)"
| "run_hook env h (HeadBucket b) s = rewrap HeadBucket (hook_bucket env h b s)"
| "run_hook env h (GetBucketLocation b) s = rewrap GetBucketLocation (hook_bucket env h b s)"
| "run_hook env h (GetObjectTagging i) s = rewrap GetObjectTagging (hook_object env ReadObjects h i s)"
| "run_hook env h (PutObjectTagging i) s = rewrap PutObjectTagging (hook_put_object_tagging env h i s)"
| "run_hook env h (DeleteObjectTagging i) s = rewrap DeleteObjectTagging (hook_delete_object_tagging env h i s)"
| "run_hook env h (GetObjectAttributes i) s = rewrap GetObjectAttributes (hook_get_object_attributes env h i s)"

section \<open>The check before every hook\<close>

record check_context =
  ck_operation :: string
  ck_access_key :: "string option"
  ck_http :: http_parts

definition gate_refused ::
  "environment \<Rightarrow> check_context \<Rightarrow> gate_stage \<Rightarrow> string option \<Rightarrow> string option \<Rightarrow> string \<Rightarrow> string \<Rightarrow> hook_state \<Rightarrow> enforced_run"
where
  "gate_refused env c stage tenant sub reason message s =
     (Inl (access_denied message),
      emit (gate_denial_record env (hs_serial s) (ck_operation c) stage (ck_access_key c) tenant sub reason) s)"

definition access_check :: "environment \<Rightarrow> crypto \<Rightarrow> identity \<Rightarrow> nat \<Rightarrow> check_context \<Rightarrow> hook_state \<Rightarrow> enforced_run" where
  "access_check env cr ident now c s =
     (case ck_access_key c of
        None \<Rightarrow> gate_refused env c Anonymous None None ''unsigned request'' ''Signature is required'' s
      | Some access_key \<Rightarrow>
          (case gate_op (ck_operation c) of
             Inl denial \<Rightarrow>
               gate_refused env c OperationNotEnforced None None (gate_denial_as_str denial)
                 (gate_denial_as_str denial @ '': '' @ ck_operation c) s
           | Inr _ \<Rightarrow>
               (case identity_resolve cr ident now access_key
                       (session_token (ht_headers (ck_http c)) (ht_query (ck_http c))) of
                  Inl e \<Rightarrow>
                    let why = ''identity rejected: '' @ gateway_error_display e
                    in gate_refused env c IdentityRejected None None why why s
                | Inr p \<Rightarrow>
                    (case route_snapshot_for (gw_registry (hs_gw s)) (rp_tenant p) of
                       None \<Rightarrow>
                         let why = ''tenant '' @ rp_tenant p @ '' is not routable''
                         in gate_refused env c TenantNotRoutable (Some (rp_tenant p)) (Some (rp_sub p)) why why s
                     | Some route \<Rightarrow>
                         (Inr (), s\<lparr>hs_ext := (hs_ext s)
                            \<lparr>ex_principal := Some p, ex_route := Some route,
                             ex_placement := Some (b_placement (bst_current (gw_bundles (hs_gw s)))),
                             ex_operation := Some (ck_operation c)\<rparr>\<rparr>)))))"

section \<open>What a run of a hook leaves behind\<close>

text \<open>A request as the check hands it on: not proved, nothing pending.\<close>

definition fresh :: "hook_state \<Rightarrow> bool" where
  "fresh s \<longleftrightarrow> ex_proof (hs_ext s) = None \<and> ex_pending (hs_ext s) = None"

text \<open>Refused: no proof, nothing pending, and one more record, a denial. Allowed: a proof for the operation, and a pending
  record of an allow.\<close>

definition refused_run :: "hook_state \<Rightarrow> hook_state \<Rightarrow> bool" where
  "refused_run s s' \<longleftrightarrow>
     ex_proof (hs_ext s') = None \<and> ex_pending (hs_ext s') = None \<and>
     (\<exists>r. hs_emitted s' = hs_emitted s @ [r] \<and> gm_outcome (ar_gateway r) = OutcomeDenied \<and>
        gm_backend (ar_gateway r) = NotAttempted \<and> \<not> d_allow (ar_result r))"

definition granted_run :: "req_ctx \<Rightarrow> hook_state \<Rightarrow> hook_state \<Rightarrow> bool" where
  "granted_run cx s s' \<longleftrightarrow>
     ex_proof (hs_ext s') = Some (cx_operation cx) \<and> hs_emitted s' = hs_emitted s \<and>
     (\<exists>r. ex_pending (hs_ext s') = Some (Some r) \<and> gm_outcome (ar_gateway r) = OutcomeAllowed \<and>
        gm_backend (ar_gateway r) = NotAttempted \<and> d_allow (ar_result r))"

definition about_ctx :: "req_ctx \<Rightarrow> opa_input \<Rightarrow> bool" where
  "about_ctx cx q \<longleftrightarrow>
     oi_principal q = to_opa_principal (cx_principal cx) \<and> oi_tenant q = rs_tenant (cx_route cx) \<and>
     oi_organization_id q = rs_organization_id (cx_route cx) \<and> be_id (oi_backend q) = rs_backend_id (cx_route cx)"

text \<open>A permission: the policy engine was asked this verb on this bucket and object, for this request's principal and
  tenant, and said yes.\<close>

type_synonym permission = "action \<times> string \<times> string option"

definition permitted :: "req_ctx \<Rightarrow> hook_state \<Rightarrow> permission \<Rightarrow> bool" where
  "permitted cx s p \<longleftrightarrow>
     (\<exists>q d. (q, d) \<in> set (hs_asked s) \<and> d_allow d \<and> about_ctx cx q \<and> (oi_action q, oi_bucket q, oi_object q) = p)"

text \<open>From one state of a run to a later one: what was asked stays asked, what is asked since passed the placement screen,
  and what the check put in the extensions stays.\<close>

definition later :: "req_ctx \<Rightarrow> hook_state \<Rightarrow> hook_state \<Rightarrow> bool" where
  "later cx s s' \<longleftrightarrow>
     set (hs_asked s) \<subseteq> set (hs_asked s') \<and>
     (\<forall>q d. (q, d) \<in> set (hs_asked s') \<and> (q, d) \<notin> set (hs_asked s) \<longrightarrow> input_placement_refusal cx q = None) \<and>
     ex_principal (hs_ext s') = ex_principal (hs_ext s) \<and> ex_route (hs_ext s') = ex_route (hs_ext s) \<and>
     ex_placement (hs_ext s') = ex_placement (hs_ext s) \<and> ex_operation (hs_ext s') = ex_operation (hs_ext s)"

text \<open>No step between: the proof, the pending record and the emitted records are as they were.\<close>

definition quiet :: "hook_state \<Rightarrow> hook_state \<Rightarrow> bool" where
  "quiet s s' \<longleftrightarrow>
     ex_proof (hs_ext s') = ex_proof (hs_ext s) \<and> ex_pending (hs_ext s') = ex_pending (hs_ext s) \<and>
     ex_obligations (hs_ext s') = ex_obligations (hs_ext s) \<and> hs_emitted s' = hs_emitted s"

named_theorems run_simps

lemma later_refl [simp]: "later cx s s"
  by (simp add: later_def)

lemma later_trans [trans]: "later cx s s1 \<Longrightarrow> later cx s1 s2 \<Longrightarrow> later cx s s2"
  unfolding later_def by (metis subset_iff)

lemma quiet_trans [trans]: "quiet s s1 \<Longrightarrow> quiet s1 s2 \<Longrightarrow> quiet s s2"
  by (simp add: quiet_def)

lemma quiet_fresh: "quiet s s1 \<Longrightarrow> fresh s1 = fresh s"
  by (simp add: quiet_def fresh_def)

lemma quiet_refused: "quiet s s1 \<Longrightarrow> refused_run s1 s2 = refused_run s s2"
  by (simp add: quiet_def refused_run_def)

lemma quiet_granted: "quiet s s1 \<Longrightarrow> granted_run cx s1 s2 = granted_run cx s s2"
  by (simp add: quiet_def granted_run_def)

lemma permitted_later: "permitted cx s p \<Longrightarrow> later cx s s1 \<Longrightarrow> permitted cx s1 p"
  unfolding permitted_def later_def by blast

lemma decide_later:
  assumes "decide env cx q s = (d, s1)"
  shows "later cx s s1" and "quiet s s1"
  using assms by (auto simp: decide_def Let_def later_def quiet_def split: option.splits prod.splits)

lemma decide_asked: "decide env cx q s = (d, s1) \<Longrightarrow> d_allow d \<Longrightarrow> (q, d) \<in> set (hs_asked s1)"
  by (auto simp: decide_def Let_def decision_deny_def split: option.splits prod.splits)

lemma decide_permits:
  assumes "decide env cx q s = (d, s1)" and "d_allow d" and "about_ctx cx q"
  shows "permitted cx s1 (oi_action q, oi_bucket q, oi_object q)"
  using decide_asked [OF assms(1,2)] assms(2,3) unfolding permitted_def by blast

lemma audit_denied_refused:
  assumes "fresh s" and "\<not> d_allow d"
  shows "refused_run s (snd (audit_denied env q d ks s))"
  using assms unfolding audit_denied_def emit_def make_record_def refused_run_def fresh_def
  by (simp add: Let_def audit_record_new_def)

lemma audit_denied_later: "later cx s (snd (audit_denied env q d ks s))"
  by (simp add: audit_denied_def emit_def later_def Let_def)

lemma audit_pending_granted:
  assumes "fresh s" and "d_allow d"
  shows "granted_run cx s (prove cx (audit_pending env q d ks s))"
  using assms unfolding audit_pending_def prove_def make_record_def granted_run_def fresh_def
  by (simp add: Let_def audit_record_new_def pending_new_def)

lemma audit_pending_later: "later cx s (prove cx (audit_pending env q d ks s))"
  by (simp add: audit_pending_def prove_def later_def Let_def)

lemma decision_deny_allow [simp]: "\<not> d_allow (decision_deny r)"
  by (simp add: decision_deny_def)

lemma decision_allow_allow [simp]: "d_allow (decision_allow r)"
  by (simp add: decision_allow_def)

lemma copy_size_silent:
  assumes "copy_size env cx c s = (r, s1)"
  shows "hs_asked s1 = hs_asked s" and "hs_ext s1 = hs_ext s" and "hs_emitted s1 = hs_emitted s"
  using assms by (auto simp: copy_size_def Let_def split: option.splits prod.splits sum.splits)

lemma hold_quota_quiet:
  assumes "hold_quota env cx q ch s = (r, s1)"
  shows "later cx s s1 \<and> quiet s s1"
proof (cases ch)
  case (ChargeCopy c)
  obtain rc sc where sc: "copy_size env cx c s = (rc, sc)" by (cases "copy_size env cx c s")
  show ?thesis
    using assms copy_size_silent [OF sc]
    by (auto simp: hold_quota_def ChargeCopy sc Let_def later_def quiet_def
        split: option.splits if_splits sum.splits prod.splits admission.splits)
qed (use assms in \<open>auto simp: hold_quota_def Let_def later_def quiet_def
        split: option.splits if_splits sum.splits prod.splits admission.splits\<close>)

text \<open>The contract every enforce helper keeps: it refuses with one denial record and no proof, or accepts with a proof and
  a pending record after the permissions it names were granted.\<close>

definition settled :: "req_ctx \<Rightarrow> permission list \<Rightarrow> hook_state \<Rightarrow> ('e + 'a) \<times> hook_state \<Rightarrow> bool" where
  "settled cx needs s rs \<longleftrightarrow>
     later cx s (snd rs) \<and>
     (case fst rs of
        Inl e \<Rightarrow> refused_run s (snd rs)
      | Inr a \<Rightarrow> granted_run cx s (snd rs) \<and> (\<forall>p \<in> set needs. permitted cx (snd rs) p))"

lemma settled_after:
  assumes "later cx s s1" and "quiet s s1" and "settled cx needs s1 rs" and "\<forall>p \<in> set more_needs. permitted cx s1 p"
  shows "settled cx (more_needs @ needs) s rs"
  using assms later_trans [OF assms(1)] quiet_refused [OF assms(2)] quiet_granted [OF assms(2)] permitted_later
  unfolding settled_def by (fastforce split: sum.splits)

lemma settled_deny:
  assumes "fresh s"
  shows "settled cx needs s (refused_with (deny env q why s))" "settled cx needs s (refused_with (refuse env q why s))"
    "settled cx needs s (refused_with (deny_placement env q r s))"
  using audit_denied_refused [OF assms] audit_denied_later
  unfolding settled_def refused_with_def deny_def refuse_def deny_placement_def by simp_all

lemma settled_deny_quota: "fresh s \<Longrightarrow> settled cx needs s (refused_with (deny_quota env q dn s))"
  using audit_denied_refused [of s "decision_deny (quota_denial_reason env dn)" env q "[]"]
    audit_denied_later [of cx s env q "decision_deny (quota_denial_reason env dn)" "[]"]
  unfolding settled_def refused_with_def deny_quota_def by (simp add: case_prod_unfold Let_def)

lemma grant_charged_settled:
  assumes "fresh s" and "d_allow d"
  shows "settled cx [] s (grant_charged env cx q d ch s)"
proof -
  obtain r s1 where q: "hold_quota env cx q ch s = (r, s1)" by (cases "hold_quota env cx q ch s")
  note h = hold_quota_quiet [OF q]
  have f: "fresh s1" using h quiet_fresh assms(1) by blast
  have "settled cx [] s1 (grant_charged env cx q d ch s)"
    using audit_pending_granted [OF f assms(2)] audit_pending_later
    by (cases r) (simp_all add: grant_charged_def q settled_deny_quota [OF f], simp add: settled_def)
  then show ?thesis
    using settled_after [of cx s s1 "[]" _ "[]"] h by simp
qed

lemma enforce_charged_settled:
  assumes "fresh s" and "about_ctx cx q"
  shows "settled cx [(oi_action q, oi_bucket q, oi_object q)] s (enforce_charged env cx q ch s)"
proof (cases "input_placement_refusal cx q")
  case None
  obtain d s1 where d: "decide env cx q s = (d, s1)" by (cases "decide env cx q s")
  note l = decide_later [OF d]
  have f: "fresh s1" using l quiet_fresh assms(1) by blast
  let ?p = "(oi_action q, oi_bucket q, oi_object q)"
  show ?thesis
  proof (cases "d_allow d")
    case True
    have "settled cx [] s1 (enforce_charged env cx q ch s)"
      by (simp add: enforce_charged_def None d True settled_deny(1) [OF f] grant_charged_settled [OF f True] split: option.splits)
    then show ?thesis
      using settled_after [OF l, of "[]" _ "[?p]"] decide_permits [OF d True assms(2)] by simp
  next
    case False
    then have "settled cx [?p] s1 (enforce_charged env cx q ch s)"
      using audit_denied_refused [OF f False] audit_denied_later
      by (simp add: enforce_charged_def None d Let_def settled_def)
    then show ?thesis
      using settled_after [OF l, of "[?p]" _ "[]"] by simp
  qed
qed (simp add: enforce_charged_def settled_deny(3) [OF assms(1)])

lemma about_base [simp]: "about_ctx cx (base_input cx act b)" "about_ctx cx (write_input cx act b k riders)"
    "about_ctx cx (copy_input cx sb sk b k riders)"
  by (simp_all add: about_ctx_def base_input_def write_input_def copy_input_def)

lemma about_update [simp]:
  "about_ctx cx (q\<lparr>oi_object := k\<rparr>) = about_ctx cx q" "about_ctx cx (q\<lparr>oi_action := a\<rparr>) = about_ctx cx q"
  "about_ctx cx (q\<lparr>oi_requested_tags := t\<rparr>) = about_ctx cx q" "about_ctx cx (q\<lparr>oi_prefix := p\<rparr>) = about_ctx cx q"
  by (simp_all add: about_ctx_def)

lemma input_fields [simp]:
  "oi_action (base_input cx act b) = act" "oi_bucket (base_input cx act b) = b" "oi_object (base_input cx act b) = None"
  "oi_action (write_input cx act b k r) = act" "oi_bucket (write_input cx act b k r) = b"
  "oi_object (write_input cx act b k r) = Some k"
  "oi_action (copy_input cx sb sk b k r) = WriteObjects" "oi_bucket (copy_input cx sb sk b k r) = b"
  "oi_object (copy_input cx sb sk b k r) = Some k"
  by (simp_all add: base_input_def write_input_def copy_input_def)

lemma authorize_riders_later:
  assumes "authorize_riders env cx q riders s = (w, s1)" and "about_ctx cx q"
  shows "later cx s s1" and "quiet s s1"
    and "w = None \<Longrightarrow> rr_tags riders \<noteq> None \<Longrightarrow> permitted cx s1 (WriteObjectTags, oi_bucket q, oi_object q)"
proof -
  obtain d s2 where d: "decide env cx (q\<lparr>oi_action := WriteObjectTags\<rparr>) s = (d, s2)"
    by (cases "decide env cx (q\<lparr>oi_action := WriteObjectTags\<rparr>) s")
  show "later cx s s1" "quiet s s1"
    using assms(1) decide_later [OF d] by (auto simp: authorize_riders_def d quiet_def split: option.splits)
  assume "w = None" "rr_tags riders \<noteq> None"
  then show "permitted cx s1 (WriteObjectTags, oi_bucket q, oi_object q)"
    using assms decide_permits [OF d] by (auto simp: authorize_riders_def d split: if_splits)
qed

definition tag_needs :: "string \<Rightarrow> string \<Rightarrow> bool \<Rightarrow> permission list" where
  "tag_needs b k tagged = (if tagged then [(WriteObjectTags, b, Some k)] else [])"

definition tagged :: "request_riders res \<Rightarrow> bool" where
  "tagged riders \<longleftrightarrow> (case riders of Inl e \<Rightarrow> True | Inr r \<Rightarrow> rr_tags r \<noteq> None)"

lemma tagged_parse: "tagging \<noteq> None \<Longrightarrow> tagged (riders_parse acl tagging bypass n)"
  by (auto simp: tagged_def riders_parse_def split: option.splits sum.splits)

lemma enforce_object_write_settled:
  assumes "fresh s"
  shows "settled cx (tag_needs b k (tagged riders) @ [(act, b, Some k)]) s
    (enforce_object_write env cx act b k riders ch s)"
proof (cases riders)
  case (Inr r)
  let ?q = "write_input cx act b k r"
  obtain w s1 where w: "authorize_riders env cx ?q r s = (w, s1)" by (cases "authorize_riders env cx ?q r s")
  note l = authorize_riders_later [OF w about_base(2)]
  have f: "fresh s1" using l(2) quiet_fresh assms by blast
  show ?thesis
  proof (cases "input_placement_refusal cx ?q = None \<and> screen_riders r s = Inr ()")
    case True
    show ?thesis
    proof (cases w)
      case None
      have "\<forall>p \<in> set (tag_needs b k (rr_tags r \<noteq> None)). permitted cx s1 p"
        using l(3) None by (simp add: tag_needs_def)
      from settled_after [OF l(1,2) enforce_charged_settled [OF f about_base(2)] this] show ?thesis
        using True by (simp add: enforce_object_write_def Inr w None tagged_def)
    next
      case (Some why)
      then show ?thesis
        using settled_after [OF l(1,2) settled_deny(1) [OF f], of "[]"] True
        by (simp add: enforce_object_write_def Inr w)
    qed
  next
    case False
    then show ?thesis
      using settled_deny [OF assms]
      by (auto simp: enforce_object_write_def Inr Let_def split: option.splits sum.splits)
  qed
qed (simp add: enforce_object_write_def settled_deny [OF assms])

lemma enforce_copy_settled:
  assumes "fresh s"
  shows "settled cx ([(ReadObjects, sb, Some sk), (WriteObjects, b, Some k)] @ tag_needs b k (rr_tags r \<noteq> None)) s
    (enforce_copy env cx (CopyFromBucket sb sk sv) b k r z s)"
proof -
  let ?q = "copy_input cx sb sk b k r" and ?src = "(base_input cx ReadObjects sb)\<lparr>oi_object := Some sk\<rparr>"
  let ?run = "enforce_copy env cx (CopyFromBucket sb sk sv) b k r z s"
  obtain d1 s1 where d1: "decide env cx ?src s = (d1, s1)" by (cases "decide env cx ?src s")
  obtain d2 s2 where d2: "decide env cx ?q s1 = (d2, s2)" by (cases "decide env cx ?q s1")
  obtain w s3 where w: "authorize_riders env cx ?q r s2 = (w, s3)" by (cases "authorize_riders env cx ?q r s2")
  note l1 = decide_later [OF d1] and l2 = decide_later [OF d2] and l3 = authorize_riders_later [OF w about_base(3)]
  note l12 = later_trans [OF l1(1) l2(1)] quiet_trans [OF l1(2) l2(2)]
  note l123 = later_trans [OF l12(1) l3(1)] quiet_trans [OF l12(2) l3(2)]
  have f: "fresh s2" "fresh s3" using l12(2) l123(2) quiet_fresh assms by blast+
  show ?thesis
  proof (cases "input_placement_refusal cx ?q = None \<and> screen_riders r s = Inr ()")
    case screened: True
    show ?thesis
    proof (cases "d_allow d1 \<and> d_allow d2")
      case True
      have p: "permitted cx s3 (ReadObjects, sb, Some sk)" "permitted cx s3 (WriteObjects, b, Some k)"
        using permitted_later [OF permitted_later [OF decide_permits [OF d1] l2(1)] l3(1)]
          permitted_later [OF decide_permits [OF d2] l3(1)] True by simp_all
      show ?thesis
      proof (cases w)
        case None
        have "settled cx [] s3 ?run"
          using grant_charged_settled [OF f(2)] screened True by (simp add: enforce_copy_def d1 d2 w None)
        from settled_after [OF l123 this] show ?thesis
          using p l3(3) None by (simp add: tag_needs_def)
      next
        case (Some why)
        then show ?thesis
          using settled_after [OF l123 settled_deny(1) [OF f(2)], of "[]"] screened True
          by (simp add: enforce_copy_def d1 d2 w)
      qed
    next
      case False
      have "settled cx needs s2 ?run" for needs
        using False screened audit_denied_refused [OF f(1)] audit_denied_later
        by (auto simp: enforce_copy_def d1 d2 settled_def)
      from settled_after [OF l12 this, of "[]"] show ?thesis by simp
    qed
  next
    case False
    then show ?thesis
      using settled_deny [OF assms] by (auto simp: enforce_copy_def Let_def split: option.splits sum.splits)
  qed
qed

lemma decide_keys_later:
  assumes "decide_keys env cx b keys al re s = (al', re', s1)"
  shows "later cx s s1 \<and> quiet s s1 \<and>
    (\<forall>k \<in> set al'. k \<in> set al \<or> permitted cx s1 (DeleteObjects, b, Some k))"
  using assms
proof (induction keys arbitrary: al re s)
  case (Cons key keys)
  let ?q = "(base_input cx DeleteObjects b)\<lparr>oi_object := Some key\<rparr>"
  obtain d sd where d: "decide env cx ?q s = (d, sd)" by (cases "decide env cx ?q s")
  note l = decide_later [OF d]
  show ?case
  proof (cases "d_allow d")
    case True
    have "decide_keys env cx b keys (al @ [key]) re sd = (al', re', s1)"
      using Cons.prems by (simp add: d True)
    from Cons.IH [OF this] decide_permits [OF d True] show ?thesis
      using later_trans [OF l(1)] quiet_trans [OF l(2)] permitted_later by fastforce
  next
    case False
    then have "decide_keys env cx b keys al (re @ [key]) sd = (al', re', s1)"
      using Cons.prems by (simp add: d)
    from Cons.IH [OF this] show ?thesis
      using later_trans [OF l(1)] quiet_trans [OF l(2)] by blast
  qed
qed (simp add: quiet_def)

lemma enforce_delete_objects_settled:
  assumes "fresh s"
  shows "settled cx [] s (enforce_delete_objects env cx cap i s)"
    and "fst (enforce_delete_objects env cx cap i s) = Inr j \<Longrightarrow>
      do_bucket j = do_bucket i \<and>
      (\<forall>ob \<in> set (do_objects j). permitted cx (snd (enforce_delete_objects env cx cap i s)) (DeleteObjects, do_bucket j, Some (od_key ob)))"
proof -
  let ?keys = "map od_key (do_objects i)" and ?q = "base_input cx DeleteObjects (do_bucket i)"
  let ?run = "enforce_delete_objects env cx cap i s"
  obtain al re s1 where k: "decide_keys env cx (do_bucket i) ?keys [] [] s = (al, re, s1)"
    by (cases "decide_keys env cx (do_bucket i) ?keys [] [] s")
  note l = decide_keys_later [OF k]
  have f: "fresh s1" using l quiet_fresh assms by blast
  let ?screened = "input_placement_refusal cx ?q = None \<and> length ?keys \<le> cap \<and> do_bypass_governance_retention i \<noteq> Some True"
  have run: "settled cx [] s1 ?run" if ?screened
    using that audit_denied_refused [OF f] audit_denied_later audit_pending_granted [OF f] audit_pending_later
    by (simp add: enforce_delete_objects_def k Let_def settled_def)
  show "settled cx [] s ?run"
  proof (cases ?screened)
    case True
    then show ?thesis using settled_after [of cx s s1 "[]" ?run "[]"] l run by simp
  next
    case False
    then show ?thesis
      using settled_deny [OF assms]
      by (auto simp: enforce_delete_objects_def Let_def split: option.splits)
  qed
  assume j: "fst ?run = Inr j"
  have r: "?screened \<and> al \<noteq> [] \<and> j = i\<lparr>do_objects := filter (\<lambda>ob. od_key ob \<in> set al) (do_objects i)\<rparr> \<and> later cx s1 (snd ?run)"
    using j audit_pending_later
    by (auto simp: enforce_delete_objects_def k Let_def refused_with_def split: option.splits if_splits)
  then show "do_bucket j = do_bucket i \<and>
      (\<forall>ob \<in> set (do_objects j). permitted cx (snd ?run) (DeleteObjects, do_bucket j, Some (od_key ob)))"
    using l permitted_later by fastforce
qed

text \<open>What a listing is allowed to cover: the obligations of the verdict, applied to the request.\<close>

definition list_scope :: "decision \<Rightarrow> string option \<Rightarrow> string option \<Rightarrow> string list option \<Rightarrow> bool" where
  "list_scope d asked_prefix forwarded fanned \<longleftrightarrow>
     (case ob_narrow_prefix (d_obligations d) of
        Some np \<Rightarrow> forwarded = Some np \<and> fanned = None
      | None \<Rightarrow>
          if ob_allowed_prefixes (d_obligations d) = [] then forwarded = asked_prefix \<and> fanned = None
          else \<exists>pfxs. fanned = Some pfxs \<and> set pfxs = set (ob_allowed_prefixes (d_obligations d)) \<and> sorted_wrt (<) pfxs)"

lemma classify_list_allows: "\<not> (\<exists>r. classify_list d n fo = ListDeny r) \<Longrightarrow> d_allow d \<and> unimplemented (d_obligations d) = []"
  by (auto simp: classify_list_def unimplemented_obligations_def Let_def split: if_splits)

lemma enforce_list_settled:
  assumes "fresh s" and "enforce_list env cx b p fo s = (v, s1)"
  shows "case v of ListDeny r \<Rightarrow> settled cx [] s (Inl () :: unit + unit, s1) | _ \<Rightarrow> settled cx [(ListObjects, b, None)] s (Inr () :: unit + unit, s1)"
    and "quiet s s1 \<or> ex_obligations (hs_ext s1) = ex_obligations (hs_ext s)"
    and "\<not> (\<exists>r. v = ListDeny r) \<Longrightarrow>
      \<exists>q d n. (q, d) \<in> set (hs_asked s1) \<and> d_allow d \<and> unimplemented (d_obligations d) = [] \<and> about_ctx cx q \<and>
        oi_action q = ListObjects \<and> oi_bucket q = b \<and> oi_prefix q = p \<and> v = classify_list d n fo"
proof -
  let ?q = "(base_input cx ListObjects b)\<lparr>oi_prefix := p\<rparr>"
  obtain d sd where d: "decide env cx ?q s = (d, sd)" by (cases "decide env cx ?q s")
  note l = decide_later [OF d]
  have f: "fresh sd" using l quiet_fresh assms(1) by blast
  let ?v = "classify_list d (lm_max_list_fanout (gw_limits (hs_gw sd))) fo"
  show "\<exists>q d n. (q, d) \<in> set (hs_asked s1) \<and> d_allow d \<and> unimplemented (d_obligations d) = [] \<and> about_ctx cx q \<and>
        oi_action q = ListObjects \<and> oi_bucket q = b \<and> oi_prefix q = p \<and> v = classify_list d n fo"
    if "\<not> (\<exists>r. v = ListDeny r)"
  proof -
    have "v = ?v" "later cx sd s1"
      using assms(2) that audit_pending_later
      by (auto simp: enforce_list_def d Let_def split: option.splits list_verdict.splits)
    moreover have "d_allow d" "unimplemented (d_obligations d) = []"
      using that \<open>v = ?v\<close> classify_list_allows by auto
    ultimately show ?thesis
      using decide_asked [OF d] by (intro exI [of _ ?q] exI [of _ d]) (auto simp: later_def)
  qed
  show "quiet s s1 \<or> ex_obligations (hs_ext s1) = ex_obligations (hs_ext s)"
    using assms(2) l(2)
    by (auto simp: enforce_list_def d Let_def quiet_def audit_denied_def emit_def audit_pending_def prove_def
        split: option.splits list_verdict.splits)
  show "case v of ListDeny r \<Rightarrow> settled cx [] s (Inl () :: unit + unit, s1) | _ \<Rightarrow> settled cx [(ListObjects, b, None)] s (Inr () :: unit + unit, s1)"
  proof (cases "input_placement_refusal cx ?q")
    case (Some r)
    then show ?thesis
      using assms audit_denied_refused [OF assms(1)] audit_denied_later
      by (auto simp: enforce_list_def settled_def)
  next
    case None
    have v: "v = ?v" using assms(2) by (auto simp: enforce_list_def d None Let_def)
    show ?thesis
    proof (cases "\<exists>r. v = ListDeny r")
      case True
      then obtain r where r: "v = ListDeny r" by blast
      have "settled cx [] sd (Inl () :: unit + unit, s1)"
        using assms(2) audit_denied_refused [OF f] audit_denied_later v [symmetric]
        by (auto simp: enforce_list_def d None r settled_def)
      from settled_after [OF l this, of "[]"] show ?thesis by (simp add: r)
    next
      case False
      then have a: "d_allow d" using v classify_list_allows [of d _ fo] by auto
      have "settled cx [] sd (Inr () :: unit + unit, s1)"
        using assms(2) False v audit_pending_granted [OF f a] audit_pending_later
        by (auto simp: enforce_list_def d None Let_def settled_def split: list_verdict.splits)
      from settled_after [OF l this, of "[(ListObjects, b, None)]"] show ?thesis
        using decide_permits [OF d a] False by (simp split: list_verdict.splits)
    qed
  qed
qed

text \<open>What a forwarded request needs permission for.\<close>

fun call_permissions :: "s3_call \<Rightarrow> permission list" where
  "call_permissions (GetObject i) = [(ReadObjects, in_bucket i, Some (in_key i))]"
| "call_permissions (HeadObject i) = [(ReadObjects, in_bucket i, Some (in_key i))]"
| "call_permissions (PutObject i) =
     tag_needs (pi_bucket i) (pi_key i) (pi_tagging i \<noteq> None) @ [(WriteObjects, pi_bucket i, Some (pi_key i))]"
| "call_permissions (PostObject i) =
     tag_needs (pi_bucket i) (pi_key i) (pi_tagging i \<noteq> None) @ [(WriteObjects, pi_bucket i, Some (pi_key i))]"
| "call_permissions (DeleteObject i) = [(DeleteObjects, dl_bucket i, Some (dl_key i))]"
| "call_permissions (DeleteObjects_Call i) = map (\<lambda>ob. (DeleteObjects, do_bucket i, Some (od_key ob))) (do_objects i)"
| "call_permissions (CopyObject i) =
     (case co_source i of
        CopyFromElsewhere \<Rightarrow> []
      | CopyFromBucket sb sk sv \<Rightarrow> [(ReadObjects, sb, Some sk)]) @
     tag_needs (co_bucket i) (co_key i) (copy_tagging i \<noteq> None) @ [(WriteObjects, co_bucket i, Some (co_key i))]"
| "call_permissions (ListObjectsV2 i) = [(ListObjects, li_bucket i, None)]"
| "call_permissions (ListObjects_Call i) = [(ListObjects, lp_bucket i, None)]"
| "call_permissions (CreateMultipartUpload i) =
     tag_needs (pi_bucket i) (pi_key i) (pi_tagging i \<noteq> None) @ [(WriteObjects, pi_bucket i, Some (pi_key i))]"
| "call_permissions (UploadPart i) = [(WriteObjects, pi_bucket i, Some (pi_key i))]"
| "call_permissions (CompleteMultipartUpload i) = [(WriteObjects, in_bucket i, Some (in_key i))]"
| "call_permissions (AbortMultipartUpload i) = [(WriteObjects, in_bucket i, Some (in_key i))]"
| "call_permissions (ListParts i) = [(ReadObjects, in_bucket i, Some (in_key i))]"
| "call_permissions (UploadPartCopy i) =
     (case co_source i of
        CopyFromElsewhere \<Rightarrow> []
      | CopyFromBucket sb sk sv \<Rightarrow> [(ReadObjects, sb, Some sk)]) @ [(WriteObjects, co_bucket i, Some (co_key i))]"
| "call_permissions (ListMultipartUploads i) = [(ListObjects, lp_bucket i, None)]"
| "call_permissions (ListBuckets i) = [(Read, [], None)]"
| "call_permissions (HeadBucket b) = [(Read, b, None)]"
| "call_permissions (GetBucketLocation b) = [(Read, b, None)]"
| "call_permissions (GetObjectTagging i) = [(ReadObjects, in_bucket i, Some (in_key i))]"
| "call_permissions (PutObjectTagging i) = [(WriteObjectTags, pt_bucket i, Some (pt_key i))]"
| "call_permissions (DeleteObjectTagging i) = [(WriteObjectTags, in_bucket i, Some (in_key i))]"
| "call_permissions (GetObjectAttributes i) = [(ReadObjects, at_bucket i, Some (at_key i))]"

text \<open>How a hook may end: refused, or allowed with every permission of the request it hands on. A bucket listing is
  answered either way, and a refused one shows nothing.\<close>

definition withheld :: "hook_state \<Rightarrow> bool" where
  "withheld s \<longleftrightarrow> (\<exists>src. ex_obligations (hs_ext s) = Some (obligations_buckets Nothing src))"

definition hook_outcome :: "req_ctx \<Rightarrow> hook_state \<Rightarrow> s3_call hook_run \<Rightarrow> bool" where
  "hook_outcome cx s rs \<longleftrightarrow>
     later cx s (snd rs) \<and>
     (case fst rs of
        Inl e \<Rightarrow> refused_run s (snd rs)
      | Inr c \<Rightarrow>
          granted_run cx s (snd rs) \<and> (\<forall>p \<in> set (call_permissions c). permitted cx (snd rs) p) \<or>
          refused_run s (snd rs) \<and> (\<exists>i. c = ListBuckets i) \<and> withheld (snd rs))"

lemma settled_outcome:
  assumes "settled cx needs s rs" and "\<And>c. fst rs = Inr c \<Longrightarrow> set (call_permissions c) \<subseteq> set needs"
  shows "hook_outcome cx s rs"
  using assms unfolding settled_def hook_outcome_def by (auto split: sum.splits)

text \<open>The hooks that hand one context to one helper and pass their request on.\<close>

locale enforcing =
  fixes run :: "req_ctx \<Rightarrow> hook_state \<Rightarrow> enforced_run" and needs :: "permission list"
  assumes contract: "fresh s \<Longrightarrow> settled cx needs s (run cx s)"
begin

lemma hook_settled:
  assumes "req_ctx_new h (hs_ext s) = Inr cx" and "fresh s"
  shows "settled cx needs s (rewrap c (with_ctx h (\<lambda>cx s. pass_on i (run cx s)) s))"
  using contract [OF assms(2), of cx] assms(1)
  by (cases "run cx s"; cases "fst (run cx s)") (auto simp: with_ctx_def pass_on_def rewrap_def settled_def)

lemma hook_returns: "fst (rewrap c (with_ctx h (\<lambda>cx s. pass_on i (run cx s)) s)) = Inr j \<Longrightarrow> j = c i"
  by (auto simp: with_ctx_def pass_on_def rewrap_def split: sum.splits prod.splits)

lemma hook_outcome:
  assumes "req_ctx_new h (hs_ext s) = Inr cx" and "fresh s" and "set (call_permissions (c i)) \<subseteq> set needs"
  shows "hook_outcome cx s (rewrap c (with_ctx h (\<lambda>cx s. pass_on i (run cx s)) s))"
  using settled_outcome [OF hook_settled [OF assms(1,2)]] hook_returns assms(3) by metis

end

interpretation charged_helper: enforcing "\<lambda>cx. enforce_object_charged env cx act b k ch" "[(act, b, Some k)]" for env act b k ch
  using enforce_charged_settled [where q = "(base_input _ act b)\<lparr>oi_object := Some k\<rparr>"]
  by unfold_locales (simp add: enforce_object_charged_def)

interpretation object_helper: enforcing "\<lambda>cx. enforce_object env cx act b k" "[(act, b, Some k)]" for env act b k
  using charged_helper.contract by unfold_locales (simp add: enforce_object_def)

interpretation bucket_helper: enforcing "\<lambda>cx. enforce_bucket env cx act b" "[(act, b, None)]" for env act b
  using enforce_charged_settled [where q = "base_input _ act b"]
  by unfold_locales (simp add: enforce_bucket_def enforce_def)

interpretation write_helper: enforcing "\<lambda>cx. enforce_object_write env cx act b k riders ch"
  "tag_needs b k (tagged riders) @ [(act, b, Some k)]" for env act b k riders ch
  using enforce_object_write_settled by unfold_locales

interpretation copy_helper: enforcing "\<lambda>cx. enforce_copy env cx (CopyFromBucket sb sk sv) b k r z"
  "[(ReadObjects, sb, Some sk), (WriteObjects, b, Some k)] @ tag_needs b k (rr_tags r \<noteq> None)" for env sb sk sv b k r z
  using enforce_copy_settled by unfold_locales

lemma settled_result:
  assumes "settled cx needs s (r :: 'e + 'a, s1)" and "(\<exists>e. r = Inl e) = (\<exists>e. r' = Inl e)"
  shows "settled cx needs s (r' :: 'f + 'b, s1)"
  using assms unfolding settled_def by (auto split: sum.splits)

lemma obligations_settled:
  "settled cx needs s (r, s1\<lparr>hs_ext := (hs_ext s1)\<lparr>ex_obligations := ob\<rparr>\<rparr>) = settled cx needs s (r, s1)"
  unfolding settled_def later_def refused_run_def granted_run_def permitted_def by (simp split: sum.splits)

lemma obligations_run:
  "later cx s (s1\<lparr>hs_ext := (hs_ext s1)\<lparr>ex_obligations := ob\<rparr>\<rparr>) = later cx s s1"
  "refused_run s (s1\<lparr>hs_ext := (hs_ext s1)\<lparr>ex_obligations := ob\<rparr>\<rparr>) = refused_run s s1"
  by (simp_all add: later_def refused_run_def)

lemma list_v2_outcome:
  assumes "req_ctx_new h (hs_ext s) = Inr cx" and "fresh s"
  shows "hook_outcome cx s (rewrap ListObjectsV2 (hook_list_objects_v2 env h i s))"
proof -
  let ?fo = "if li_delimiter i \<noteq> None then FanoutUnsupported no_fanout_with_delimiter else FanoutSupported"
  obtain v s1 where v: "enforce_list env cx (li_bucket i) (li_prefix i) ?fo s = (v, s1)"
    by (cases "enforce_list env cx (li_bucket i) (li_prefix i) ?fo s")
  note e = enforce_list_settled(1) [OF assms(2) v]
  show ?thesis
  proof (rule settled_outcome)
    show "settled cx (if (\<exists>r. v = ListDeny r) then [] else [(ListObjects, li_bucket i, None)]) s
        (rewrap ListObjectsV2 (hook_list_objects_v2 env h i s))"
      using e assms(1) v
      by (cases v) (auto simp: hook_list_objects_v2_def with_ctx_def rewrap_def Let_def obligations_settled
          intro: settled_result)
    show "set (call_permissions c) \<subseteq> set (if (\<exists>r. v = ListDeny r) then [] else [(ListObjects, li_bucket i, None)])"
      if "fst (rewrap ListObjectsV2 (hook_list_objects_v2 env h i s)) = Inr c" for c
      using that assms(1) v by (cases v) (auto simp: hook_list_objects_v2_def with_ctx_def rewrap_def Let_def)
  qed
qed

lemma list_outcome:
  assumes "req_ctx_new h (hs_ext s) = Inr cx" and "fresh s" and "\<And>j. call_permissions (c j) = [(ListObjects, lp_bucket j, None)]"
  shows "hook_outcome cx s (rewrap c (hook_list env h i s))"
proof -
  let ?fo = "FanoutUnsupported no_fanout_on_this_op"
  obtain v s1 where v: "enforce_list env cx (lp_bucket i) (lp_prefix i) ?fo s = (v, s1)"
    by (cases "enforce_list env cx (lp_bucket i) (lp_prefix i) ?fo s")
  note e = enforce_list_settled(1) [OF assms(2) v]
  have nf: "v \<noteq> FanOutTo ps" for ps
    using enforce_list_settled(3) [OF assms(2) v] by (auto simp: classify_list_def Let_def split: if_splits option.splits)
  show ?thesis
  proof (rule settled_outcome)
    show "settled cx (if (\<exists>r. v = ListDeny r) then [] else [(ListObjects, lp_bucket i, None)]) s (rewrap c (hook_list env h i s))"
      using e assms(1) v nf
      by (cases v) (auto simp: hook_list_def with_ctx_def rewrap_def list_verdict_single_def intro: settled_result)
    show "set (call_permissions d) \<subseteq> set (if (\<exists>r. v = ListDeny r) then [] else [(ListObjects, lp_bucket i, None)])"
      if "fst (rewrap c (hook_list env h i s)) = Inr d" for d
      using that assms(1,3) v
      by (cases v) (auto simp: hook_list_def with_ctx_def rewrap_def list_verdict_single_def)
  qed
qed

lemma list_buckets_outcome:
  assumes "req_ctx_new h (hs_ext s) = Inr cx" and "fresh s"
  shows "hook_outcome cx s (rewrap ListBuckets (hook_list_buckets env h i s))"
proof -
  let ?q = "base_input cx Read []"
  obtain d s1 where d: "decide env cx ?q s = (d, s1)" by (cases "decide env cx ?q s")
  note l = decide_later [OF d]
  have f: "fresh s1" using l quiet_fresh assms(2) by blast
  let ?src = "bucket_source_of (cx_placement cx) (cx_route cx)"
  show ?thesis
  proof (cases "classify_bucket_listing d")
    case (Withhold reason)
    let ?s2 = "snd (audit_denied env ?q (decision_deny reason) [] s1)"
    have "later cx s ?s2" "refused_run s ?s2"
      using later_trans [OF l(1) audit_denied_later] audit_denied_refused [OF f] quiet_refused [OF l(2)] by simp_all
    then show ?thesis
      using assms(1) unfolding hook_outcome_def withheld_def
      by (simp add: hook_list_buckets_def with_ctx_def rewrap_def enforce_bucket_listing_def d Withhold obligations_run) blast
  next
    case (Show vis)
    have a: "d_allow d" using Show by (auto simp: classify_bucket_listing_def split: if_splits)
    let ?s2 = "prove cx (audit_pending env ?q d [] s1)"
    have "settled cx [(Read, [], None)] s (Inr (), ?s2)"
      using settled_after [OF l, of "[]" "(Inr (), ?s2)" "[(Read, [], None)]"] decide_permits [OF d a]
        audit_pending_granted [OF f a] audit_pending_later by (simp add: settled_def)
    then have "settled cx [(Read, [], None)] s (rewrap ListBuckets (hook_list_buckets env h i s))"
      using assms(1)
      by (auto simp: hook_list_buckets_def with_ctx_def rewrap_def enforce_bucket_listing_def d Show obligations_settled
          intro: settled_result)
    from settled_outcome [OF this] show ?thesis
      using assms(1) by (simp add: hook_list_buckets_def with_ctx_def rewrap_def enforce_bucket_listing_def d Show)
  qed
qed

interpretation tagging_helper: enforcing
  "\<lambda>cx s. case parse_tag_set (pt_tag_set i) n of
      Inl why \<Rightarrow> refused_with (refuse env (tagging_input cx i None) why s)
    | Inr tags \<Rightarrow>
        (case check_tags (current_reserved_tag_keys s) tags of
           Inl why \<Rightarrow> refused_with (refuse env (tagging_input cx i (Some tags)) why s)
         | Inr _ \<Rightarrow> enforce env cx (tagging_input cx i (Some tags)) s)"
  "[(WriteObjectTags, pt_bucket i, Some (pt_key i))]" for env i n
proof
  fix s cx
  assume f: "fresh s"
  have "settled cx [(WriteObjectTags, pt_bucket i, Some (pt_key i))] s (enforce env cx (tagging_input cx i t) s)" for t
    using enforce_charged_settled [OF f, of cx "tagging_input cx i t"] by (simp add: enforce_def tagging_input_def)
  then show "settled cx [(WriteObjectTags, pt_bucket i, Some (pt_key i))] s
     (case parse_tag_set (pt_tag_set i) n of
      Inl why \<Rightarrow> refused_with (refuse env (tagging_input cx i None) why s)
    | Inr tags \<Rightarrow>
        (case check_tags (current_reserved_tag_keys s) tags of
           Inl why \<Rightarrow> refused_with (refuse env (tagging_input cx i (Some tags)) why s)
         | Inr _ \<Rightarrow> enforce env cx (tagging_input cx i (Some tags)) s))"
    by (simp add: settled_deny [OF f] split: sum.splits)
qed

interpretation untagging_helper: enforcing
  "\<lambda>cx s. case inert_reason (current_reserved_tag_keys s) of
      Some why \<Rightarrow> refused_with (refuse env ((base_input cx WriteObjectTags b)\<lparr>oi_object := Some k\<rparr>) why s)
    | None \<Rightarrow> enforce_object env cx WriteObjectTags b k s"
  "[(WriteObjectTags, b, Some k)]" for env b k
  using object_helper.contract by unfold_locales (simp add: settled_deny split: option.splits)

lemma copy_riders_outcome:
  assumes "req_ctx_new h (hs_ext s) = Inr cx" and "fresh s" and "co_source i \<noteq> CopyFromElsewhere"
  shows "hook_outcome cx s (rewrap CopyObject (hook_copy_object env h i s))"
proof (cases "riders_parse (co_acl i) (copy_tagging i) False (max_tag_count s)")
  case (Inl why)
  let ?q = "(base_input cx WriteObjects (co_bucket i))\<lparr>oi_object := Some (co_key i)\<rparr>"
  have run: "rewrap CopyObject (hook_copy_object env h i s) = refused_with (refuse env ?q why s)"
    using assms(1) by (simp add: hook_copy_object_def with_ctx_def Inl rewrap_def refused_with_def)
  show ?thesis
    unfolding run by (rule settled_outcome [OF settled_deny(2) [OF assms(2), where needs = "[]"]]) (simp add: refused_with_def)
next
  case (Inr r)
  obtain sb sk sv where src: "co_source i = CopyFromBucket sb sk sv" using assms(3) by (cases "co_source i") auto
  have "rr_tags r \<noteq> None" if "copy_tagging i \<noteq> None"
    using tagged_parse [OF that, of "co_acl i" False "max_tag_count s"] by (simp add: Inr tagged_def)
  then have "set (call_permissions (CopyObject i)) \<subseteq>
    set ([(ReadObjects, sb, Some sk), (WriteObjects, co_bucket i, Some (co_key i))] @ tag_needs (co_bucket i) (co_key i) (rr_tags r \<noteq> None))"
    by (auto simp: src tag_needs_def)
  then show ?thesis
    unfolding hook_copy_object_def Inr Let_def src sum.case
    by (rule copy_helper.hook_outcome [OF assms(1,2)])
qed

lemma delete_objects_outcome:
  assumes "req_ctx_new h (hs_ext s) = Inr cx" and "fresh s"
  shows "hook_outcome cx s (rewrap DeleteObjects_Call (hook_delete_objects env h i s))"
proof -
  let ?run = "enforce_delete_objects env cx (lm_max_delete_keys (gw_limits (hs_gw s))) i s"
  note e = enforce_delete_objects_settled [OF assms(2), where cx = cx and env = env and i = i and cap = "lm_max_delete_keys (gw_limits (hs_gw s))"]
  have run: "rewrap DeleteObjects_Call (hook_delete_objects env h i s) = (map_sum id DeleteObjects_Call (fst ?run), snd ?run)"
    using assms(1) by (auto simp: hook_delete_objects_def with_ctx_def rewrap_def split: sum.splits prod.splits)
  show ?thesis
    unfolding run hook_outcome_def using e unfolding settled_def by (cases "fst ?run") auto
qed

lemmas single_helper_hooks =
  hook_object_def hook_put_object_def hook_post_object_def hook_delete_object_def hook_create_multipart_upload_def
  hook_upload_part_def hook_complete_multipart_upload_def hook_bucket_def hook_put_object_tagging_def
  hook_delete_object_tagging_def hook_get_object_attributes_def

lemma run_hook_outcome:
  assumes "req_ctx_new h (hs_ext s) = Inr cx" and "fresh s"
    and "\<And>i. call = CopyObject i \<or> call = UploadPartCopy i \<Longrightarrow> co_source i \<noteq> CopyFromElsewhere"
  shows "hook_outcome cx s (run_hook env h call s)"
proof (cases call)
  case (UploadPartCopy i)
  then obtain sb sk sv where src: "co_source i = CopyFromBucket sb sk sv" using assms(3) by (cases "co_source i") auto
  show ?thesis
    unfolding UploadPartCopy run_hook.simps hook_upload_part_copy_def src
    by (rule copy_helper.hook_outcome [OF assms(1,2)]) (simp add: src)
next
  case (CopyObject i)
  then show ?thesis using copy_riders_outcome [OF assms(1,2)] assms(3) by simp
next
  case (ListObjects_Call i)
  then show ?thesis using list_outcome [OF assms(1,2)] by (simp add: hook_list_objects_def)
next
  case (ListMultipartUploads i)
  then show ?thesis using list_outcome [OF assms(1,2)] by simp
next
  case (GetObject i)
  show ?thesis
    unfolding GetObject run_hook.simps single_helper_hooks Let_def
    by (rule object_helper.hook_outcome [OF assms(1,2)]) simp
next
  case (HeadObject i)
  show ?thesis
    unfolding HeadObject run_hook.simps single_helper_hooks Let_def
    by (rule object_helper.hook_outcome [OF assms(1,2)]) simp
next
  case (PutObject i)
  show ?thesis
    unfolding PutObject run_hook.simps single_helper_hooks Let_def
    by (rule write_helper.hook_outcome [OF assms(1,2)]) (auto simp: tag_needs_def tagged_parse)
next
  case (PostObject i)
  show ?thesis
    unfolding PostObject run_hook.simps single_helper_hooks Let_def
    by (rule write_helper.hook_outcome [OF assms(1,2)]) (auto simp: tag_needs_def tagged_parse)
next
  case (DeleteObject i)
  show ?thesis
    unfolding DeleteObject run_hook.simps single_helper_hooks Let_def
    by (rule write_helper.hook_outcome [OF assms(1,2)]) simp
next
  case (CreateMultipartUpload i)
  show ?thesis
    unfolding CreateMultipartUpload run_hook.simps single_helper_hooks Let_def
    by (rule write_helper.hook_outcome [OF assms(1,2)]) (auto simp: tag_needs_def tagged_parse)
next
  case (UploadPart i)
  show ?thesis
    unfolding UploadPart run_hook.simps single_helper_hooks Let_def
    by (rule charged_helper.hook_outcome [OF assms(1,2)]) simp
next
  case (CompleteMultipartUpload i)
  show ?thesis
    unfolding CompleteMultipartUpload run_hook.simps single_helper_hooks Let_def
    by (rule charged_helper.hook_outcome [OF assms(1,2)]) simp
next
  case (AbortMultipartUpload i)
  show ?thesis
    unfolding AbortMultipartUpload run_hook.simps single_helper_hooks Let_def
    by (rule object_helper.hook_outcome [OF assms(1,2)]) simp
next
  case (ListParts i)
  show ?thesis
    unfolding ListParts run_hook.simps single_helper_hooks Let_def
    by (rule object_helper.hook_outcome [OF assms(1,2)]) simp
next
  case (HeadBucket i)
  show ?thesis
    unfolding HeadBucket run_hook.simps single_helper_hooks Let_def
    by (rule bucket_helper.hook_outcome [OF assms(1,2)]) simp
next
  case (GetBucketLocation i)
  show ?thesis
    unfolding GetBucketLocation run_hook.simps single_helper_hooks Let_def
    by (rule bucket_helper.hook_outcome [OF assms(1,2)]) simp
next
  case (GetObjectTagging i)
  show ?thesis
    unfolding GetObjectTagging run_hook.simps single_helper_hooks Let_def
    by (rule object_helper.hook_outcome [OF assms(1,2)]) simp
next
  case (PutObjectTagging i)
  show ?thesis
    unfolding PutObjectTagging run_hook.simps single_helper_hooks Let_def
    by (rule tagging_helper.hook_outcome [OF assms(1,2)]) simp
next
  case (DeleteObjectTagging i)
  show ?thesis
    unfolding DeleteObjectTagging run_hook.simps single_helper_hooks Let_def
    by (rule untagging_helper.hook_outcome [OF assms(1,2)]) simp
next
  case (GetObjectAttributes i)
  show ?thesis
    unfolding GetObjectAttributes run_hook.simps single_helper_hooks Let_def
    by (rule object_helper.hook_outcome [OF assms(1,2)]) simp
qed (simp_all add: list_v2_outcome [OF assms(1,2)] list_buckets_outcome [OF assms(1,2)] delete_objects_outcome [OF assms(1,2)])

text \<open>What a passed check leaves for the hook.\<close>

definition checked_ctx :: "check_context \<Rightarrow> resolved_principal \<Rightarrow> route_snapshot \<Rightarrow> gateway_state \<Rightarrow> req_ctx" where
  "checked_ctx c p route gw =
     \<lparr>cx_principal = p, cx_route = route, cx_placement = b_placement (bst_current (gw_bundles gw)),
      cx_operation = ck_operation c, cx_meta = request_meta_of (ck_http c)\<rparr>"

definition admitted :: "crypto \<Rightarrow> identity \<Rightarrow> nat \<Rightarrow> check_context \<Rightarrow> gateway_state \<Rightarrow> resolved_principal \<Rightarrow> route_snapshot \<Rightarrow> bool" where
  "admitted cr ident now c gw p route \<longleftrightarrow>
     (\<exists>key spec. ck_access_key c = Some key \<and> gate_op (ck_operation c) = Inr spec \<and>
        identity_resolve cr ident now key (session_token (ht_headers (ck_http c)) (ht_query (ck_http c))) = Inr p \<and>
        route_snapshot_for (gw_registry gw) (rp_tenant p) = Some route)"

lemma access_check_passed:
  assumes "access_check env cr ident now c s = (Inr (), s1)"
  shows "\<exists>p route. admitted cr ident now c (hs_gw s) p route \<and>
    req_ctx_new (ck_http c) (hs_ext s1) = Inr (checked_ctx c p route (hs_gw s)) \<and> ex_route (hs_ext s1) = Some route \<and>
    quiet s s1 \<and> hs_asked s1 = hs_asked s"
  using assms
  by (auto simp: access_check_def gate_refused_def admitted_def checked_ctx_def req_ctx_new_def quiet_def Let_def
      split: option.splits sum.splits)

lemma access_check_refused:
  assumes "access_check env cr ident now c s = (Inl e, s1)" and "fresh s"
  shows "refused_run s s1 \<and> hs_asked s1 = hs_asked s"
  using assms
  by (auto simp: access_check_def gate_refused_def refused_run_def fresh_def emit_def gate_denial_record_def audit_gate_record_def Let_def
      split: option.splits sum.splits)

lemma unsupported_copy_run:
  assumes "call = CopyObject i \<or> call = UploadPartCopy i" and "co_source i = CopyFromElsewhere" and "fresh s"
  shows "ex_proof (hs_ext (snd (run_hook env h call s))) = None"
  using assms
  by (auto simp: hook_copy_object_def hook_upload_part_copy_def with_ctx_def rewrap_def pass_on_def enforce_copy_def
      refused_with_def refuse_def deny_def audit_denied_def emit_def fresh_def Let_def split: sum.splits)

text \<open>When a hook leaves a proof on a request, the request passed
  the check (a signed, enforced operation, a resolved principal, a routable tenant), the proof names its operation, and
  every permission the forwarded request needs was asked of the policy engine for that principal and tenant and granted:
  the read and the write of a copy, the tag write of an inline tag set, each key left in a multi-delete. No question about
  a bucket the bundle places elsewhere was asked. The shared state may change between the check and the hook and at every
  question.\<close>
lemma hook_authorizes:
  assumes "access_check env cr ident now c s0 = (Inr (), s)" and "fresh s0"
    and "run_hook env (ck_http c) call (s\<lparr>hs_gw := gw\<rparr>) = (r, s')" and "ex_proof (hs_ext s') \<noteq> None"
  shows "\<exists>p route fwd. admitted cr ident now c (hs_gw s0) p route \<and> ex_proof (hs_ext s') = Some (ck_operation c) \<and>
    ex_route (hs_ext s') = Some route \<and>
    r = Inr fwd \<and> (\<forall>perm \<in> set (call_permissions fwd). permitted (checked_ctx c p route (hs_gw s0)) s' perm) \<and>
    (\<forall>q d. (q, d) \<in> set (hs_asked s') \<and> (q, d) \<notin> set (hs_asked s0) \<longrightarrow>
       input_placement_refusal (checked_ctx c p route (hs_gw s0)) q = None)"
proof -
  obtain p route where a: "admitted cr ident now c (hs_gw s0) p route"
    and cx: "req_ctx_new (ck_http c) (hs_ext s) = Inr (checked_ctx c p route (hs_gw s0))"
    and q: "quiet s0 s" "hs_asked s = hs_asked s0" "ex_route (hs_ext s) = Some route"
    using access_check_passed [OF assms(1)] by blast
  let ?s = "s\<lparr>hs_gw := gw\<rparr>" and ?cx = "checked_ctx c p route (hs_gw s0)"
  have f: "fresh ?s" using q(1) assms(2) by (simp add: quiet_def fresh_def)
  have "co_source i \<noteq> CopyFromElsewhere" if "call = CopyObject i \<or> call = UploadPartCopy i" for i
    using unsupported_copy_run [OF that _ f, of env "ck_http c"] assms(3,4) by auto
  then have "hook_outcome ?cx ?s (r, s')"
    using run_hook_outcome [of "ck_http c" ?s ?cx call env] cx f assms(3) by simp
  then show ?thesis
    using assms(4) a q(2,3) unfolding hook_outcome_def
    by (auto simp: refused_run_def granted_run_def later_def checked_ctx_def split: sum.splits)
qed

text \<open>A hook either leaves a proof and one pending record of an allow, having emitted
  nothing, or leaves neither and has emitted one denial, and then it answers an error, or, for a bucket listing, an empty
  one. The one exception is a copy from an access point.\<close>
lemma hook_audits_once:
  assumes "access_check env cr ident now c s0 = (Inr (), s)" and "fresh s0"
    and "run_hook env (ck_http c) call (s\<lparr>hs_gw := gw\<rparr>) = (r, s')"
    and "\<And>i. call = CopyObject i \<or> call = UploadPartCopy i \<Longrightarrow> co_source i \<noteq> CopyFromElsewhere"
  shows "(\<exists>cx. cx_operation cx = ck_operation c \<and> granted_run cx s0 s') \<and> (\<exists>fwd. r = Inr fwd) \<or>
    refused_run s0 s' \<and> ((\<exists>e. r = Inl e) \<or> (\<exists>i. r = Inr (ListBuckets i)) \<and> withheld s')"
proof -
  obtain p route where cx: "req_ctx_new (ck_http c) (hs_ext s) = Inr (checked_ctx c p route (hs_gw s0))" and q: "quiet s0 s"
    using access_check_passed [OF assms(1)] by blast
  let ?s = "s\<lparr>hs_gw := gw\<rparr>" and ?cx = "checked_ctx c p route (hs_gw s0)"
  have q': "quiet s0 ?s" using q by (simp add: quiet_def)
  have "hook_outcome ?cx ?s (r, s')"
    using run_hook_outcome [of "ck_http c" ?s ?cx call env] cx assms quiet_fresh [OF q'] by simp
  then show ?thesis
    unfolding hook_outcome_def quiet_refused [OF q'] quiet_granted [OF q']
    by (cases r) (auto simp: checked_ctx_def intro!: exI [of _ ?cx])
qed

section \<open>Properties\<close>

subsection \<open>A small deployment\<close>

text \<open>One tenant on one backend, a bundle that places no bucket, and a policy engine that gives one verdict.\<close>

definition demo_gateway :: gateway_state where
  "demo_gateway = \<lparr>gw_bundles = demo_epoch_store, gw_registry = demo_registry ''s1'', gw_limits = limits_default, gw_quota = ledger_new\<rparr>"

definition demo_env :: "decision \<Rightarrow> environment" where
  "demo_env d =
     \<lparr>en_pdp = (\<lambda>gw q. (gw, Inr d)), en_head_object = (\<lambda>client gw i. (gw, Inr (Some 3))), en_new_decision_id = nat_digits,
      en_now_rfc3339 = nat_digits, en_show_time = (\<lambda>t. []), en_labels = label_policy_default\<rparr>"

definition demo_static_identity :: identity where
  "demo_static_identity = demo_identity\<lparr>id_creds := store_from_config (demo_config ''s1'')\<rparr>"

definition demo_check :: check_context where
  "demo_check =
     \<lparr>ck_operation = ''AbortMultipartUpload'', ck_access_key = Some ''EXT1'',
      ck_http = \<lparr>ht_method = ''DELETE'', ht_query = None, ht_headers = []\<rparr>\<rparr>"

definition demo_principal :: resolved_principal where
  "demo_principal = \<lparr>rp_sub = ''sa1'', rp_principal_type = ServiceAccount, rp_groups = [], rp_tenant = ''acme'', rp_organization_id = ''org1''\<rparr>"

definition demo_start :: hook_state where
  "demo_start = \<lparr>hs_gw = demo_gateway, hs_ext = extensions_new, hs_asked = [], hs_emitted = [], hs_serial = 0\<rparr>"

definition demo_ready :: hook_state where
  "demo_ready = demo_start\<lparr>hs_ext := extensions_new\<lparr>ex_principal := Some demo_principal, ex_route := Some demo_snapshot,
     ex_placement := Some Unplaced, ex_operation := Some ''AbortMultipartUpload''\<rparr>\<rparr>"

definition demo_object :: object_input where
  "demo_object = \<lparr>in_bucket = ''b'', in_key = ''k''\<rparr>"

lemma demo_gate: "gate_op ''AbortMultipartUpload'' = Inr (hd op_table)"
  by (simp add: gate_op_Inr op_table_def op_table_1_def enforced_def)

lemma demo_resolve:
  "identity_resolve demo_crypto demo_static_identity 5 ''EXT1'' t = Inr demo_principal"
  by (simp add: identity_resolve_def is_sts_access_key_def is_derived_access_key_def sts_prefix_def derived_prefix_def
      demo_static_identity_def store_resolve_def store_from_config_def credentials_from_config_def demo_config_def
      demo_credential_def collect_map_def demo_principal_def starts_with_def store_replace_def)

lemma demo_check_passes: "access_check (demo_env d) demo_crypto demo_static_identity 5 demo_check demo_start = (Inr (), demo_ready)"
  by (simp add: access_check_def demo_check_def demo_gate demo_resolve demo_start_def demo_gateway_def route_snapshot_for_def
      demo_registry_def demo_principal_def demo_ready_def demo_snapshot_def demo_backend_def demo_epoch_store_def)

lemma demo_fresh: "fresh demo_start" "fresh demo_ready"
  by (simp_all add: fresh_def demo_start_def demo_ready_def extensions_new_def)

lemma demo_ctx: "req_ctx_new h (hs_ext demo_ready) =
    Inr \<lparr>cx_principal = demo_principal, cx_route = demo_snapshot, cx_placement = Unplaced,
         cx_operation = ''AbortMultipartUpload'', cx_meta = request_meta_of h\<rparr>"
  by (simp add: req_ctx_new_def demo_ready_def)

lemma demo_ready_gw: "hs_gw demo_ready = demo_gateway"
  by (simp add: demo_ready_def demo_start_def)

text \<open>A copy from an access point is refused without a record: the hook answers 403 and nothing was emitted or is
  pending, although the access layer promises a record for every refusal.\<close>
theorem unsupported_copy_unaudited:
  assumes "req_ctx_new h (hs_ext s) = Inr cx" and "co_source i = CopyFromElsewhere"
  shows "run_hook env h (UploadPartCopy i) s = (Inl (access_denied ''unsupported copy source (access-point/outpost)''), s)"
  using assms by (simp add: hook_upload_part_copy_def with_ctx_def rewrap_def pass_on_def enforce_copy_def)

theorem unsupported_copy_unaudited_witness:
  "hs_emitted (snd (run_hook (demo_env (decision_allow ''ok'')) (ck_http demo_check)
     (UploadPartCopy \<lparr>co_bucket = ''b'', co_key = ''k'', co_source = CopyFromElsewhere,
        co_acl = \<lparr>af_canned = None, af_full_control = None, af_read = None, af_write = None, af_read_acp = None, af_write_acp = None\<rparr>,
        co_tagging = None, co_tagging_directive = None,
        co_sizing = \<lparr>cz_range = None, cz_sse_customer_algorithm = None, cz_sse_customer_key = None, cz_sse_customer_key_md5 = None\<rparr>\<rparr>)
     demo_ready)) = []"
  by (subst unsupported_copy_unaudited [OF demo_ctx]) (simp_all add: demo_ready_def demo_start_def)

lemma remdups_adj_sorted_distinct: "sorted (xs :: 'a::linorder list) \<Longrightarrow> distinct (remdups_adj xs)"
  by (induction xs rule: remdups_adj.induct) (auto simp: order_le_less)

lemma btree_set_strict: "sorted_wrt (<) (btree_set xs)" "set (btree_set xs) = set xs"
  by (simp_all add: btree_set_def strict_sorted_iff sorted_remdups_adj remdups_adj_sorted_distinct)

lemma classify_list_scope:
  assumes "classify_list d n fo = v" and "\<not> (\<exists>r. v = ListDeny r)"
  shows "list_scope d p (case v of Narrow np \<Rightarrow> Some np | _ \<Rightarrow> p) (case v of FanOutTo ps \<Rightarrow> Some ps | _ \<Rightarrow> None)"
  using assms btree_set_strict
  by (auto simp: classify_list_def list_scope_def Let_def split: if_splits option.splits fanout_support.splits)

definition fanned_prefixes :: "hook_state \<Rightarrow> string list option" where
  "fanned_prefixes s = Option.bind (ex_obligations (hs_ext s)) ro_list_fanout"

text \<open>C3: A listing is cut to what the policy granted. When the hook hands a \<open>ListObjectsV2\<close> on, the policy engine allowed
  the listing of exactly the prefix the client asked for, and the request that goes on covers what that verdict's
  obligations say: the one prefix it narrows to, or a fan-out over exactly the granted prefixes in ascending order, or, with
  no obligation, what was asked. Obligations the gateway does not implement let nothing through.\<close>
theorem list_scope_applied:
  assumes "req_ctx_new h (hs_ext s) = Inr cx" and "fresh s" and "ex_obligations (hs_ext s) = None"
    and "run_hook env h (ListObjectsV2 i) s = (Inr (ListObjectsV2 fwd), s')"
  shows "\<exists>q d. (q, d) \<in> set (hs_asked s') \<and> d_allow d \<and> unimplemented (d_obligations d) = [] \<and> about_ctx cx q \<and>
    oi_action q = ListObjects \<and> oi_bucket q = li_bucket fwd \<and> oi_prefix q = li_prefix i \<and>
    list_scope d (li_prefix i) (li_prefix fwd) (fanned_prefixes s')"
proof -
  let ?fo = "if li_delimiter i \<noteq> None then FanoutUnsupported no_fanout_with_delimiter else FanoutSupported"
  obtain v s1 where v: "enforce_list env cx (li_bucket i) (li_prefix i) ?fo s = (v, s1)"
    by (cases "enforce_list env cx (li_bucket i) (li_prefix i) ?fo s")
  have nd: "\<not> (\<exists>r. v = ListDeny r)" and fwd: "li_bucket fwd = li_bucket i"
    "li_prefix fwd = (case v of Narrow np \<Rightarrow> Some np | _ \<Rightarrow> li_prefix i)" "hs_asked s' = hs_asked s1"
    using assms(1,4) v by (cases v; auto simp: hook_list_objects_v2_def with_ctx_def rewrap_def Let_def)+
  have "ex_obligations (hs_ext s1) = None"
    using enforce_list_settled(2) [OF assms(2) v] assms(3) by (auto simp: quiet_def)
  then have "fanned_prefixes s' = (case v of FanOutTo ps \<Rightarrow> Some ps | _ \<Rightarrow> None)"
    using assms(1,4) v
    by (cases v) (auto simp: hook_list_objects_v2_def with_ctx_def rewrap_def Let_def fanned_prefixes_def obligations_fanout_def)
  moreover obtain q d n where "(q, d) \<in> set (hs_asked s1)" "d_allow d" "unimplemented (d_obligations d) = []" "about_ctx cx q"
      "oi_action q = ListObjects" "oi_bucket q = li_bucket i" "oi_prefix q = li_prefix i" "v = classify_list d n ?fo"
    using enforce_list_settled(3) [OF assms(2) v nd] by blast
  ultimately show ?thesis
    using classify_list_scope [of d n ?fo v "li_prefix i"] nd fwd by (intro exI [of _ q] exI [of _ d]) simp
qed

definition demo_narrowing :: decision where
  "demo_narrowing = (decision_allow ''ok'')\<lparr>d_obligations := obligations_default\<lparr>ob_allowed_prefixes := [''b/'', ''a/'']\<rparr>\<rparr>"

definition demo_listing :: list_v2_input where
  "demo_listing = \<lparr>li_bucket = ''b'', li_prefix = None, li_start_after = None, li_continuation_token = None, li_delimiter = None,
     li_max_keys = None, l2_optional_object_attributes = None\<rparr>"

lemma demo_listing_run:
  "fst (run_hook (demo_env demo_narrowing) h (ListObjectsV2 demo_listing) demo_ready) = Inr (ListObjectsV2 demo_listing)"
  by (simp add: hook_list_objects_v2_def with_ctx_def demo_ctx rewrap_def enforce_list_def input_placement_refusal_def
      shared_identity_refusal_def demo_snapshot_def decide_def demo_env_def demo_narrowing_def decision_allow_def
      obligations_default_def classify_list_def unimplemented_obligations_def unimplemented_def demo_listing_def demo_ready_gw
      demo_gateway_def limits_default_def base_input_def Let_def)

theorem list_scope_applied_witness:
  "\<exists>d. list_scope d None None (fanned_prefixes
      (snd (run_hook (demo_env demo_narrowing) (ck_http demo_check) (ListObjectsV2 demo_listing) demo_ready)))"
proof -
  let ?run = "run_hook (demo_env demo_narrowing) (ck_http demo_check) (ListObjectsV2 demo_listing) demo_ready"
  have r: "?run = (Inr (ListObjectsV2 demo_listing), snd ?run)"
    using demo_listing_run [of "ck_http demo_check"] by (metis prod.collapse)
  have ob: "ex_obligations (hs_ext demo_ready) = None" by (simp add: demo_ready_def extensions_new_def)
  show ?thesis
    using list_scope_applied [OF demo_ctx demo_fresh(2) ob r] by (auto simp: demo_listing_def)
qed

end
