(* ===== verification/S0_Forward.thy ===== *)
theory S0_Forward
  imports S0_Access
begin

text \<open>
  The forward path (\<open>GatewayS3\<close> in \<open>proxy/mod.rs\<close>): the proof it demands, the client it takes, the settling of the quota
  reservation and of the audit record with what the backend answered, and the arms that change an answer.

  The backend is a record of functions, one per shape of answer, from a client, the shared state and a request to the
  shared state and a response; the polls of the client's body that happened meanwhile come with the answer of a write.
  \<open>fw_contacted\<close> lists the clients a request was sent with. Dropping the request at the end, answered or not, drops its
  pending record and its reservation.
\<close>

section \<open>Responses\<close>

record 'o s3_response =
  sr_headers :: header_map
  sr_output :: 'o

definition response_new :: "'o \<Rightarrow> 'o s3_response" where
  "response_new out = \<lparr>sr_headers = [], sr_output = out\<rparr>"

text \<open>The fields of a plain answer that can name the backend.\<close>

record plain_output =
  po_ssekms_key_id :: "string option"
  po_ssekms_encryption_context :: "string option"
  po_location :: "string option"

record list_parts_output =
  pa_owner :: "string option"
  pa_initiator :: "string option"

record multipart_upload =
  mu_key :: "string option"
  mu_owner :: "string option"
  mu_initiator :: "string option"

record list_uploads_output =
  lu_uploads :: "multipart_upload list option"

datatype s3_answer =
    PlainAnswer plain_output | ListV2Answer list_objects_v2_output | PartsAnswer list_parts_output
  | UploadsAnswer list_uploads_output | BucketsAnswer list_buckets_output

text \<open>\<open>scrub_backend_identifiers\<close>, by operation.\<close>

fun scrub_plain :: "s3_call \<Rightarrow> plain_output \<Rightarrow> plain_output" where
  "scrub_plain (GetObject i) out = out\<lparr>po_ssekms_key_id := None\<rparr>"
| "scrub_plain (HeadObject i) out = out\<lparr>po_ssekms_key_id := None\<rparr>"
| "scrub_plain (PutObject i) out = out\<lparr>po_ssekms_key_id := None, po_ssekms_encryption_context := None\<rparr>"
| "scrub_plain (PostObject i) out = out\<lparr>po_ssekms_key_id := None, po_ssekms_encryption_context := None\<rparr>"
| "scrub_plain (CopyObject i) out = out\<lparr>po_ssekms_key_id := None, po_ssekms_encryption_context := None\<rparr>"
| "scrub_plain (CreateMultipartUpload i) out = out\<lparr>po_ssekms_key_id := None, po_ssekms_encryption_context := None\<rparr>"
| "scrub_plain (UploadPart i) out = out\<lparr>po_ssekms_key_id := None\<rparr>"
| "scrub_plain (UploadPartCopy i) out = out\<lparr>po_ssekms_key_id := None\<rparr>"
| "scrub_plain (CompleteMultipartUpload i) out = out\<lparr>po_ssekms_key_id := None, po_location := None\<rparr>"
| "scrub_plain call out = out"

definition header_remove :: "string \<Rightarrow> header_map \<Rightarrow> header_map" where
  "header_remove name hs = filter (\<lambda>(k, _). k \<noteq> name) hs"

definition header_insert :: "string \<Rightarrow> string \<Rightarrow> header_map \<Rightarrow> header_map" where
  "header_insert name v hs = (name, v) # header_remove name hs"

text \<open>\<open>HeaderValue::from_str\<close> accepts a tab and the visible characters.\<close>

definition header_value_ok :: "string \<Rightarrow> bool" where
  "header_value_ok v = list_all (\<lambda>c. let n = (of_char c :: nat) in n = 9 \<or> (32 \<le> n \<and> n \<noteq> 127 \<and> n < 128)) v"

definition stamp_request_id :: "string \<Rightarrow> header_map \<Rightarrow> header_map" where
  "stamp_request_id request_id hs =
     (let hs1 = header_remove ''x-amz-id-2'' hs
      in if header_value_ok request_id then header_insert ''x-amz-request-id'' request_id hs1
         else header_remove ''x-amz-request-id'' hs1)"

definition backend_status :: "s3_error \<Rightarrow> nat option" where
  "backend_status e = (if \<not> se_has_source e \<or> se_code e = Known ''InternalError'' then None else se_status e)"

section \<open>The proof and the client\<close>

definition proof_require :: "extensions \<Rightarrow> s3_error + unit" where
  "proof_require ext =
     (case ex_proof ext of
        None \<Rightarrow> Inl (s3_error_of ''InternalError'' ''request reached the backend without an authorization decision'')
      | Some proved \<Rightarrow>
          (case ex_operation ext of
             None \<Rightarrow> Inl (s3_error_of ''InternalError'' ''operation name missing from request'')
           | Some op \<Rightarrow>
               if proved \<noteq> op then
                 Inl (s3_error_of ''InternalError'' ''authorization proof does not match the forwarded operation'')
               else Inr ()))"

record fwd_state =
  fw_gw :: gateway_state
  fw_ext :: extensions
  fw_emitted :: "audit_record list"
  fw_contacted :: "s3_client list"

record fwd_env =
  fe_uuid :: string
  fe_now :: int
  fe_hashing :: hashing

definition proxy_for_req :: "fwd_state \<Rightarrow> (s3_error + s3_client) \<times> fwd_state" where
  "proxy_for_req s =
     (case proof_require (fw_ext s) of
        Inl e \<Rightarrow> (Inl e, s)
      | Inr _ \<Rightarrow>
          (case ex_route (fw_ext s) of
             None \<Rightarrow> (Inl (s3_error_of ''InternalError'' ''route snapshot missing from request''), s)
           | Some route \<Rightarrow>
               (case proxy_for route (gw_registry (fw_gw s)) of
                  (reg, Inl e) \<Rightarrow>
                    (Inl (s3_error_of ''ServiceUnavailable'' ''backend unavailable''), s\<lparr>fw_gw := (fw_gw s)\<lparr>gw_registry := reg\<rparr>\<rparr>)
                | (reg, Inr client) \<Rightarrow> (Inr client, s\<lparr>fw_gw := (fw_gw s)\<lparr>gw_registry := reg\<rparr>\<rparr>))))"

definition bucket_listing_bounds :: "limits_config \<Rightarrow> nat \<times> nat" where
  "bucket_listing_bounds l = (max 1 (lm_max_buckets_per_page l), max 1 (lm_max_bucket_list_pages l))"

section \<open>Settling\<close>

definition on_reservation ::
  "(quota_reservation \<Rightarrow> ledger_state \<Rightarrow> quota_reservation \<times> ledger_state) \<Rightarrow> fwd_state \<Rightarrow> fwd_state" where
  "on_reservation f s =
     (case ex_reservation (fw_ext s) of
        None \<Rightarrow> s
      | Some r \<Rightarrow>
          let (r', ledger) = f r (gw_quota (fw_gw s))
          in s\<lparr>fw_ext := (fw_ext s)\<lparr>ex_reservation := Some r'\<rparr>, fw_gw := (fw_gw s)\<lparr>gw_quota := ledger\<rparr>\<rparr>)"

text \<open>How far the client's body got while the call ran, seen by the reservation when it tracks the body.\<close>

definition observe_body :: "unit poll list \<Rightarrow> fwd_state \<Rightarrow> fwd_state" where
  "observe_body polls s =
     on_reservation (\<lambda>r l.
       (if bp_tracked (qr_body r) then r\<lparr>qr_body := fst (poll_all (qr_bytes r) polls (qr_body r))\<rparr> else r, l)) s"

definition settle_reservation :: "int \<Rightarrow> (s3_error + 'o) \<Rightarrow> fwd_state \<Rightarrow> fwd_state" where
  "settle_reservation now result s =
     on_reservation
       (case result of
          Inr _ \<Rightarrow> reservation_commit now
        | Inl e \<Rightarrow>
            (case backend_status e of
               Some st \<Rightarrow> if 400 \<le> st \<and> st < 500 then reservation_release else settle_unknown now
             | None \<Rightarrow> settle_unknown now)) s"

definition settle_pending :: "(s3_error + 'o) \<Rightarrow> fwd_state \<Rightarrow> fwd_state" where
  "settle_pending result s =
     (case ex_pending (fw_ext s) of
        None \<Rightarrow> s
      | Some p \<Rightarrow>
          let (p', recs) =
            (case result of
               Inr _ \<Rightarrow> pending_settle SucceededStatusUnknown None p
             | Inl e \<Rightarrow> pending_settle BackendFailed (backend_status e) p)
          in s\<lparr>fw_ext := (fw_ext s)\<lparr>ex_pending := Some p'\<rparr>, fw_emitted := fw_emitted s @ recs\<rparr>)"

type_synonym 'o backend_leg = "s3_client \<Rightarrow> gateway_state \<Rightarrow> gateway_state \<times> unit poll list \<times> (s3_error + 'o s3_response)"

definition forward ::
  "fwd_env \<Rightarrow> ('o \<Rightarrow> 'o) \<Rightarrow> 'o backend_leg \<Rightarrow> fwd_state \<Rightarrow> (s3_error + 'o s3_response) \<times> fwd_state" where
  "forward fe scrub leg s =
     (case proxy_for_req s of
        (Inl e, s1) \<Rightarrow> (Inl e, on_reservation reservation_release s1)
      | (Inr client, s1) \<Rightarrow>
          let request_id = (case Option.bind (ex_pending (fw_ext s1)) pending_decision_id of
                              Some i \<Rightarrow> i | None \<Rightarrow> fe_uuid fe);
              s2 = on_reservation (\<lambda>r l. (mark_dispatched r, l)) (s1\<lparr>fw_contacted := fw_contacted s1 @ [client]\<rparr>);
              (gw, polls, result) = leg client (fw_gw s2);
              s3 = settle_pending result (settle_reservation (fe_now fe) result (observe_body polls (s2\<lparr>fw_gw := gw\<rparr>)))
          in (case result of
                Inr resp \<Rightarrow>
                  Inr \<lparr>sr_headers = stamp_request_id request_id (sr_headers resp), sr_output = scrub (sr_output resp)\<rparr>
              | Inl e \<Rightarrow>
                  if is_backend_error e then Inl (remint_backend_error e request_id)
                  else Inl (e\<lparr>se_request_id := Some request_id\<rparr>), s3))"

text \<open>The request is dropped, at the end or at any point before: a record not yet emitted is emitted as it is, and a
  reservation not yet settled is.\<close>

definition drop_request :: "int \<Rightarrow> fwd_state \<Rightarrow> fwd_state" where
  "drop_request now s =
     (let s1 = on_reservation (drop_reservation now) s
      in s1\<lparr>fw_ext := (fw_ext s1)\<lparr>ex_pending := None, ex_reservation := None\<rparr>,
            fw_emitted := fw_emitted s1 @ (case ex_pending (fw_ext s1) of None \<Rightarrow> [] | Some p \<Rightarrow> pending_drop p)\<rparr>)"

section \<open>The arms\<close>

record backend =
  bk_plain :: "s3_call \<Rightarrow> plain_output backend_leg"
  bk_list_v2 :: "s3_client \<Rightarrow> gateway_state \<Rightarrow> list_v2_input \<Rightarrow> gateway_state \<times> (s3_error + list_objects_v2_output s3_response)"
  bk_list_buckets :: "s3_client \<Rightarrow> gateway_state \<Rightarrow> list_buckets_input \<Rightarrow> gateway_state \<times> (s3_error + list_buckets_output)"
  bk_list_parts :: "object_input \<Rightarrow> list_parts_output backend_leg"
  bk_list_uploads :: "list_input \<Rightarrow> list_uploads_output backend_leg"

definition track_charged_body :: "bool \<Rightarrow> fwd_state \<Rightarrow> fwd_state" where
  "track_charged_body has_body s = (if has_body then on_reservation (\<lambda>r l. (track_body r, l)) s else s)"

definition map_answer :: "('o \<Rightarrow> 'p) \<Rightarrow> (s3_error + 'o s3_response) \<times> fwd_state \<Rightarrow> (s3_error + 'p s3_response) \<times> fwd_state" where
  "map_answer f rs =
     (map_sum id (\<lambda>r. \<lparr>sr_headers = sr_headers r, sr_output = f (sr_output r)\<rparr>) (fst rs), snd rs)"

definition forward_plain :: "fwd_env \<Rightarrow> backend \<Rightarrow> s3_call \<Rightarrow> fwd_state \<Rightarrow> (s3_error + s3_answer s3_response) \<times> fwd_state" where
  "forward_plain fe bk call s = map_answer PlainAnswer (forward fe (scrub_plain call) (bk_plain bk call) s)"

definition list_v2_leg :: "fwd_env \<Rightarrow> backend \<Rightarrow> extensions \<Rightarrow> list_v2_input \<Rightarrow> list_objects_v2_output backend_leg" where
  "list_v2_leg fe bk ext i client gw =
     (case Option.bind (ex_obligations ext) ro_list_fanout of
        Some pfxs \<Rightarrow>
          (case fan_out_list_v2 (fe_hashing fe) (\<lambda>w j. map_prod id (map_sum id sr_output) (bk_list_v2 bk client w j)) gw i pfxs of
             (gw', r) \<Rightarrow> (gw', [], map_sum id response_new r))
      | None \<Rightarrow> (case bk_list_v2 bk client gw i of (gw', r) \<Rightarrow> (gw', [], r)))"

definition forward_list_v2 ::
  "fwd_env \<Rightarrow> backend \<Rightarrow> list_v2_input \<Rightarrow> fwd_state \<Rightarrow> (s3_error + s3_answer s3_response) \<times> fwd_state" where
  "forward_list_v2 fe bk i s = map_answer ListV2Answer (forward fe id (list_v2_leg fe bk (fw_ext s) i) s)"

definition forward_list_parts ::
  "fwd_env \<Rightarrow> backend \<Rightarrow> object_input \<Rightarrow> fwd_state \<Rightarrow> (s3_error + s3_answer s3_response) \<times> fwd_state" where
  "forward_list_parts fe bk i s =
     map_answer (\<lambda>out. PartsAnswer (out\<lparr>pa_owner := None, pa_initiator := None\<rparr>)) (forward fe id (bk_list_parts bk i) s)"

definition keep_upload :: "string option \<Rightarrow> multipart_upload \<Rightarrow> bool" where
  "keep_upload pfx u =
     (case (pfx, mu_key u) of
        (Some p, Some k) \<Rightarrow> starts_with k p
      | (None, Some _) \<Rightarrow> True
      | _ \<Rightarrow> False)"

definition strip_uploads :: "string option \<Rightarrow> list_uploads_output \<Rightarrow> list_uploads_output" where
  "strip_uploads pfx out =
     out\<lparr>lu_uploads := map_option
        (\<lambda>us. map (\<lambda>u. u\<lparr>mu_owner := None, mu_initiator := None\<rparr>) (filter (keep_upload pfx) us)) (lu_uploads out)\<rparr>"

definition forward_list_uploads ::
  "fwd_env \<Rightarrow> backend \<Rightarrow> list_input \<Rightarrow> fwd_state \<Rightarrow> (s3_error + s3_answer s3_response) \<times> fwd_state" where
  "forward_list_uploads fe bk i s =
     map_answer (UploadsAnswer \<circ> strip_uploads (lp_prefix i)) (forward fe id (bk_list_uploads bk i) s)"

definition missing_visibility :: s3_error where
  "missing_visibility =
     s3_error_of ''InternalError''
       (''list buckets reached the forward path with no bucket-visibility obligation, which means no authorization '' @
        ''decision was applied to it'')"

definition empty_bucket_list :: "string option \<Rightarrow> list_buckets_output" where
  "empty_bucket_list pfx = \<lparr>bo_buckets = Some [], bo_continuation_token = None, bo_prefix = pfx, bo_owner = None\<rparr>"

definition bundle_bucket_listing ::
  "hashing \<Rightarrow> extensions \<Rightarrow> list_buckets_input \<Rightarrow> bucket_dto list \<Rightarrow> bucket_visibility \<Rightarrow> nat \<Rightarrow> s3_error + list_buckets_output" where
  "bundle_bucket_listing h ext i buckets visibility page_size =
     (case proof_require ext of
        Inl e \<Rightarrow> Inl e
      | Inr _ \<Rightarrow>
          (case decode_cursor h (bi_continuation_token i) of
             Inl e \<Rightarrow> Inl e
           | Inr cur \<Rightarrow> bucket_listing_page h buckets visibility (bi_prefix i) cur page_size))"

definition bucket_page_size :: "nat \<Rightarrow> int option \<Rightarrow> nat" where
  "bucket_page_size max_page max_buckets =
     (case max_buckets of None \<Rightarrow> max_page | Some m \<Rightarrow> min (nat (max m 1)) max_page)"

definition buckets_leg ::
  "fwd_env \<Rightarrow> backend \<Rightarrow> list_buckets_input \<Rightarrow> bucket_visibility \<Rightarrow> nat \<Rightarrow> nat \<Rightarrow> list_buckets_output backend_leg" where
  "buckets_leg fe bk i visibility page_size max_pages client gw =
     (case filtered_bucket_listing (fe_hashing fe) (bk_list_buckets bk client) gw i visibility page_size max_pages of
        (gw', r) \<Rightarrow> (gw', [], map_sum id response_new r))"

definition forward_list_buckets ::
  "fwd_env \<Rightarrow> backend \<Rightarrow> list_buckets_input \<Rightarrow> fwd_state \<Rightarrow> (s3_error + s3_answer s3_response) \<times> fwd_state" where
  "forward_list_buckets fe bk i s =
     (case Option.bind (ex_obligations (fw_ext s))
             (\<lambda>ob. case (ro_visible_buckets ob, ro_bucket_source ob) of (Some v, Some src) \<Rightarrow> Some (v, src) | _ \<Rightarrow> None) of
        None \<Rightarrow> (Inl missing_visibility, s)
      | Some (visibility, source) \<Rightarrow>
          if visibility = Nothing then (Inr (response_new (BucketsAnswer (empty_bucket_list (bi_prefix i)))), s)
          else
            let (max_page, max_pages) = bucket_listing_bounds (gw_limits (fw_gw s));
                page_size = bucket_page_size max_page (bi_max_buckets i)
            in case source of
                 BackendSource \<Rightarrow>
                   map_answer BucketsAnswer (forward fe id (buckets_leg fe bk i visibility page_size max_pages) s)
               | BundleSource buckets \<Rightarrow>
                   (map_sum id (response_new \<circ> BucketsAnswer)
                      (bundle_bucket_listing (fe_hashing fe) (fw_ext s) i buckets visibility page_size), s))"

fun dispatch :: "fwd_env \<Rightarrow> backend \<Rightarrow> s3_call \<Rightarrow> fwd_state \<Rightarrow> (s3_error + s3_answer s3_response) \<times> fwd_state" where
  "dispatch fe bk (PutObject i) s = forward_plain fe bk (PutObject i) (track_charged_body (pi_has_body i) s)"
| "dispatch fe bk (UploadPart i) s = forward_plain fe bk (UploadPart i) (track_charged_body (pi_has_body i) s)"
| "dispatch fe bk (ListObjectsV2 i) s = forward_list_v2 fe bk i s"
| "dispatch fe bk (ListParts i) s = forward_list_parts fe bk i s"
| "dispatch fe bk (ListMultipartUploads i) s = forward_list_uploads fe bk i s"
| "dispatch fe bk (ListBuckets i) s = forward_list_buckets fe bk i s"
| "dispatch fe bk call s = forward_plain fe bk call s"

section \<open>A request from hook to drop\<close>

definition fwd_start :: "hook_state \<Rightarrow> gateway_state \<Rightarrow> fwd_state" where
  "fwd_start s gw = \<lparr>fw_gw = gw, fw_ext = hs_ext s, fw_emitted = hs_emitted s, fw_contacted = []\<rparr>"

text \<open>The hook, the dispatch of what it handed on, and the drop; the shared state may have changed before each.\<close>

definition serve ::
  "environment \<Rightarrow> fwd_env \<Rightarrow> backend \<Rightarrow> http_parts \<Rightarrow> s3_call \<Rightarrow> (gateway_state \<Rightarrow> gateway_state) \<Rightarrow> hook_state \<Rightarrow>
   (s3_error + s3_answer s3_response) \<times> fwd_state" where
  "serve env fe bk h call meanwhile s =
     (case run_hook env h call s of
        (Inl e, s1) \<Rightarrow> (Inl e, drop_request (fe_now fe) (fwd_start s1 (hs_gw s1)))
      | (Inr fwd, s1) \<Rightarrow>
          (case dispatch fe bk fwd (fwd_start s1 (meanwhile (hs_gw s1))) of
             (r, s2) \<Rightarrow> (r, drop_request (fe_now fe) s2)))"

section \<open>What the forward path does to a request\<close>

lemma on_reservation_frame [simp]:
  "fw_emitted (on_reservation f s) = fw_emitted s" "fw_contacted (on_reservation f s) = fw_contacted s"
  "ex_pending (fw_ext (on_reservation f s)) = ex_pending (fw_ext s)"
  "ex_proof (fw_ext (on_reservation f s)) = ex_proof (fw_ext s)"
  "ex_operation (fw_ext (on_reservation f s)) = ex_operation (fw_ext s)"
  "ex_route (fw_ext (on_reservation f s)) = ex_route (fw_ext s)"
  "ex_obligations (fw_ext (on_reservation f s)) = ex_obligations (fw_ext s)"
  "gw_registry (fw_gw (on_reservation f s)) = gw_registry (fw_gw s)"
  by (simp_all add: on_reservation_def Let_def split: option.splits prod.splits)

lemma track_frame [simp]:
  "fw_emitted (track_charged_body b s) = fw_emitted s" "fw_contacted (track_charged_body b s) = fw_contacted s"
  "ex_pending (fw_ext (track_charged_body b s)) = ex_pending (fw_ext s)"
  "ex_proof (fw_ext (track_charged_body b s)) = ex_proof (fw_ext s)"
  "ex_operation (fw_ext (track_charged_body b s)) = ex_operation (fw_ext s)"
  "ex_route (fw_ext (track_charged_body b s)) = ex_route (fw_ext s)"
  "gw_registry (fw_gw (track_charged_body b s)) = gw_registry (fw_gw s)"
  by (simp_all add: track_charged_body_def)

lemma observe_frame [simp]:
  "fw_emitted (observe_body p s) = fw_emitted s" "fw_contacted (observe_body p s) = fw_contacted s"
  "ex_pending (fw_ext (observe_body p s)) = ex_pending (fw_ext s)"
  by (simp_all add: observe_body_def)

lemma settle_reservation_frame [simp]:
  "fw_emitted (settle_reservation n r s) = fw_emitted s" "fw_contacted (settle_reservation n r s) = fw_contacted s"
  "ex_pending (fw_ext (settle_reservation n r s)) = ex_pending (fw_ext s)"
  by (simp_all add: settle_reservation_def)

text \<open>Three ways through the forward path: nothing was sent; one request was sent, with the client of the request's own
  route, after its proof was found to be for its operation.\<close>

definition sent_with :: "fwd_state \<Rightarrow> s3_client \<Rightarrow> bool" where
  "sent_with s client \<longleftrightarrow>
     (\<exists>op route. ex_proof (fw_ext s) = Some op \<and> ex_operation (fw_ext s) = Some op \<and> ex_route (fw_ext s) = Some route \<and>
        snd (proxy_for route (gw_registry (fw_gw s))) = Inr client)"

definition not_sent :: "fwd_state \<Rightarrow> fwd_state \<Rightarrow> bool" where
  "not_sent s s' \<longleftrightarrow>
     fw_contacted s' = fw_contacted s \<and> fw_emitted s' = fw_emitted s \<and> ex_pending (fw_ext s') = ex_pending (fw_ext s)"

definition sent :: "fwd_state \<Rightarrow> fwd_state \<Rightarrow> bool" where
  "sent s s' \<longleftrightarrow>
     (\<exists>client. sent_with s client \<and> fw_contacted s' = fw_contacted s @ [client]) \<and>
     (\<forall>r. ex_pending (fw_ext s) = Some (Some r) \<longrightarrow>
        ex_pending (fw_ext s') = Some None \<and>
        (\<exists>b st. b \<noteq> NotAttempted \<and> fw_emitted s' = fw_emitted s @ [record_settle b st r]))"

lemma proxy_for_req_cases:
  assumes "proxy_for_req s = (r, s1)"
  shows "not_sent s s1" and "r = Inr client \<Longrightarrow> sent_with s client"
  using assms
  by (auto simp: proxy_for_req_def proof_require_def not_sent_def sent_with_def split: option.splits if_splits sum.splits prod.splits)

lemma settle_pending_cases:
  "fw_contacted (settle_pending res s) = fw_contacted s"
  "ex_pending (fw_ext s) = Some (Some r) \<Longrightarrow>
     ex_pending (fw_ext (settle_pending res s)) = Some None \<and>
     (\<exists>b st. b \<noteq> NotAttempted \<and> fw_emitted (settle_pending res s) = fw_emitted s @ [record_settle b st r])"
  by (auto simp: settle_pending_def pending_settle_def Let_def split: option.splits sum.splits prod.splits)

lemma forward_cases:
  assumes "forward fe scrub leg s = (r, s')"
  shows "not_sent s s' \<or> sent s s'"
proof -
  obtain c s1 where c: "proxy_for_req s = (c, s1)" by (cases "proxy_for_req s")
  note p = proxy_for_req_cases [OF c]
  show ?thesis
  proof (cases c)
    case (Inl e)
    then show ?thesis using assms p(1) by (auto simp: forward_def c not_sent_def)
  next
    case (Inr client)
    let ?s2 = "on_reservation (\<lambda>r l. (mark_dispatched r, l)) (s1\<lparr>fw_contacted := fw_contacted s1 @ [client]\<rparr>)"
    obtain gw polls res where leg: "leg client (fw_gw ?s2) = (gw, polls, res)" by (metis prod_cases3)
    let ?s3 = "settle_reservation (fe_now fe) res (observe_body polls (?s2\<lparr>fw_gw := gw\<rparr>))"
    have s': "s' = settle_pending res ?s3"
      using assms by (simp add: forward_def c Inr leg Let_def)
    have f: "fw_contacted ?s3 = fw_contacted s @ [client]" "fw_emitted ?s3 = fw_emitted s" "ex_pending (fw_ext ?s3) = ex_pending (fw_ext s)"
      using p(1) by (simp_all add: not_sent_def)
    have "sent s s'"
      unfolding sent_def s' settle_pending_cases(1) using p(2) [OF Inr] settle_pending_cases(2) [of ?s3 _ res] f by auto
    then show ?thesis by simp
  qed
qed

lemma map_answer_snd [simp]: "snd (map_answer f rs) = snd rs"
  by (simp add: map_answer_def)

lemma forward_snd: "not_sent s (snd (forward fe scrub leg s)) \<or> sent s (snd (forward fe scrub leg s))"
  using forward_cases by (metis prod.collapse)

lemma tracked_cases:
  "not_sent (track_charged_body b s) s' = not_sent s s'" "sent (track_charged_body b s) s' = sent s s'"
  by (simp_all add: not_sent_def sent_def sent_with_def)

lemma forward_list_buckets_snd:
  "not_sent s (snd (forward_list_buckets fe bk i s)) \<or> sent s (snd (forward_list_buckets fe bk i s))"
  using forward_snd
  by (auto simp: forward_list_buckets_def not_sent_def Let_def split: option.splits prod.splits bucket_source.splits)

lemma dispatch_cases: "not_sent s (snd (dispatch fe bk call s)) \<or> sent s (snd (dispatch fe bk call s))"
proof (cases call)
  case (PutObject i)
  then show ?thesis
    using forward_snd [of "track_charged_body (pi_has_body i) s"] by (simp add: forward_plain_def tracked_cases)
next
  case (UploadPart i)
  then show ?thesis
    using forward_snd [of "track_charged_body (pi_has_body i) s"] by (simp add: forward_plain_def tracked_cases)
qed (simp_all add: forward_plain_def forward_list_v2_def forward_list_parts_def forward_list_uploads_def forward_snd
    forward_list_buckets_snd)

lemma drop_contacted [simp]: "fw_contacted (drop_request now s) = fw_contacted s"
  by (simp add: drop_request_def Let_def)

lemma drop_emitted:
  "fw_emitted (drop_request now s) =
     fw_emitted s @ (case ex_pending (fw_ext s) of Some (Some r) \<Rightarrow> [r] | _ \<Rightarrow> [])"
  by (simp add: drop_request_def Let_def pending_drop_def split: option.splits)

lemma fwd_start_simps [simp]:
  "fw_contacted (fwd_start s gw) = []" "fw_emitted (fwd_start s gw) = hs_emitted s" "fw_ext (fwd_start s gw) = hs_ext s"
  "fw_gw (fwd_start s gw) = gw"
  by (simp_all add: fwd_start_def)

lemma hidden_buckets:
  assumes "ex_obligations (fw_ext s) = Some (obligations_buckets Nothing src)"
  shows "dispatch fe bk (ListBuckets i) s = (Inr (response_new (BucketsAnswer (empty_bucket_list (bi_prefix i)))), s)"
  using assms by (simp add: forward_list_buckets_def obligations_buckets_def)

lemma record_settle_simps [simp]:
  "gm_backend (ar_gateway (record_settle b st r)) = b" "ar_result (record_settle b st r) = ar_result r"
  by (simp_all add: record_settle_def)

lemma forward_sends:
  assumes "sent_with s client"
  shows "fw_contacted (snd (forward fe scrub leg s)) = fw_contacted s @ [client]"
proof -
  obtain op route where e: "ex_proof (fw_ext s) = Some op" "ex_operation (fw_ext s) = Some op" "ex_route (fw_ext s) = Some route"
      "snd (proxy_for route (gw_registry (fw_gw s))) = Inr client"
    using assms by (auto simp: sent_with_def)
  then obtain reg where "proxy_for route (gw_registry (fw_gw s)) = (reg, Inr client)" by (metis prod.collapse)
  then have "proxy_for_req s = (Inr client, s\<lparr>fw_gw := (fw_gw s)\<lparr>gw_registry := reg\<rparr>\<rparr>)"
    using e by (simp add: proxy_for_req_def proof_require_def)
  then show ?thesis
    by (simp add: forward_def Let_def case_prod_unfold settle_pending_cases(1))
qed

subsection \<open>A backend that answers\<close>

definition demo_fwd_env :: fwd_env where
  "demo_fwd_env = \<lparr>fe_uuid = ''u'', fe_now = 0, fe_hashing = demo_hashing\<rparr>"

definition demo_bk :: backend where
  "demo_bk =
     \<lparr>bk_plain = (\<lambda>call client gw. (gw, [], Inr \<lparr>sr_headers = [(''x-amz-id-2'', ''zone'')],
        sr_output = \<lparr>po_ssekms_key_id = Some ''key'', po_ssekms_encryption_context = None, po_location = None\<rparr>\<rparr>)),
      bk_list_v2 = (\<lambda>client gw i. (gw, Inl (s3_error_of ''InternalError'' []))),
      bk_list_buckets = (\<lambda>client gw i. (gw, Inl (s3_error_of ''InternalError'' []))),
      bk_list_parts = (\<lambda>i client gw. (gw, [], Inl (s3_error_of ''InternalError'' []))),
      bk_list_uploads = (\<lambda>i client gw. (gw, [], Inl (s3_error_of ''InternalError'' [])))\<rparr>"

definition demo_client :: s3_client where
  "demo_client = build_proxy demo_backend ''AK'' ''s1'' (backend_timeouts limits_default)"

lemma demo_proxy: "snd (proxy_for demo_snapshot (demo_registry ''s1'')) = Inr demo_client"
  by (simp add: proxy_for_def proxy_route_def demo_snapshot_def demo_registry_def demo_backend_def pool_client_def Let_def demo_client_def)

lemma demo_ready_ext:
  "ex_operation (hs_ext demo_ready) = Some ''AbortMultipartUpload''" "ex_route (hs_ext demo_ready) = Some demo_snapshot"
  by (simp_all add: demo_ready_def)

lemma demo_allowed_run:
  obtains s1 where "run_hook (demo_env (decision_allow ''ok'')) (ck_http demo_check) (AbortMultipartUpload demo_object) demo_ready =
      (Inr (AbortMultipartUpload demo_object), s1)"
    and "ex_proof (hs_ext s1) = Some ''AbortMultipartUpload''" "ex_operation (hs_ext s1) = Some ''AbortMultipartUpload''"
    and "ex_route (hs_ext s1) = Some demo_snapshot" "gw_registry (hs_gw s1) = demo_registry ''s1''"
  by (simp add: hook_object_def with_ctx_def demo_ctx rewrap_def pass_on_def enforce_object_def enforce_object_charged_def
      enforce_charged_def input_placement_refusal_def shared_identity_refusal_def demo_snapshot_def demo_object_def decide_def
      demo_env_def unimplemented_obligations_def unimplemented_def decision_allow_def obligations_default_def grant_charged_def
      hold_quota_def prove_def base_input_def Let_def audit_pending_def demo_ready_gw demo_ready_ext demo_gateway_def)

definition demo_served :: "(s3_error + s3_answer s3_response) \<times> fwd_state" where
  "demo_served = serve (demo_env (decision_allow ''ok'')) demo_fwd_env demo_bk (ck_http demo_check) (AbortMultipartUpload demo_object) id
     (demo_ready\<lparr>hs_gw := demo_gateway\<rparr>)"

lemma demo_served_contacted: "fw_contacted (snd demo_served) = [demo_client]"
proof -
  obtain s1 where run: "run_hook (demo_env (decision_allow ''ok'')) (ck_http demo_check) (AbortMultipartUpload demo_object) demo_ready =
      (Inr (AbortMultipartUpload demo_object), s1)"
    and p: "ex_proof (hs_ext s1) = Some ''AbortMultipartUpload''" "ex_operation (hs_ext s1) = Some ''AbortMultipartUpload''"
      "ex_route (hs_ext s1) = Some demo_snapshot" "gw_registry (hs_gw s1) = demo_registry ''s1''"
    by (rule demo_allowed_run)
  have same: "demo_ready\<lparr>hs_gw := demo_gateway\<rparr> = demo_ready" by (simp add: demo_ready_def demo_start_def)
  have "sent_with (fwd_start s1 (hs_gw s1)) demo_client"
    using p demo_proxy by (simp add: sent_with_def)
  from forward_sends [OF this] show ?thesis
    unfolding demo_served_def same serve_def run by (simp add: forward_plain_def case_prod_unfold)
qed

lemma demo_served_eq:
  "serve (demo_env (decision_allow ''ok'')) demo_fwd_env demo_bk (ck_http demo_check) (AbortMultipartUpload demo_object) id
     (demo_ready\<lparr>hs_gw := demo_gateway\<rparr>) = (fst demo_served, snd demo_served)"
  unfolding demo_served_def by (rule prod.collapse [symmetric])

section \<open>Properties\<close>





lemma hiding_visibility:
  assumes "\<not> d_allow d \<or> ob_visible_buckets (d_obligations d) = [] \<and> \<not> ob_all_buckets_visible (d_obligations d)"
  shows "(\<exists>r. classify_bucket_listing d = Withhold r) \<or> classify_bucket_listing d = Show Nothing"
  using assms by (auto simp: classify_bucket_listing_def visibility_only_def btree_set_def Let_def split: option.splits)

text \<open>C4: Who may not list buckets cannot tell it from who may and sees none. When the policy engine denies the listing, fails,
  or allows it without naming a bucket, the client gets the same empty listing, and no backend is contacted.\<close>
theorem bucket_listing_uniform:
  assumes "req_ctx_new h (hs_ext s) = Inr cx" and "decide env cx (base_input cx Read []) s = (d, s1)"
    and "\<not> d_allow d \<or> ob_visible_buckets (d_obligations d) = [] \<and> \<not> ob_all_buckets_visible (d_obligations d)"
  shows "fst (serve env fe bk h (ListBuckets i) meanwhile s) = Inr (response_new (BucketsAnswer (empty_bucket_list (bi_prefix i)))) \<and>
    fw_contacted (snd (serve env fe bk h (ListBuckets i) meanwhile s)) = []"
proof -
  let ?src = "bucket_source_of (cx_placement cx) (cx_route cx)"
  obtain s2 where run: "run_hook env h (ListBuckets i) s = (Inr (ListBuckets i), s2)"
    and ob: "ex_obligations (hs_ext s2) = Some (obligations_buckets Nothing ?src)"
    using hiding_visibility [OF assms(3)] assms(1,2)
    by (auto simp: hook_list_buckets_def with_ctx_def rewrap_def enforce_bucket_listing_def)
  then show ?thesis
    using hidden_buckets [of "fwd_start s2 (meanwhile (hs_gw s2))" ?src fe bk i] by (simp add: serve_def)
qed

definition demo_buckets_input :: list_buckets_input where
  "demo_buckets_input = \<lparr>bi_prefix = Some ''p'', bi_continuation_token = None, bi_max_buckets = None\<rparr>"

lemma demo_decide:
  assumes "req_ctx_new h (hs_ext demo_ready) = Inr cx"
  shows "decide (demo_env d) cx (base_input cx Read []) demo_ready = (d, demo_ready\<lparr>hs_asked := hs_asked demo_ready @ [(base_input cx Read [], d)]\<rparr>)"
  using assms unfolding demo_ctx
  by (auto simp: decide_def demo_env_def input_placement_refusal_def shared_identity_refusal_def demo_snapshot_def base_input_def Let_def)

theorem bucket_listing_uniform_witness:
  "fst (serve (demo_env (decision_deny ''no'')) demo_fwd_env demo_bk (ck_http demo_check) (ListBuckets demo_buckets_input) id demo_ready) =
   fst (serve (demo_env (decision_allow ''ok'')) demo_fwd_env demo_bk (ck_http demo_check) (ListBuckets demo_buckets_input) id demo_ready)"
  using bucket_listing_uniform [OF demo_ctx demo_decide [OF demo_ctx], where d = "decision_deny ''no''" and h = "ck_http demo_check" and fe = demo_fwd_env and bk = demo_bk and i = demo_buckets_input and meanwhile = id]
    bucket_listing_uniform [OF demo_ctx demo_decide [OF demo_ctx], where d = "decision_allow ''ok''" and h = "ck_http demo_check" and fe = demo_fwd_env and bk = demo_bk and i = demo_buckets_input and meanwhile = id]
  by (simp add: decision_allow_def obligations_default_def del: run_hook.simps)

text \<open>The answers that can carry the backend's key.\<close>

fun carries_kms_key :: "s3_call \<Rightarrow> bool" where
  "carries_kms_key (GetObject i) = True"
| "carries_kms_key (HeadObject i) = True"
| "carries_kms_key (PutObject i) = True"
| "carries_kms_key (PostObject i) = True"
| "carries_kms_key (CopyObject i) = True"
| "carries_kms_key (CreateMultipartUpload i) = True"
| "carries_kms_key (UploadPart i) = True"
| "carries_kms_key (UploadPartCopy i) = True"
| "carries_kms_key (CompleteMultipartUpload i) = True"
| "carries_kms_key call = False"

definition names_no_backend :: "s3_call \<Rightarrow> s3_answer \<Rightarrow> bool" where
  "names_no_backend call ans =
     (case ans of
        PlainAnswer out \<Rightarrow>
          (carries_kms_key call \<longrightarrow> po_ssekms_key_id out = None) \<and>
          (\<forall>i. call = CompleteMultipartUpload i \<longrightarrow> po_location out = None)
      | ListV2Answer out \<Rightarrow> True
      | PartsAnswer out \<Rightarrow> pa_owner out = None \<and> pa_initiator out = None
      | UploadsAnswer out \<Rightarrow>
          (\<forall>us u i. lu_uploads out = Some us \<and> u \<in> set us \<longrightarrow> mu_owner u = None \<and> mu_initiator u = None \<and>
             (call = ListMultipartUploads i \<longrightarrow> (\<exists>k. mu_key u = Some k \<and> (\<forall>p. lp_prefix i = Some p \<longrightarrow> starts_with k p))))
      | BucketsAnswer out \<Rightarrow> bo_owner out = None)"

definition reminted :: "s3_error \<Rightarrow> bool" where
  "reminted e \<longleftrightarrow> (is_backend_error e \<longrightarrow> (\<exists>err i. e = remint_backend_error err i))"

lemma s3_error_of_reminted [simp]: "reminted (s3_error_of c m)"
  by (simp add: reminted_def is_backend_error_def s3_error_of_def)

lemma remint_reminted [simp]: "reminted (remint_backend_error e i)"
  unfolding reminted_def by blast

lemma gateway_error_reminted: "\<not> is_backend_error e \<Longrightarrow> reminted (e\<lparr>se_request_id := i\<rparr>)"
  by (simp add: reminted_def is_backend_error_def)

lemma proxy_for_req_error: "proxy_for_req s = (Inl e, s1) \<Longrightarrow> reminted e"
  by (auto simp: proxy_for_req_def proof_require_def split: option.splits if_splits sum.splits prod.splits)

lemma stamped_no_host_id: "get_all (stamp_request_id i hs) ''x-amz-id-2'' = []"
  by (auto simp: stamp_request_id_def header_remove_def header_insert_def get_all_def Let_def filter_empty_conv)

lemma forward_result:
  assumes "forward fe scrub leg s = (r, s')"
  shows "(case r of
      Inl e \<Rightarrow> reminted e
    | Inr resp \<Rightarrow> get_all (sr_headers resp) ''x-amz-id-2'' = [] \<and>
        (\<exists>client gw gw' polls resp'. leg client gw = (gw', polls, Inr resp') \<and> sr_output resp = scrub (sr_output resp')))"
proof -
  obtain c s1 where c: "proxy_for_req s = (c, s1)" by (cases "proxy_for_req s")
  show ?thesis
  proof (cases c)
    case (Inl e)
    then show ?thesis using assms proxy_for_req_error c by (auto simp: forward_def)
  next
    case (Inr client)
    let ?s2 = "on_reservation (\<lambda>r l. (mark_dispatched r, l)) (s1\<lparr>fw_contacted := fw_contacted s1 @ [client]\<rparr>)"
    obtain gw polls res where leg: "leg client (fw_gw ?s2) = (gw, polls, res)" by (metis prod_cases3)
    show ?thesis
    proof (cases res)
      case (Inl e)
      then show ?thesis
        using assms by (auto simp: forward_def c Inr leg Let_def gateway_error_reminted split: if_splits)
    next
      case res: (Inr resp')
      then show ?thesis
        using assms leg by (auto simp: forward_def c Inr Let_def stamped_no_host_id) blast
    qed
  qed
qed

lemma strip_uploads_clean:
  "names_no_backend (ListMultipartUploads i) (UploadsAnswer (strip_uploads (lp_prefix i) out))"
  by (auto simp: names_no_backend_def strip_uploads_def keep_upload_def split: option.splits)

lemma scrub_plain_clean: "names_no_backend call (PlainAnswer (scrub_plain call out))"
  by (cases call) (simp_all add: names_no_backend_def)

text \<open>What every arm's answer satisfies.\<close>

definition clean_answer :: "s3_call \<Rightarrow> (s3_error + s3_answer s3_response) \<Rightarrow> bool" where
  "clean_answer call r =
     (case r of
        Inl e \<Rightarrow> reminted e
      | Inr resp \<Rightarrow> get_all (sr_headers resp) ''x-amz-id-2'' = [] \<and> names_no_backend call (sr_output resp))"

lemma map_answer_clean:
  assumes "\<And>resp client gw gw' polls. leg client gw = (gw', polls, Inr resp) \<Longrightarrow> names_no_backend call (f (scrub (sr_output resp)))"
  shows "clean_answer call (fst (map_answer f (forward fe scrub leg s)))"
proof -
  obtain r1 s1 where fw: "forward fe scrub leg s = (r1, s1)" by (cases "forward fe scrub leg s")
  show ?thesis
    using forward_result [OF fw] assms by (cases r1) (auto simp: map_answer_def fw clean_answer_def)
qed

lemma listing_page_clean:
  "bucket_listing_page h all v p cur n = Inr out \<Longrightarrow> bo_owner out = None"
  "bucket_listing_page h all v p cur n = Inl e \<Longrightarrow> reminted e"
  by (auto simp: bucket_listing_page_def split: sum.splits)

lemma decode_cursor_reminted: "decode_cursor h t = Inl e \<Longrightarrow> reminted e"
  by (auto simp: decode_cursor_def split: option.splits)

lemma filtered_listing_clean:
  "filtered_bucket_listing h lb w i v n m = (w', Inr out) \<Longrightarrow> bo_owner out = None"
  by (auto simp: filtered_bucket_listing_def split: sum.splits prod.splits dest: listing_page_clean)

lemma bundle_listing_clean:
  "case bundle_bucket_listing h ext i bs v n of Inl e \<Rightarrow> reminted e | Inr out \<Rightarrow> bo_owner out = None"
  using listing_page_clean decode_cursor_reminted
  by (auto simp: bundle_bucket_listing_def proof_require_def split: sum.splits option.splits)

lemma buckets_clean:
  "clean_answer (ListBuckets i) (fst (forward_list_buckets fe bk i s))"
proof -
  have leg: "names_no_backend (ListBuckets i) (BucketsAnswer (id (sr_output resp)))"
    if "buckets_leg fe bk i v n m client gw = (gw', polls, Inr resp)" for v n m resp client gw gw' polls
  proof -
    obtain w q where f: "filtered_bucket_listing (fe_hashing fe) (bk_list_buckets bk client) gw i v n m = (w, q)"
      by (cases "filtered_bucket_listing (fe_hashing fe) (bk_list_buckets bk client) gw i v n m")
    show ?thesis
      using that f filtered_listing_clean by (cases q) (auto simp: buckets_leg_def names_no_backend_def response_new_def)
  qed
  have answered: "clean_answer (ListBuckets i) (fst (map_answer BucketsAnswer (forward fe id (buckets_leg fe bk i v n m) s)))" for v n m
    by (rule map_answer_clean) (rule leg)
  have placed: "clean_answer (ListBuckets i) (map_sum id (response_new \<circ> BucketsAnswer) (bundle_bucket_listing h ext i bs v n))"
    for h ext bs v n
    using bundle_listing_clean [of h ext i bs v n]
    by (cases "bundle_bucket_listing h ext i bs v n") (auto simp: clean_answer_def response_new_def names_no_backend_def get_all_def)
  let ?ob = "Option.bind (ex_obligations (fw_ext s))
      (\<lambda>ob. case (ro_visible_buckets ob, ro_bucket_source ob) of (Some v, Some src) \<Rightarrow> Some (v, src) | _ \<Rightarrow> None)"
  let ?bounds = "bucket_listing_bounds (gw_limits (fw_gw s))"
  let ?size = "bucket_page_size (fst ?bounds) (bi_max_buckets i)"
  show ?thesis
  proof (cases ?ob)
    case None
    then show ?thesis by (simp add: forward_list_buckets_def missing_visibility_def clean_answer_def)
  next
    case (Some vs)
    obtain v src where vs: "?ob = Some (v, src)" using Some by (cases vs) simp
    consider "v = Nothing" | "v \<noteq> Nothing" "src = BackendSource" | bs where "v \<noteq> Nothing" "src = BundleSource bs"
      by (cases src) auto
    then show ?thesis
    proof cases
      case 1
      then show ?thesis
        unfolding forward_list_buckets_def vs
        by (simp add: response_new_def names_no_backend_def empty_bucket_list_def get_all_def clean_answer_def)
    next
      case 2
      then show ?thesis
        unfolding forward_list_buckets_def vs by (simp add: case_prod_unfold Let_def answered)
    next
      case 3
      then show ?thesis
        unfolding forward_list_buckets_def vs by (simp add: case_prod_unfold Let_def placed)
    qed
  qed
qed

lemma plain_clean: "clean_answer call (fst (forward_plain fe bk call s))"
  unfolding forward_plain_def by (rule map_answer_clean) (rule scrub_plain_clean)


end
