(* ===== verification/S0_Pdp.thy ===== *)
theory S0_Pdp
  imports S0_Placement S0_Error
begin

text \<open>
  The policy engines and the live bundle, \<open>src/src/pdp/embedded.rs\<close>, \<open>src/src/pdp/sidecar.rs\<close>,
  \<open>src/src/pdp/cache.rs\<close> and \<open>src/src/bundle_refresh.rs\<close>. The rego library, \<open>serde_json\<close>, SHA-256 and
  the HTTP client are parameters. The decision cache and the refresh task run concurrently: a call
  of the cached engine and a round of the refresh are cut at their awaits, and \<open>pdp_step\<close> is any
  interleaving of the pieces. The cache may also lose any entry at any time, which is all that is
  assumed of its eviction.
\<close>

section \<open>The libraries\<close>

text \<open>A rego engine of type \<open>'e\<close>, its values \<open>'v\<close> and its compiled policies \<open>'c\<close>.\<close>

record ('e, 'v, 'c) rego =
  rg_new :: 'e
  rg_set_strict_builtin_errors :: "bool \<Rightarrow> 'e \<Rightarrow> 'e"
  rg_add_policy :: "string \<Rightarrow> string \<Rightarrow> 'e \<Rightarrow> string + 'e"
  rg_from_json_str :: "string \<Rightarrow> string + 'v"
  rg_add_data :: "'v \<Rightarrow> 'e \<Rightarrow> string + 'e"
  rg_compile_with_entrypoint :: "string \<Rightarrow> 'e \<Rightarrow> string + 'c"
  rg_eval_with_input :: "'c \<Rightarrow> 'v \<Rightarrow> string + 'v"
  rg_undefined :: "'v \<Rightarrow> bool"
  rg_to_json_str :: "'v \<Rightarrow> string + string"

record codec =
  cd_show :: "json \<Rightarrow> string"
  cd_read :: "string \<Rightarrow> json res"
  cd_read_decision :: "string \<Rightarrow> string + decision"
  cd_sha256_hex :: "string \<Rightarrow> string"
  cd_rfc3339 :: "string \<Rightarrow> int option"

definition opa_input_value :: "opa_input \<Rightarrow> json" where
  "opa_input_value i = JObj (btree_of (opa_input_fields i))"

definition map_err :: "('a \<Rightarrow> 'b) \<Rightarrow> 'a + 'c \<Rightarrow> 'b + 'c" where
  "map_err f = map_sum f id"

definition on_ok :: "'e + 'a \<Rightarrow> ('a \<Rightarrow> 'e + 'b) \<Rightarrow> 'e + 'b" where
  "on_ok r k = (case r of Inl e \<Rightarrow> Inl e | Inr x \<Rightarrow> k x)"

lemma result_simps [simp]:
  "on_ok (Inl e) k = Inl e" "on_ok (Inr x) k = k x" "map_err f (Inl e) = Inl (f e)" "map_err f (Inr x) = Inr x"
  by (simp_all add: on_ok_def map_err_def)

section \<open>The embedded engine\<close>

record 'c regorus_pdp =
  rp_entrypoint :: string
  rp_policy :: string
  rp_compiled :: 'c

definition compile_policy ::
  "('e, 'v, 'c) rego \<Rightarrow> codec \<Rightarrow> string \<Rightarrow> json \<Rightarrow> string \<Rightarrow> gateway_error + 'c" where
  "compile_policy rg cd policy data entrypoint =
     (let engine = rg_set_strict_builtin_errors rg False (rg_new rg)
      in on_ok (map_err (\<lambda>e. Pdp (''add_policy: '' @ e)) (rg_add_policy rg ''gateway/authz.rego'' policy engine)) (\<lambda>engine.
         on_ok (map_err (\<lambda>e. Bundle (''bundle to value: '' @ e)) (rg_from_json_str rg (cd_show cd data))) (\<lambda>value.
         on_ok (map_err (\<lambda>e. Bundle (''add_data: '' @ e)) (rg_add_data rg value engine)) (\<lambda>engine.
         map_err (\<lambda>e. Pdp (''compile: '' @ e)) (rg_compile_with_entrypoint rg entrypoint engine)))))"

definition regorus_new ::
  "('e, 'v, 'c) rego \<Rightarrow> codec \<Rightarrow> string \<Rightarrow> json \<Rightarrow> gateway_error + 'c regorus_pdp" where
  "regorus_new rg cd policy initial_data =
     on_ok (compile_policy rg cd policy initial_data decision_rule)
       (\<lambda>compiled. Inr \<lparr>rp_entrypoint = decision_rule, rp_policy = policy, rp_compiled = compiled\<rparr>)"

definition regorus_decide ::
  "('e, 'v, 'c) rego \<Rightarrow> codec \<Rightarrow> 'c regorus_pdp \<Rightarrow> opa_input \<Rightarrow> gateway_error + decision" where
  "regorus_decide rg cd p input =
     (let input_json = cd_show cd (opa_input_value input)
      in on_ok (map_err (\<lambda>e. Pdp (''input to value: '' @ e)) (rg_from_json_str rg input_json)) (\<lambda>input_value.
         on_ok (map_err (\<lambda>e. Pdp (''eval: '' @ e)) (rg_eval_with_input rg (rp_compiled p) input_value)) (\<lambda>decision_value.
         if rg_undefined rg decision_value then Inr (decision_deny ''regorus: undefined decision'')
         else on_ok (map_err (\<lambda>e. Pdp (''decision to json: '' @ e)) (rg_to_json_str rg decision_value))
           (\<lambda>decision_json. map_err Json (cd_read_decision cd decision_json)))))"

definition regorus_reload ::
  "('e, 'v, 'c) rego \<Rightarrow> codec \<Rightarrow> string option \<Rightarrow> json \<Rightarrow> 'c regorus_pdp \<Rightarrow> gateway_error + 'c regorus_pdp" where
  "regorus_reload rg cd policy data p =
     (let effective = (case policy of Some pushed \<Rightarrow> pushed | None \<Rightarrow> rp_policy p)
      in on_ok (compile_policy rg cd effective data (rp_entrypoint p))
           (\<lambda>compiled. Inr (p\<lparr>rp_policy := effective, rp_compiled := compiled\<rparr>)))"

section \<open>The sidecar engine\<close>

text \<open>What the HTTP client gives: an error of sending, or a status and the decoded body.\<close>

type_synonym opa_answer = "string + nat \<times> (string + decision option)"

definition sidecar_url :: "string \<Rightarrow> string" where
  "sidecar_url base_url =
     rev (dropWhile (\<lambda>c. c = CHR ''/'') (rev base_url)) @ ''/v1/data/'' @ decision_rule_path"

definition sidecar_decide :: "(string \<Rightarrow> json \<Rightarrow> opa_answer) \<Rightarrow> (nat \<Rightarrow> string) \<Rightarrow> string \<Rightarrow> opa_input \<Rightarrow> gateway_error + decision" where
  "sidecar_decide post show_status url input =
     on_ok (map_err (\<lambda>e. Pdp (''opa request: '' @ e)) (post url (JObj [(''input'', opa_input_value input)]))) (\<lambda>(status, body).
       if \<not> (200 \<le> status \<and> status < 300) then Inl (Pdp (''opa status '' @ show_status status))
       else on_ok (map_err (\<lambda>e. Pdp (''opa decode: '' @ e)) body) (\<lambda>result.
         Inr (case result of Some d \<Rightarrow> d | None \<Rightarrow> decision_deny ''opa: undefined decision'')))"

section \<open>The decision cache\<close>

definition unit_separator :: char where
  "unit_separator = CHR 0x1F"

text \<open>The part of the key that is not the revision.\<close>

definition cache_question :: "codec \<Rightarrow> opa_input \<Rightarrow> string" where
  "cache_question cd input =
     cd_show cd (principal_value (oi_principal input)) @ [unit_separator] @ resource_key (cd_sha256_hex cd) (cd_show cd) input"

definition cache_key :: "codec \<Rightarrow> string \<Rightarrow> opa_input \<Rightarrow> string" where
  "cache_key cd revision input = revision @ [unit_separator] @ cache_question cd input"

text \<open>Where a call of \<open>CachingPdp::decide\<close> stands: it waits for the engine without a key, for the
  cache, for the engine after a miss, for the insertion, or it has returned.\<close>

datatype stage =
    Direct
  | Looking string
  | Asking string
  | Inserting string decision
  | Answered "gateway_error + decision"

definition caching_begin :: "codec \<Rightarrow> bundle_store \<Rightarrow> opa_input \<Rightarrow> stage" where
  "caching_begin cd store input =
     (if has_on_demand_data input then Direct else Looking (cache_key cd (store_revision store) input))"

definition caching_look :: "(string \<rightharpoonup> decision) \<Rightarrow> string \<Rightarrow> stage" where
  "caching_look cache key = (case cache key of Some hit \<Rightarrow> Answered (Inr hit) | None \<Rightarrow> Asking key)"

definition caching_ask :: "string \<Rightarrow> gateway_error + decision \<Rightarrow> stage" where
  "caching_ask key verdict = (case verdict of Inl e \<Rightarrow> Answered (Inl e) | Inr d \<Rightarrow> Inserting key d)"

definition caching_insert :: "string \<Rightarrow> decision \<Rightarrow> (string \<rightharpoonup> decision) \<Rightarrow> stage \<times> (string \<rightharpoonup> decision)" where
  "caching_insert key d cache = (Answered (Inr d), cache(key \<mapsto> d))"

section \<open>The refresh task\<close>

text \<open>The file system and the HTTP client answer \<open>read_to_string\<close> and \<open>get\<close>: an error, or for the client a status and the
  body, whose transfer may still fail.\<close>

datatype bundle_source = SourceFile string | SourceHttp string "string option"

fun source_is_remote :: "bundle_source \<Rightarrow> bool" where
  "source_is_remote (SourceHttp _ _) = True"
| "source_is_remote (SourceFile _) = False"

fun source_is_authenticated :: "bundle_source \<Rightarrow> bool" where
  "source_is_authenticated (SourceHttp _ (Some _)) = True"
| "source_is_authenticated _ = False"

definition fetch_rejected :: "string \<Rightarrow> string option \<Rightarrow> string" where
  "fetch_rejected shown shared_secret =
     ''status '' @ shown @ '' '' @ map char_of [0xE2, 0x80, 0x94 :: nat] @
     '' the bundle endpoint rejected this gateway'' @ [CHR 0x27] @ ''s credential (bundle_shared_secret '' @
     (if shared_secret \<noteq> None then ''is set and was sent'' else ''is not set, so nothing was sent'') @
     ''); revocation is NOT landing''"

fun source_fetch ::
  "(string \<Rightarrow> string + string) \<Rightarrow> (string \<Rightarrow> (string \<times> string) list \<Rightarrow> string + nat \<times> (string + string)) \<Rightarrow> (nat \<Rightarrow> string) \<Rightarrow>
   bundle_source \<Rightarrow> string + string" where
  "source_fetch read_to_string get show_status (SourceFile path) = read_to_string path"
| "source_fetch read_to_string get show_status (SourceHttp url shared_secret) =
     on_ok (get url (case shared_secret of Some secret \<Rightarrow> [(''x-shared-secret'', secret)] | None \<Rightarrow> [])) (\<lambda>(status, body).
       if \<not> (200 \<le> status \<and> status < 300) then
         if status = 401 \<or> status = 403 then Inl (fetch_rejected (show_status status) shared_secret)
         else Inl (''status '' @ show_status status)
       else body)"

text \<open>Only a success answer's body reaches the parser, and the configured credential rides on every fetch.\<close>

lemma source_fetch_remote:
  "source_fetch rd get sh (SourceHttp url secret) = Inr raw \<longleftrightarrow>
     (\<exists>status. get url (case secret of Some s \<Rightarrow> [(''x-shared-secret'', s)] | None \<Rightarrow> []) = Inr (status, Inr raw) \<and>
        200 \<le> status \<and> status < 300)"
  by (auto simp: on_ok_def split: sum.splits if_splits)

record bundle_health =
  bh_remote :: bool
  bh_successes :: u64
  bh_failures :: u64
  bh_last_success_unix :: u64

definition health_ready :: "bundle_health \<Rightarrow> bool" where
  "health_ready h \<longleftrightarrow> bh_successes h > 0"

definition record_success :: "u64 \<Rightarrow> bundle_health \<Rightarrow> bundle_health" where
  "record_success now h = h\<lparr>bh_successes := bh_successes h + 1, bh_last_success_unix := now\<rparr>"

definition record_failure :: "bundle_health \<Rightarrow> bundle_health" where
  "record_failure h = h\<lparr>bh_failures := bh_failures h + 1\<rparr>"

text \<open>A round of \<open>refresh_once\<close>: fetching, then the reload of the engine, then the advertisement of
  the revision. A piece gives the next one, or the result of the round.\<close>

datatype round =
    Fetching
  | Reloading string parsed_bundle
  | Advertising string json
  | Finished "string + unit"

definition refresh_fetched :: "codec \<Rightarrow> bundle_store \<Rightarrow> string + string \<Rightarrow> round" where
  "refresh_fetched cd bundles fetched =
     (case fetched of
        Inl e \<Rightarrow> Finished (Inl e)
      | Inr raw \<Rightarrow>
          let revision = content_revision (cd_sha256_hex cd) raw
          in if revision = store_revision bundles then Finished (Inr ())
             else case parse_bundle (cd_read cd) raw of
               Inl e \<Rightarrow> Finished (Inl e)
             | Inr parsed \<Rightarrow> Reloading revision parsed)"

definition refresh_reload ::
  "('e, 'v, 'c) rego \<Rightarrow> codec \<Rightarrow> string \<Rightarrow> parsed_bundle \<Rightarrow> 'c regorus_pdp \<Rightarrow> round \<times> 'c regorus_pdp" where
  "refresh_reload rg cd revision parsed engine =
     (case regorus_reload rg cd (pb_policy parsed) (pb_data parsed) engine of
        Inl e \<Rightarrow> (Finished (Inl (gateway_error_display e)), engine)
      | Inr engine' \<Rightarrow> (Advertising revision (pb_data parsed), engine'))"

definition refresh_advertise :: "codec \<Rightarrow> u64 \<Rightarrow> string \<Rightarrow> json \<Rightarrow> bundle_store \<Rightarrow> round \<times> bundle_store" where
  "refresh_advertise cd generation revision data bundles =
     (Finished (Inr ()), store_bundle (bundle_new (cd_show cd) (cd_rfc3339 cd) generation revision data) bundles)"

definition refresh_tick :: "u64 \<Rightarrow> string + unit \<Rightarrow> bundle_health \<Rightarrow> bundle_health" where
  "refresh_tick now result health =
     (case result of Inr _ \<Rightarrow> record_success now health | Inl e \<Rightarrow> record_failure health)"

section \<open>Calls and refreshes interleaved\<close>

text \<open>A call remembers how many bundles had been advertised before the one in force when it began.\<close>

record cached_call =
  cl_input :: opa_input
  cl_since :: nat
  cl_stage :: stage

text \<open>The shared state, every call made so far, the round in progress, and two histories that nothing
  reads: the revisions advertised and the engines installed, oldest first.\<close>

record 'c pdp_world =
  pw_store :: bundle_store
  pw_engine :: "'c regorus_pdp"
  pw_cache :: "string \<rightharpoonup> decision"
  pw_health :: bundle_health
  pw_calls :: "nat \<rightharpoonup> cached_call"
  pw_round :: round
  pw_advertised :: "string list"
  pw_engines :: "'c regorus_pdp list"

definition set_stage :: "nat \<Rightarrow> stage \<Rightarrow> 'c pdp_world \<Rightarrow> 'c pdp_world" where
  "set_stage n st w = w\<lparr>pw_calls := (pw_calls w)(n := map_option (\<lambda>c. c\<lparr>cl_stage := st\<rparr>) (pw_calls w n))\<rparr>"

definition step_begin :: "codec \<Rightarrow> nat \<Rightarrow> opa_input \<Rightarrow> 'c pdp_world \<Rightarrow> 'c pdp_world" where
  "step_begin cd n input w =
     w\<lparr>pw_calls := (pw_calls w)(n \<mapsto>
         \<lparr>cl_input = input, cl_since = length (pw_advertised w) - 1, cl_stage = caching_begin cd (pw_store w) input\<rparr>)\<rparr>"

definition step_call :: "('e, 'v, 'c) rego \<Rightarrow> codec \<Rightarrow> nat \<Rightarrow> cached_call \<Rightarrow> 'c pdp_world \<Rightarrow> 'c pdp_world" where
  "step_call rg cd n c w =
     (case cl_stage c of
        Direct \<Rightarrow> set_stage n (Answered (regorus_decide rg cd (pw_engine w) (cl_input c))) w
      | Looking key \<Rightarrow> set_stage n (caching_look (pw_cache w) key) w
      | Asking key \<Rightarrow> set_stage n (caching_ask key (regorus_decide rg cd (pw_engine w) (cl_input c))) w
      | Inserting key d \<Rightarrow>
          let (st, cache) = caching_insert key d (pw_cache w) in set_stage n st (w\<lparr>pw_cache := cache\<rparr>)
      | Answered r \<Rightarrow> w)"

definition step_evict :: "string set \<Rightarrow> 'c pdp_world \<Rightarrow> 'c pdp_world" where
  "step_evict keys w = w\<lparr>pw_cache := pw_cache w |` (- keys)\<rparr>"

definition step_refresh ::
  "('e, 'v, 'c) rego \<Rightarrow> codec \<Rightarrow> string + string \<Rightarrow> u64 \<Rightarrow> u64 \<Rightarrow> 'c pdp_world \<Rightarrow> 'c pdp_world" where
  "step_refresh rg cd fetched generation now w =
     (case pw_round w of
        Fetching \<Rightarrow> w\<lparr>pw_round := refresh_fetched cd (pw_store w) fetched\<rparr>
      | Reloading revision parsed \<Rightarrow>
          let (r, engine) = refresh_reload rg cd revision parsed (pw_engine w)
          in w\<lparr>pw_round := r, pw_engine := engine,
               pw_engines := (case r of Advertising _ _ \<Rightarrow> pw_engines w @ [engine] | _ \<Rightarrow> pw_engines w)\<rparr>
      | Advertising revision data \<Rightarrow>
          let (r, bundles) = refresh_advertise cd generation revision data (pw_store w)
          in w\<lparr>pw_round := r, pw_store := bundles, pw_advertised := pw_advertised w @ [store_revision bundles]\<rparr>
      | Finished result \<Rightarrow> w\<lparr>pw_round := Fetching, pw_health := refresh_tick now result (pw_health w)\<rparr>)"

inductive pdp_step :: "('e, 'v, 'c) rego \<Rightarrow> codec \<Rightarrow> 'c pdp_world \<Rightarrow> 'c pdp_world \<Rightarrow> bool" for rg cd where
  begin_call: "pw_calls w n = None \<Longrightarrow> pdp_step rg cd w (step_begin cd n input w)"
| advance_call: "pw_calls w n = Some c \<Longrightarrow> pdp_step rg cd w (step_call rg cd n c w)"
| evict: "pdp_step rg cd w (step_evict keys w)"
| refresh: "pdp_step rg cd w (step_refresh rg cd fetched generation now w)"

text \<open>How \<open>build_pdp\<close> leaves the embedded engine: the bundle file parsed, the pushed module or the
  compiled-in default compiled, an empty cache.\<close>

definition build_embedded ::
  "('e, 'v, 'c) rego \<Rightarrow> codec \<Rightarrow> string \<Rightarrow> u64 \<Rightarrow> bool \<Rightarrow> string \<Rightarrow> gateway_error + 'c pdp_world" where
  "build_embedded rg cd gateway_rego generation remote raw =
     on_ok (map_err Bundle (parse_bundle (cd_read cd) raw)) (\<lambda>parsed.
       let revision = content_revision (cd_sha256_hex cd) raw;
           policy = (case pb_policy parsed of Some p \<Rightarrow> p | None \<Rightarrow> gateway_rego)
       in on_ok (regorus_new rg cd policy (pb_data parsed)) (\<lambda>engine.
         Inr \<lparr>pw_store = \<lparr>bst_current = bundle_new (cd_show cd) (cd_rfc3339 cd) generation revision (pb_data parsed)\<rparr>,
              pw_engine = engine, pw_cache = Map.empty,
              pw_health = \<lparr>bh_remote = remote, bh_successes = 0, bh_failures = 0, bh_last_success_unix = 0\<rparr>,
              pw_calls = Map.empty, pw_round = Fetching, pw_advertised = [revision], pw_engines = [engine]\<rparr>))"

inductive pdp_reach :: "('e, 'v, 'c) rego \<Rightarrow> codec \<Rightarrow> 'c pdp_world \<Rightarrow> 'c pdp_world \<Rightarrow> bool" for rg cd w where
  start: "pdp_reach rg cd w w"
| step: "pdp_reach rg cd w v \<Longrightarrow> pdp_step rg cd v u \<Longrightarrow> pdp_reach rg cd w u"

section \<open>What a verdict rests on\<close>

text \<open>The inputs asked about so far, and the ways a world grows.\<close>

definition asked :: "'c pdp_world \<Rightarrow> opa_input set" where
  "asked w = {i. \<exists>n. map_option cl_input (pw_calls w n) = Some i}"

definition grows :: "'c pdp_world \<Rightarrow> 'c pdp_world \<Rightarrow> bool" where
  "grows w w' \<longleftrightarrow>
     (\<exists>rs. pw_advertised w' = pw_advertised w @ rs) \<and> (\<exists>es. pw_engines w' = pw_engines w @ es) \<and> asked w \<subseteq> asked w'"

text \<open>An engine made from the one before it by the bundle with that revision.\<close>

definition reloaded_from ::
  "('e, 'v, 'c) rego \<Rightarrow> codec \<Rightarrow> 'c regorus_pdp \<Rightarrow> string \<Rightarrow> 'c regorus_pdp \<Rightarrow> bool" where
  "reloaded_from rg cd before revision after \<longleftrightarrow>
     (\<exists>raw parsed. content_revision (cd_sha256_hex cd) raw = revision \<and> parse_bundle (cd_read cd) raw = Inr parsed \<and>
        regorus_reload rg cd (pb_policy parsed) (pb_data parsed) before = Inr after)"

text \<open>The engine history is one ahead of the advertised revisions while a revision is about to be
  advertised, and level with them otherwise.\<close>

definition histories_ok :: "('e, 'v, 'c) rego \<Rightarrow> codec \<Rightarrow> 'c pdp_world \<Rightarrow> bool" where
  "histories_ok rg cd w \<longleftrightarrow>
     pw_advertised w \<noteq> [] \<and> last (pw_advertised w) = store_revision (pw_store w) \<and>
     pw_engines w \<noteq> [] \<and> last (pw_engines w) = pw_engine w \<and>
     (\<forall>v. Suc v < length (pw_advertised w) \<longrightarrow>
        reloaded_from rg cd (pw_engines w ! v) (pw_advertised w ! Suc v) (pw_engines w ! Suc v)) \<and>
     (case pw_round w of
        Advertising revision data \<Rightarrow>
          length (pw_engines w) = Suc (length (pw_advertised w)) \<and>
          reloaded_from rg cd (pw_engines w ! (length (pw_advertised w) - 1)) revision (pw_engine w)
      | Reloading revision parsed \<Rightarrow>
          length (pw_engines w) = length (pw_advertised w) \<and>
          (\<exists>raw. content_revision (cd_sha256_hex cd) raw = revision \<and> parse_bundle (cd_read cd) raw = Inr parsed)
      | _ \<Rightarrow> length (pw_engines w) = length (pw_advertised w))"

definition judged_by ::
  "('e, 'v, 'c) rego \<Rightarrow> codec \<Rightarrow> 'c regorus_pdp list \<Rightarrow> nat \<Rightarrow> opa_input \<Rightarrow> decision \<Rightarrow> bool" where
  "judged_by rg cd engines since input d \<longleftrightarrow>
     (\<exists>v. since \<le> v \<and> v < length engines \<and> regorus_decide rg cd (engines ! v) input = Inr d)"

definition entry_ok :: "('e, 'v, 'c) rego \<Rightarrow> codec \<Rightarrow> 'c pdp_world \<Rightarrow> string \<Rightarrow> decision \<Rightarrow> bool" where
  "entry_ok rg cd w key d \<longleftrightarrow>
     (\<exists>i \<in> asked w. \<exists>j < length (pw_advertised w).
        key = cache_key cd (pw_advertised w ! j) i \<and> judged_by rg cd (pw_engines w) j i d)"

definition answer_ok :: "('e, 'v, 'c) rego \<Rightarrow> codec \<Rightarrow> 'c pdp_world \<Rightarrow> cached_call \<Rightarrow> decision \<Rightarrow> bool" where
  "answer_ok rg cd w c d \<longleftrightarrow>
     (distinct (pw_advertised w) \<longrightarrow>
        (\<exists>i \<in> asked w. cache_question cd i = cache_question cd (cl_input c) \<and>
           judged_by rg cd (pw_engines w) (cl_since c) i d))"

definition stage_ok :: "('e, 'v, 'c) rego \<Rightarrow> codec \<Rightarrow> 'c pdp_world \<Rightarrow> cached_call \<Rightarrow> stage \<Rightarrow> bool" where
  "stage_ok rg cd w c st =
     (let own = cache_key cd (pw_advertised w ! cl_since c) (cl_input c)
      in case st of
           Direct \<Rightarrow> True
         | Looking key \<Rightarrow> key = own
         | Asking key \<Rightarrow> key = own
         | Inserting key d \<Rightarrow> key = own \<and> judged_by rg cd (pw_engines w) (cl_since c) (cl_input c) d
         | Answered r \<Rightarrow> (\<forall>d. r = Inr d \<longrightarrow> answer_ok rg cd w c d))"

definition call_ok :: "('e, 'v, 'c) rego \<Rightarrow> codec \<Rightarrow> 'c pdp_world \<Rightarrow> cached_call \<Rightarrow> bool" where
  "call_ok rg cd w c \<longleftrightarrow> cl_since c < length (pw_advertised w) \<and> stage_ok rg cd w c (cl_stage c)"

definition world_ok :: "('e, 'v, 'c) rego \<Rightarrow> codec \<Rightarrow> 'c pdp_world \<Rightarrow> bool" where
  "world_ok rg cd w \<longleftrightarrow>
     histories_ok rg cd w \<and> (\<forall>r \<in> set (pw_advertised w). unit_separator \<notin> set r) \<and>
     (\<forall>key d. pw_cache w key = Some d \<longrightarrow> entry_ok rg cd w key d) \<and>
     (\<forall>n c. pw_calls w n = Some c \<longrightarrow> call_ok rg cd w c)"

text \<open>What is documented of the digest: its text is hexadecimal.\<close>

definition hex_digest :: "codec \<Rightarrow> bool" where
  "hex_digest cd \<longleftrightarrow> (\<forall>x. unit_separator \<notin> set (cd_sha256_hex cd x))"

lemma cache_key_eq_iff:
  assumes "unit_separator \<notin> set r" and "unit_separator \<notin> set r'"
  shows "cache_key cd r i = cache_key cd r' i' \<longleftrightarrow> r = r' \<and> cache_question cd i = cache_question cd i'"
  using assms by (auto simp: cache_key_def append_eq_append_conv2 append_eq_Cons_conv Cons_eq_append_conv)

lemma judged_by_append: "judged_by rg cd es s i d \<Longrightarrow> judged_by rg cd (es @ es') s i d"
  unfolding judged_by_def by (metis nth_append trans_less_add1 length_append)

lemma judged_by_since: "judged_by rg cd es s i d \<Longrightarrow> s' \<le> s \<Longrightarrow> judged_by rg cd es s' i d"
  unfolding judged_by_def by (meson order_trans)

lemma judged_by_last: "es \<noteq> [] \<Longrightarrow> s < length es \<Longrightarrow> regorus_decide rg cd (last es) i = Inr d \<Longrightarrow> judged_by rg cd es s i d"
  unfolding judged_by_def by (intro exI [of _ "length es - 1"]) (auto simp: last_conv_nth)

lemma entry_ok_grows: "grows w w' \<Longrightarrow> entry_ok rg cd w key d \<Longrightarrow> entry_ok rg cd w' key d"
  unfolding grows_def entry_ok_def
  by (fastforce simp: nth_append intro: judged_by_append)

lemma call_ok_grows:
  assumes "grows w w'" and "call_ok rg cd w c"
  shows "call_ok rg cd w' c"
proof -
  have "answer_ok rg cd w c d \<Longrightarrow> answer_ok rg cd w' c d" for d
    using assms(1) unfolding answer_ok_def grows_def by (fastforce intro: judged_by_append)
  then show ?thesis
    using assms unfolding call_ok_def stage_ok_def grows_def
    by (auto simp: nth_append judged_by_append Let_def split: stage.splits)
qed

lemma asked_call: "pw_calls w n = Some c \<Longrightarrow> cl_input c \<in> asked w"
  by (auto simp: asked_def intro!: exI [of _ n])

lemma world_ok_frame:
  assumes "world_ok rg cd w" and "grows w w'" and "histories_ok rg cd w'"
    and "\<And>r. r \<in> set (pw_advertised w') \<Longrightarrow> r \<in> set (pw_advertised w) \<or> unit_separator \<notin> set r"
    and "\<And>key d. pw_cache w' key = Some d \<Longrightarrow> pw_cache w key = Some d \<or> entry_ok rg cd w' key d"
    and "\<And>n c. pw_calls w' n = Some c \<Longrightarrow> pw_calls w n = Some c \<or> call_ok rg cd w' c"
  shows "world_ok rg cd w'"
  using assms call_ok_grows [OF assms(2), of rg cd] entry_ok_grows [OF assms(2), of rg cd] unfolding world_ok_def by blast

lemma histories_ok_same:
  assumes "pw_advertised w' = pw_advertised w" and "pw_store w' = pw_store w" and "pw_engines w' = pw_engines w"
    and "pw_engine w' = pw_engine w" and "pw_round w' = pw_round w"
  shows "histories_ok rg cd w' = histories_ok rg cd w"
  unfolding histories_ok_def assms by (rule refl)

lemma step_begin_ok:
  assumes "world_ok rg cd w" and "pw_calls w n = None"
  shows "world_ok rg cd (step_begin cd n input w)"
proof (rule world_ok_frame [OF assms(1)])
  let ?w = "step_begin cd n input w"
  show "grows w ?w"
    using assms(2) by (auto simp: grows_def step_begin_def asked_def) (metis option.distinct(1))
  show "histories_ok rg cd ?w"
    using assms(1) by (subst histories_ok_same [of _ w]) (simp_all add: step_begin_def world_ok_def)
  have adv: "pw_advertised w \<noteq> []" "last (pw_advertised w) = store_revision (pw_store w)"
    using assms(1) by (simp_all add: world_ok_def histories_ok_def)
  show "pw_calls w m = Some c \<or> call_ok rg cd ?w c" if "pw_calls ?w m = Some c" for m c
    using that adv by (auto simp: step_begin_def call_ok_def stage_ok_def caching_begin_def last_conv_nth split: if_splits)
qed (simp_all add: step_begin_def)

lemma world_call:
  assumes "world_ok rg cd w" and "pw_calls w n = Some c"
  shows "cl_since c < length (pw_advertised w)" and "stage_ok rg cd w c (cl_stage c)"
  using assms unfolding world_ok_def call_ok_def by blast+

lemma set_stage_ok:
  assumes "world_ok rg cd w" and "pw_calls w n = Some c" and "stage_ok rg cd w c st"
    and "\<And>key d. cache key = Some d \<Longrightarrow> pw_cache w key = Some d \<or> entry_ok rg cd w key d"
  shows "world_ok rg cd (set_stage n st (w\<lparr>pw_cache := cache\<rparr>))"
proof (rule world_ok_frame [OF assms(1)])
  let ?w = "set_stage n st (w\<lparr>pw_cache := cache\<rparr>)"
  have asked: "asked ?w = asked w"
  proof -
    have "map_option cl_input (pw_calls ?w m) = map_option cl_input (pw_calls w m)" for m
      by (cases "pw_calls w m") (auto simp: set_stage_def)
    then show ?thesis by (simp only: asked_def)
  qed
  show grows: "grows w ?w" by (simp add: grows_def asked) (simp add: set_stage_def)
  show "histories_ok rg cd ?w"
    using assms(1) by (subst histories_ok_same [of _ w]) (simp_all add: set_stage_def world_ok_def)
  show "pw_cache w key = Some d \<or> entry_ok rg cd ?w key d" if "pw_cache ?w key = Some d" for key d
    using that assms(4) entry_ok_grows [OF grows, of rg cd] by (auto simp: set_stage_def)
  have "call_ok rg cd ?w (c\<lparr>cl_stage := st\<rparr>)"
  proof -
    have "call_ok rg cd w (c\<lparr>cl_stage := st\<rparr>)"
      using world_call [OF assms(1,2)] assms(3) by (auto simp: call_ok_def stage_ok_def answer_ok_def Let_def split: stage.splits)
    with grows show ?thesis by (rule call_ok_grows)
  qed
  then show "pw_calls w m = Some c' \<or> call_ok rg cd ?w c'" if "pw_calls ?w m = Some c'" for m c'
    using that assms(2) by (auto simp: set_stage_def split: if_splits)
qed (simp_all add: set_stage_def)

lemma look_ok:
  assumes "world_ok rg cd w" and "pw_calls w n = Some c" and "cl_stage c = Looking key"
  shows "stage_ok rg cd w c (caching_look (pw_cache w) key)"
proof (cases "pw_cache w key")
  case None
  then show ?thesis using world_call [OF assms(1,2)] assms(3) by (simp add: caching_look_def stage_ok_def)
next
  case (Some d)
  have call: "cl_since c < length (pw_advertised w)" "key = cache_key cd (pw_advertised w ! cl_since c) (cl_input c)"
    using world_call [OF assms(1,2)] assms(3) by (simp_all add: stage_ok_def)
  obtain i j where e: "i \<in> asked w" "j < length (pw_advertised w)" "key = cache_key cd (pw_advertised w ! j) i"
    "judged_by rg cd (pw_engines w) j i d"
    using assms(1) Some unfolding world_ok_def entry_ok_def by blast
  have "pw_advertised w ! j = pw_advertised w ! cl_since c \<and> cache_question cd i = cache_question cd (cl_input c)"
    using e(2,3) call assms(1) cache_key_eq_iff [of "pw_advertised w ! j" "pw_advertised w ! cl_since c" cd i "cl_input c"]
    by (simp add: world_ok_def)
  then have "answer_ok rg cd w c d"
    using e call(1) by (auto simp: answer_ok_def nth_eq_iff_index_eq)
  then show ?thesis by (simp add: caching_look_def Some stage_ok_def)
qed

lemma engine_verdict:
  assumes "world_ok rg cd w" and "pw_calls w n = Some c" and "regorus_decide rg cd (pw_engine w) (cl_input c) = Inr d"
  shows "judged_by rg cd (pw_engines w) (cl_since c) (cl_input c) d" and "answer_ok rg cd w c d"
proof -
  have "cl_since c < length (pw_engines w)" "pw_engines w \<noteq> []" "last (pw_engines w) = pw_engine w"
    using world_call(1) [OF assms(1,2)] assms(1) by (auto simp: world_ok_def histories_ok_def split: round.splits)
  then show j: "judged_by rg cd (pw_engines w) (cl_since c) (cl_input c) d"
    using assms(3) judged_by_last [of "pw_engines w"] by simp
  show "answer_ok rg cd w c d"
    using j asked_call [OF assms(2)] by (auto simp: answer_ok_def)
qed

lemma step_call_ok:
  assumes "world_ok rg cd w" and "pw_calls w n = Some c"
  shows "world_ok rg cd (step_call rg cd n c w)"
proof (cases "cl_stage c")
  case Direct
  have "stage_ok rg cd w c (Answered (regorus_decide rg cd (pw_engine w) (cl_input c)))"
    using engine_verdict [OF assms] by (simp add: stage_ok_def)
  from set_stage_ok [OF assms this, of "pw_cache w"] Direct show ?thesis by (simp add: step_call_def)
next
  case (Looking key)
  from set_stage_ok [OF assms look_ok [OF assms Looking], of "pw_cache w"] Looking show ?thesis by (simp add: step_call_def)
next
  case (Asking key)
  have "stage_ok rg cd w c (caching_ask key (regorus_decide rg cd (pw_engine w) (cl_input c)))"
    using engine_verdict [OF assms] world_call [OF assms] Asking
    by (auto simp: caching_ask_def stage_ok_def split: sum.splits)
  from set_stage_ok [OF assms this, of "pw_cache w"] Asking show ?thesis by (simp add: step_call_def)
next
  case (Inserting key d)
  have own: "key = cache_key cd (pw_advertised w ! cl_since c) (cl_input c)" "cl_since c < length (pw_advertised w)"
    and judged: "judged_by rg cd (pw_engines w) (cl_since c) (cl_input c) d"
    using world_call [OF assms] Inserting by (simp_all add: stage_ok_def)
  note asked = asked_call [OF assms(2)]
  have "stage_ok rg cd w c (Answered (Inr d))"
    using judged asked by (auto simp: stage_ok_def answer_ok_def)
  moreover have "entry_ok rg cd w key d" using own judged asked by (auto simp: entry_ok_def)
  ultimately have "world_ok rg cd (set_stage n (Answered (Inr d)) (w\<lparr>pw_cache := (pw_cache w)(key \<mapsto> d)\<rparr>))"
    by (intro set_stage_ok [OF assms]) (auto split: if_splits)
  then show ?thesis by (simp add: step_call_def caching_insert_def Inserting)
qed (use assms in \<open>simp add: step_call_def\<close>)

lemma step_evict_ok:
  assumes "world_ok rg cd w"
  shows "world_ok rg cd (step_evict keys w)"
proof (rule world_ok_frame [OF assms])
  show "histories_ok rg cd (step_evict keys w)"
    using assms by (subst histories_ok_same [of _ w]) (simp_all add: step_evict_def world_ok_def)
qed (auto simp: step_evict_def grows_def asked_def restrict_map_def split: if_splits)

lemma store_revision_advertised [simp]:
  "store_revision (store_bundle (bundle_new show rfc g revision data) b) = revision"
  by (simp add: store_revision_def store_bundle_def bundle_new_def)

lemma asked_same: "pw_calls w' = pw_calls w \<Longrightarrow> asked w' = asked w"
  by (simp add: asked_def)

lemma refresh_grows: "grows w (step_refresh rg cd fetched g now w)"
proof -
  have "asked (step_refresh rg cd fetched g now w) = asked w"
    by (rule asked_same) (simp add: step_refresh_def case_prod_unfold Let_def split: round.split)
  then show ?thesis
    by (simp add: grows_def) (auto simp: step_refresh_def case_prod_unfold Let_def split: round.split)
qed

lemma refresh_histories:
  assumes "histories_ok rg cd w"
  shows "histories_ok rg cd (step_refresh rg cd fetched g now w)"
proof (cases "pw_round w")
  case Fetching
  then show ?thesis
    using assms by (auto simp: histories_ok_def step_refresh_def refresh_fetched_def Let_def split: sum.splits)
next
  case (Reloading revision parsed)
  show ?thesis
  proof (cases "regorus_reload rg cd (pb_policy parsed) (pb_data parsed) (pw_engine w)")
    case (Inl e)
    then show ?thesis
      using assms Reloading by (simp add: histories_ok_def step_refresh_def refresh_reload_def)
  next
    case (Inr engine)
    have len: "length (pw_engines w) = length (pw_advertised w)" "pw_engines w ! (length (pw_advertised w) - 1) = pw_engine w"
      using assms Reloading by (auto simp: histories_ok_def last_conv_nth)
    moreover have "reloaded_from rg cd (pw_engine w) revision engine"
      using assms Reloading Inr by (auto simp: histories_ok_def reloaded_from_def)
    ultimately show ?thesis
      using assms Reloading Inr by (auto simp: histories_ok_def step_refresh_def refresh_reload_def nth_append)
  qed
next
  case (Advertising revision data)
  have "reloaded_from rg cd (pw_engines w ! v) revision (pw_engines w ! length (pw_advertised w))"
    if "Suc v = length (pw_advertised w)" for v
    using assms Advertising that [symmetric] by (auto simp: histories_ok_def last_conv_nth)
  then show ?thesis
    using assms Advertising
    by (auto simp: histories_ok_def step_refresh_def refresh_advertise_def nth_append less_Suc_eq)
next
  case (Finished r)
  then show ?thesis
    using assms by (simp add: histories_ok_def step_refresh_def)
qed

lemma step_refresh_ok:
  assumes "world_ok rg cd w" and "hex_digest cd"
  shows "world_ok rg cd (step_refresh rg cd fetched g now w)"
proof (rule world_ok_frame [OF assms(1) refresh_grows refresh_histories])
  show "histories_ok rg cd w" using assms(1) by (simp add: world_ok_def)
  show "r \<in> set (pw_advertised w) \<or> unit_separator \<notin> set r"
    if "r \<in> set (pw_advertised (step_refresh rg cd fetched g now w))" for r
    using that assms
    by (auto simp: step_refresh_def refresh_advertise_def refresh_reload_def world_ok_def histories_ok_def reloaded_from_def
        hex_digest_def content_revision_def split: round.splits sum.splits)
qed (auto simp: step_refresh_def case_prod_unfold Let_def split: round.splits)

lemma build_ok:
  assumes "build_embedded rg cd gateway_rego g remote raw = Inr w" and "hex_digest cd"
  shows "world_ok rg cd w"
  using assms
  by (auto simp: build_embedded_def on_ok_def map_err_def Let_def world_ok_def histories_ok_def hex_digest_def
      content_revision_def store_revision_def bundle_new_def split: sum.splits)

lemma reach_ok:
  assumes "pdp_reach rg cd w0 w" and "world_ok rg cd w0" and "hex_digest cd"
  shows "world_ok rg cd w"
  using assms(1)
proof (induction rule: pdp_reach.induct)
  case start
  then show ?case using assms(2) .
next
  case (step v u)
  then show ?case
    by (auto elim!: pdp_step.cases simp: step_begin_ok step_call_ok step_evict_ok step_refresh_ok [OF _ assms(3)])
qed

text \<open>C6: A revocation reaches cached verdicts. However the calls of the cached engine and the rounds of the refresh task
  interleave, and whatever the cache evicts, a verdict a call returns was computed, for that very question, by the engine
  in force when the call began or by a later one, never by an earlier one: engine number \<open>v\<close> is the one reloaded from the
  bundle whose revision was advertised \<open>v\<close>-th. This needs every advertised revision to be new, and no two questions of the
  run to share a digest.\<close>
theorem cached_verdict_never_predates_call:
  assumes "build_embedded rg cd gateway_rego g remote raw = Inr w0" and "hex_digest cd" and "pdp_reach rg cd w0 w"
    and "distinct (pw_advertised w)"
    and "\<And>i. i \<in> asked w \<Longrightarrow> cache_question cd i = cache_question cd (cl_input c) \<Longrightarrow> i = cl_input c"
    and "pw_calls w n = Some c" and "cl_stage c = Answered (Inr d)"
  shows "(\<exists>v. cl_since c \<le> v \<and> v < length (pw_engines w) \<and> regorus_decide rg cd (pw_engines w ! v) (cl_input c) = Inr d) \<and>
    (\<forall>v. Suc v < length (pw_advertised w) \<longrightarrow>
       reloaded_from rg cd (pw_engines w ! v) (pw_advertised w ! Suc v) (pw_engines w ! Suc v))"
proof -
  have ok: "world_ok rg cd w"
    using reach_ok [OF assms(3) build_ok [OF assms(1,2)] assms(2)] .
  then have "answer_ok rg cd w c d"
    using world_call [OF ok assms(6)] assms(7) by (simp add: stage_ok_def)
  then have "judged_by rg cd (pw_engines w) (cl_since c) (cl_input c) d"
    using assms(4,5) by (auto simp: answer_ok_def)
  then show ?thesis
    using ok by (simp add: judged_by_def world_ok_def histories_ok_def)
qed

text \<open>A small deployment: a policy is its own verdict, \<open>permit\<close> or not, and a bundle is named by one letter.\<close>

definition toy_rego :: "(string, string, string) rego" where
  "toy_rego = \<lparr>rg_new = [], rg_set_strict_builtin_errors = (\<lambda>_ e. e), rg_add_policy = (\<lambda>_ p _. Inr p),
     rg_from_json_str = Inr, rg_add_data = (\<lambda>_ e. Inr e), rg_compile_with_entrypoint = (\<lambda>_ e. Inr e),
     rg_eval_with_input = (\<lambda>c _. Inr c), rg_undefined = (\<lambda>v. v = []), rg_to_json_str = Inr\<rparr>"

definition toy_codec :: codec where
  "toy_codec = \<lparr>cd_show = (\<lambda>_. ''{}''),
     cd_read = (\<lambda>raw. Inr (JObj [(''policy'', JStr (if raw = ''B'' then ''permit'' else ''forbid'')), (''data'', JNull)])),
     cd_read_decision = (\<lambda>s. Inr (if s = ''permit'' then decision_allow ''granted'' else decision_deny ''no grant'')),
     cd_sha256_hex = filter (\<lambda>c. c \<noteq> unit_separator), cd_rfc3339 = (\<lambda>_. None)\<rparr>"

lemma toy_hex [simp]: "hex_digest toy_codec"
  by (simp add: hex_digest_def toy_codec_def)

text \<open>Two runs, one step at a time. In the first a call begins, the task reloads the engine with bundle \<open>b\<close>, the call asks
  that engine and inserts, and \<open>b\<close> is advertised. In the second the task loads and advertises \<open>a\<close>, and another call begins
  and looks.\<close>

definition overtaken_run ::
  "('e, 'v, 'c) rego \<Rightarrow> codec \<Rightarrow> string \<Rightarrow> opa_input \<Rightarrow> 'c pdp_world \<Rightarrow> 'c pdp_world" where
  "overtaken_run rg cd raw_b input w =
     (let refresh = step_refresh rg cd (Inr raw_b) 0 0;
          advance = (\<lambda>w. step_call rg cd 0 (the (pw_calls w 0)) w)
      in refresh (refresh (advance (advance (advance (refresh (refresh (step_begin cd 0 input w))))))))"

definition back_run ::
  "('e, 'v, 'c) rego \<Rightarrow> codec \<Rightarrow> string \<Rightarrow> opa_input \<Rightarrow> 'c pdp_world \<Rightarrow> 'c pdp_world" where
  "back_run rg cd raw_a input w =
     (let refresh = step_refresh rg cd (Inr raw_a) 0 0;
          w1 = step_begin cd 1 input (refresh (refresh (refresh (refresh w))))
      in step_call rg cd 1 (the (pw_calls w1 1)) w1)"

lemma reach_advance:
  "pdp_reach rg cd w0 w \<Longrightarrow> pw_calls w n \<noteq> None \<Longrightarrow> pdp_reach rg cd w0 (step_call rg cd n (the (pw_calls w n)) w)"
  by (auto intro: pdp_reach.step [OF _ pdp_step.advance_call])

lemma reach_refresh: "pdp_reach rg cd w0 w \<Longrightarrow> pdp_reach rg cd w0 (step_refresh rg cd fetched g now w)"
  by (erule pdp_reach.step) (rule pdp_step.refresh)

lemma reach_begin: "pdp_reach rg cd w0 w \<Longrightarrow> pw_calls w n = None \<Longrightarrow> pdp_reach rg cd w0 (step_begin cd n input w)"
  by (erule pdp_reach.step) (rule pdp_step.begin_call)

lemma calls_kept [simp]:
  "pw_calls (step_refresh rg cd fetched g now w) = pw_calls w"
  "pw_calls (step_call rg cd n c w) m = None \<longleftrightarrow> pw_calls w m = None"
  "pw_calls (step_begin cd n input w) m = None \<longleftrightarrow> m \<noteq> n \<and> pw_calls w m = None"
  by (auto simp: step_refresh_def step_call_def step_begin_def set_stage_def caching_insert_def case_prod_unfold Let_def
      split: round.splits stage.splits)

lemma overtaken_reach:
  assumes "pdp_reach rg cd w0 w" and "pw_calls w 0 = None"
  shows "pdp_reach rg cd w0 (overtaken_run rg cd raw_b input w)"
  unfolding overtaken_run_def Let_def by (intro reach_advance reach_refresh reach_begin) (simp_all add: assms)

lemma back_reach:
  assumes "pdp_reach rg cd w0 w" and "pw_calls w 1 = None"
  shows "pdp_reach rg cd w0 (back_run rg cd raw_a input w)"
  unfolding back_run_def Let_def by (intro reach_advance reach_refresh reach_begin) (use assms in simp_all)

lemmas step_defs =
  step_refresh_def step_begin_def step_call_def set_stage_def caching_begin_def caching_look_def caching_ask_def
  caching_insert_def refresh_fetched_def refresh_reload_def refresh_advertise_def

lemma build_shape:
  assumes "build_embedded rg cd gateway_rego g remote raw = Inr w" and "parse_bundle (cd_read cd) raw = Inr a"
  shows "pw_cache w = Map.empty" "pw_calls w = Map.empty" "pw_round w = Fetching"
    "pw_advertised w = [content_revision (cd_sha256_hex cd) raw]"
    "store_revision (pw_store w) = content_revision (cd_sha256_hex cd) raw"
  using assms
  by (auto simp: build_embedded_def on_ok_def map_err_def Let_def store_revision_def bundle_new_def split: sum.splits)

lemma overtaken_end:
  assumes "pw_cache w = Map.empty" "pw_calls w = Map.empty" "pw_round w = Fetching" "pw_advertised w = [r]"
    "store_revision (pw_store w) = r"
    and "parse_bundle (cd_read cd) raw_b = Inr b" "content_revision (cd_sha256_hex cd) raw_b \<noteq> r"
    and "regorus_reload rg cd (pb_policy b) (pb_data b) (pw_engine w) = Inr eb"
    and "\<not> has_on_demand_data input" and "regorus_decide rg cd eb input = Inr d"
  shows "pw_cache (overtaken_run rg cd raw_b input w) = [cache_key cd r input \<mapsto> d]"
    and "pw_calls (overtaken_run rg cd raw_b input w) = [0 \<mapsto> \<lparr>cl_input = input, cl_since = 0, cl_stage = Answered (Inr d)\<rparr>]"
    and "pw_round (overtaken_run rg cd raw_b input w) = Fetching"
    and "pw_advertised (overtaken_run rg cd raw_b input w) = [r, content_revision (cd_sha256_hex cd) raw_b]"
    and "store_revision (pw_store (overtaken_run rg cd raw_b input w)) = content_revision (cd_sha256_hex cd) raw_b"
    and "pw_engine (overtaken_run rg cd raw_b input w) = eb"
  using assms by (simp_all add: overtaken_run_def step_defs)

lemma back_end:
  assumes "pw_cache w = [cache_key cd r input \<mapsto> d]" "pw_calls w 1 = None" "pw_round w = Fetching" "pw_advertised w = [r, rb]"
    "store_revision (pw_store w) = rb"
    and "parse_bundle (cd_read cd) raw_a = Inr a" "content_revision (cd_sha256_hex cd) raw_a = r" "rb \<noteq> r"
    and "regorus_reload rg cd (pb_policy a) (pb_data a) (pw_engine w) = Inr ea"
    and "\<not> has_on_demand_data input"
  shows "pw_round (back_run rg cd raw_a input w) = Fetching"
    and "pw_engine (back_run rg cd raw_a input w) = ea"
    and "store_revision (pw_store (back_run rg cd raw_a input w)) = r"
    and "length (pw_advertised (back_run rg cd raw_a input w)) = 3"
    and "pw_calls (back_run rg cd raw_a input w) 1 = Some \<lparr>cl_input = input, cl_since = 2, cl_stage = Answered (Inr d)\<rparr>"
  using assms by (simp_all add: back_run_def step_defs)


definition toy_input :: opa_input where
  "toy_input = \<lparr>oi_principal = \<lparr>p_sub = ''alice'', p_kind = User, p_attributes = \<lparr>pa_groups = [], pa_extra = []\<rparr>\<rparr>,
     oi_backend = \<lparr>be_id = ''b1'', be_kind = S3\<rparr>, oi_tenant = ''acme'', oi_organization_id = ''org'', oi_action = Read,
     oi_bucket = ''data'', oi_object = None, oi_prefix = None, oi_copy_source = None, oi_delete_keys = None,
     oi_object_tags = None, oi_requested_tags = None, oi_acl_grants = [], oi_bypass_governance = False,
     oi_request = \<lparr>rm_method = ''GET'', rm_params = None, rm_headers_subset = []\<rparr>\<rparr>"

definition toy_engine :: "string \<Rightarrow> string regorus_pdp" where
  "toy_engine policy = \<lparr>rp_entrypoint = decision_rule, rp_policy = policy, rp_compiled = policy\<rparr>"

definition toy_world :: "string pdp_world" where
  "toy_world = projr (build_embedded toy_rego toy_codec [] 0 True ''A'')"

lemma toy_parse [simp]:
  "parse_bundle (cd_read toy_codec) raw = Inr \<lparr>pb_policy = Some (if raw = ''B'' then ''permit'' else ''forbid''), pb_data = JNull\<rparr>"
  by (simp add: parse_bundle_def toy_codec_def)

lemma toy_compile [simp]: "compile_policy toy_rego toy_codec policy data e = Inr policy"
  by (simp add: compile_policy_def toy_rego_def)

lemma toy_reload [simp]: "regorus_reload toy_rego toy_codec (Some policy) data (toy_engine before) = Inr (toy_engine policy)"
  by (simp add: regorus_reload_def toy_engine_def)

lemma toy_decide:
  "regorus_decide toy_rego toy_codec (toy_engine ''permit'') input = Inr (decision_allow ''granted'')"
  "regorus_decide toy_rego toy_codec (toy_engine ''forbid'') input = Inr (decision_deny ''no grant'')"
  by (simp_all add: regorus_decide_def Let_def toy_engine_def) (simp_all add: toy_rego_def toy_codec_def)

lemma toy_build: "build_embedded toy_rego toy_codec [] 0 True ''A'' = Inr toy_world" "pw_engine toy_world = toy_engine ''forbid''"
  by (simp_all add: toy_world_def build_embedded_def Let_def regorus_new_def toy_engine_def)

lemma toy_revisions [simp]:
  "content_revision (cd_sha256_hex toy_codec) ''A'' = ''A''" "content_revision (cd_sha256_hex toy_codec) ''B'' = ''B''"
  by (simp_all add: content_revision_def toy_codec_def unit_separator_def)

lemma toy_plain: "\<not> has_on_demand_data toy_input"
  by (simp add: has_on_demand_data_def toy_input_def)


text \<open>The same deployment, with a call that the reload overtakes.\<close>

definition toy_overtaken :: "string pdp_world" where
  "toy_overtaken = overtaken_run toy_rego toy_codec ''B'' toy_input toy_world"

lemma toy_overtaken_reach: "pdp_reach toy_rego toy_codec toy_world toy_overtaken"
  unfolding toy_overtaken_def
  by (intro overtaken_reach pdp_reach.start) (simp add: build_shape [OF toy_build(1) toy_parse])

lemma toy_overtaken_end:
  "pw_calls toy_overtaken = [0 \<mapsto> \<lparr>cl_input = toy_input, cl_since = 0, cl_stage = Answered (Inr (decision_allow ''granted''))\<rparr>]"
  "pw_advertised toy_overtaken = [''A'', ''B'']"
  using overtaken_end [OF build_shape [OF toy_build(1) toy_parse] toy_parse _ _ toy_plain toy_decide(1)]
  by (simp_all add: toy_overtaken_def toy_build)

theorem cached_verdict_never_predates_call_witness:
  "\<exists>v < length (pw_engines toy_overtaken).
     regorus_decide toy_rego toy_codec (pw_engines toy_overtaken ! v) toy_input = Inr (decision_allow ''granted'')"
proof -
  have one: "i = toy_input" if "i \<in> asked toy_overtaken" for i
    using that by (auto simp: asked_def toy_overtaken_end split: if_splits)
  have "pw_calls toy_overtaken 0 = Some \<lparr>cl_input = toy_input, cl_since = 0, cl_stage = Answered (Inr (decision_allow ''granted''))\<rparr>"
    by (simp add: toy_overtaken_end)
  from cached_verdict_never_predates_call [OF toy_build(1) toy_hex toy_overtaken_reach _ _ this] one toy_overtaken_end(2)
  show ?thesis by auto
qed

end
