(* ===== verification/S0_Cors.thy ===== *)
theory S0_Cors
  imports S0_Forward
begin

text \<open>
  CORS, \<open>src/src/cors\<close>: the rules of a bucket and the first one that matches (\<open>rules.rs\<close>), the cache of
  configurations read from the backend (\<open>lookup.rs\<close>), the counters (\<open>mod.rs\<close>), and the front that answers a
  preflight and decorates the responses to browser requests (\<open>front.rs\<close>). The S3 service behind the
  front, the path parser of \<open>s3s\<close>, the backend's \<open>GetBucketCors\<close> and the cache library are parameters:
  of the cache only that an entry is not served once its time to live is over, and that it may
  vanish earlier. Time is in seconds.
\<close>

section \<open>Rules\<close>

datatype allow_origin = Any | Origin string

fun as_header_value :: "allow_origin \<Rightarrow> string" where
  "as_header_value Any = ''*''"
| "as_header_value (Origin origin) = origin"

record grant =
  gr_allow_origin :: allow_origin
  gr_expose_headers :: "string list"

record preflight_grant =
  pg_grant :: grant
  pg_allow_methods :: "string list"
  pg_allow_headers :: "string list"
  pg_max_age_seconds :: "u32 option"

text \<open>\<open>CORSRule\<close> of \<open>s3s\<close>, as far as it is read.\<close>

record cors_rule_dto =
  cd_allowed_headers :: "string list option"
  cd_allowed_methods :: "string list"
  cd_allowed_origins :: "string list"
  cd_expose_headers :: "string list option"
  cd_max_age_seconds :: "int option"

record cors_rule =
  cr_allowed_origins :: "string list"
  cr_allowed_methods :: "string list"
  cr_allowed_headers :: "string list"
  cr_expose_headers :: "string list"
  cr_max_age_seconds :: "u32 option"

definition u32_try_from :: "int \<Rightarrow> u32 option" where
  "u32_try_from n = (if 0 \<le> n \<and> n < 2 ^ 32 then Some (word_of_int n) else None)"

definition rule_from_dto :: "cors_rule_dto \<Rightarrow> cors_rule" where
  "rule_from_dto rule =
     \<lparr>cr_allowed_origins = cd_allowed_origins rule, cr_allowed_methods = cd_allowed_methods rule,
      cr_allowed_headers = map to_ascii_lowercase (case cd_allowed_headers rule of Some hs \<Rightarrow> hs | None \<Rightarrow> []),
      cr_expose_headers = (case cd_expose_headers rule of Some hs \<Rightarrow> hs | None \<Rightarrow> []),
      cr_max_age_seconds = Option.bind (cd_max_age_seconds rule) u32_try_from\<rparr>"

fun glob_middle :: "string list \<Rightarrow> string \<Rightarrow> string option" where
  "glob_middle [] rest = Some rest"
| "glob_middle (segment # middle) rest =
     (case after_first segment rest of Some rest' \<Rightarrow> glob_middle middle rest' | None \<Rightarrow> None)"

definition glob :: "string \<Rightarrow> string \<Rightarrow> bool" where
  "glob pattern str =
     (case split_on CHR ''*'' pattern of
        [] \<Rightarrow> False
      | first # others \<Rightarrow>
          if others = [] then pattern = str
          else case strip_prefix str first of
            None \<Rightarrow> False
          | Some rest \<Rightarrow>
              (case glob_middle (butlast others) rest of
                 None \<Rightarrow> False
               | Some rest \<Rightarrow> ends_with rest (List.last others)))"

definition allows_origin :: "cors_rule \<Rightarrow> string \<Rightarrow> bool" where
  "allows_origin r origin = list_ex (\<lambda>p. glob p origin) (cr_allowed_origins r)"

definition allows_method :: "cors_rule \<Rightarrow> string \<Rightarrow> bool" where
  "allows_method r meth = list_ex (\<lambda>m. m = meth) (cr_allowed_methods r)"

definition allows_header :: "cors_rule \<Rightarrow> string \<Rightarrow> bool" where
  "allows_header r header = list_ex (\<lambda>p. glob p header) (cr_allowed_headers r)"

definition rule_allow_origin :: "cors_rule \<Rightarrow> string \<Rightarrow> allow_origin" where
  "rule_allow_origin r origin = (if list_ex (\<lambda>p. p = ''*'') (cr_allowed_origins r) then Any else Origin origin)"

definition rule_grant :: "cors_rule \<Rightarrow> string \<Rightarrow> grant" where
  "rule_grant r origin = \<lparr>gr_allow_origin = rule_allow_origin r origin, gr_expose_headers = cr_expose_headers r\<rparr>"

type_synonym cors_config = "cors_rule list"

definition from_rules :: "cors_rule_dto list \<Rightarrow> cors_config" where
  "from_rules rules = map rule_from_dto rules"

definition preflight_rule_matches :: "cors_rule \<Rightarrow> string \<Rightarrow> string \<Rightarrow> string list \<Rightarrow> bool" where
  "preflight_rule_matches r origin meth request_headers \<longleftrightarrow>
     allows_origin r origin \<and> allows_method r meth \<and> list_all (allows_header r) request_headers"

definition config_preflight :: "cors_config \<Rightarrow> string \<Rightarrow> string \<Rightarrow> string list \<Rightarrow> preflight_grant option" where
  "config_preflight config origin meth request_headers =
     map_option (\<lambda>r. \<lparr>pg_grant = rule_grant r origin, pg_allow_methods = cr_allowed_methods r,
                      pg_allow_headers = request_headers, pg_max_age_seconds = cr_max_age_seconds r\<rparr>)
       (find (\<lambda>r. preflight_rule_matches r origin meth request_headers) config)"

definition config_actual :: "cors_config \<Rightarrow> string \<Rightarrow> string \<Rightarrow> grant option" where
  "config_actual config origin meth =
     map_option (\<lambda>r. rule_grant r origin) (find (\<lambda>r. allows_origin r origin \<and> allows_method r meth) config)"

definition parse_request_headers :: "string \<Rightarrow> string list" where
  "parse_request_headers v =
     filter (\<lambda>h. h \<noteq> []) (map (\<lambda>h. to_ascii_lowercase (trim h)) (split_on CHR '','' v))"

section \<open>Counters\<close>

datatype denial =
  Malformed | NoCredential | IdentityRejected | TenantNotRoutable | InvalidBucket | NoConfiguration | LookupFailed | NotAllowed

fun denial_reason :: "denial \<Rightarrow> string" where
  "denial_reason Malformed = ''malformed''"
| "denial_reason NoCredential = ''no_credential''"
| "denial_reason IdentityRejected = ''identity_rejected''"
| "denial_reason TenantNotRoutable = ''tenant_not_routable''"
| "denial_reason InvalidBucket = ''invalid_bucket''"
| "denial_reason NoConfiguration = ''no_configuration''"
| "denial_reason LookupFailed = ''lookup_failed''"
| "denial_reason NotAllowed = ''not_allowed''"

record cors_metrics =
  cm_preflight_allowed :: u64
  cm_preflight_denied :: "denial \<Rightarrow> u64"
  cm_responses_decorated :: u64
  cm_backend_lookups :: u64
  cm_backend_lookup_failures :: u64

definition record_preflight_allowed :: "cors_metrics \<Rightarrow> cors_metrics" where
  "record_preflight_allowed m = m\<lparr>cm_preflight_allowed := cm_preflight_allowed m + 1\<rparr>"

definition record_preflight_denied :: "denial \<Rightarrow> cors_metrics \<Rightarrow> cors_metrics" where
  "record_preflight_denied d m = m\<lparr>cm_preflight_denied := (cm_preflight_denied m)(d := cm_preflight_denied m d + 1)\<rparr>"

definition record_response_decorated :: "cors_metrics \<Rightarrow> cors_metrics" where
  "record_response_decorated m = m\<lparr>cm_responses_decorated := cm_responses_decorated m + 1\<rparr>"

definition record_backend_lookup :: "cors_metrics \<Rightarrow> cors_metrics" where
  "record_backend_lookup m = m\<lparr>cm_backend_lookups := cm_backend_lookups m + 1\<rparr>"

definition record_backend_lookup_failure :: "cors_metrics \<Rightarrow> cors_metrics" where
  "record_backend_lookup_failure m = m\<lparr>cm_backend_lookup_failures := cm_backend_lookup_failures m + 1\<rparr>"

definition denial_all :: "denial list" where
  "denial_all =
     [Malformed, NoCredential, IdentityRejected, TenantNotRoutable, InvalidBucket, NoConfiguration, LookupFailed, NotAllowed]"

definition preflight_denied_total :: "cors_metrics \<Rightarrow> u64" where
  "preflight_denied_total m = sum_list (map (cm_preflight_denied m) denial_all)"

section \<open>The configuration cache\<close>

datatype cors_lookup = Rules cors_config | Absent | Unavailable

record lookup_expiry =
  le_config_ttl :: nat
  le_unavailable_ttl :: nat

definition lookup_ttl :: "lookup_expiry \<Rightarrow> cors_lookup \<Rightarrow> nat" where
  "lookup_ttl e v = (case v of Unavailable \<Rightarrow> le_unavailable_ttl e | _ \<Rightarrow> le_config_ttl e)"

definition production_expiry :: lookup_expiry where
  "production_expiry = \<lparr>le_config_ttl = 60, le_unavailable_ttl = 5\<rparr>"

text \<open>A backend read ends in time with a response or an error, or it does not.\<close>

datatype cors_reply = Replied "s3_error + cors_rule_dto list option" | TimedOut

type_synonym cors_key = "string \<times> string \<times> string"

text \<open>The cache holds a value with the time it was stored. The reads made so far, with the client used,
  are a history that nothing reads.\<close>

record cors_world =
  cw_registry :: backend_registry
  cw_cache :: "cors_key \<rightharpoonup> cors_lookup \<times> nat"
  cw_metrics :: cors_metrics
  cw_reads :: "(cors_key \<times> s3_client option \<times> cors_lookup \<times> nat) list"

record cors_env =
  ce_crypto :: crypto
  ce_identity :: identity
  ce_expiry :: lookup_expiry
  ce_parse_bucket :: "string \<Rightarrow> string option"
  ce_get_bucket_cors :: "s3_client \<Rightarrow> string \<Rightarrow> cors_reply"

definition counting :: "(cors_metrics \<Rightarrow> cors_metrics) \<Rightarrow> cors_world \<Rightarrow> cors_world" where
  "counting f w = w\<lparr>cw_metrics := f (cw_metrics w)\<rparr>"

definition cors_reply_lookup :: "cors_reply \<Rightarrow> cors_lookup \<times> bool" where
  "cors_reply_lookup reply =
     (case reply of
        Replied (Inr rules) \<Rightarrow>
          let config = from_rules (case rules of Some rs \<Rightarrow> rs | None \<Rightarrow> [])
          in if config = [] then (Absent, False) else (Rules config, False)
      | Replied (Inl e) \<Rightarrow>
          if se_code e = Known ''NoSuchCORSConfiguration'' \<or> se_code e = Known ''NotImplemented'' then (Absent, False)
          else if se_code e = Known ''NoSuchBucket'' then (Unavailable, False)
          else (Unavailable, True)
      | TimedOut \<Rightarrow> (Unavailable, True))"

definition read_backend :: "cors_env \<Rightarrow> route_snapshot \<Rightarrow> string \<Rightarrow> cors_world \<Rightarrow> s3_client option \<times> cors_lookup \<times> cors_world" where
  "read_backend env route bucket w =
     (let w = counting record_backend_lookup w;
          (reg, proxy) = proxy_for route (cw_registry w);
          w = w\<lparr>cw_registry := reg\<rparr>
      in case proxy of
           Inl e \<Rightarrow> (None, Unavailable, counting record_backend_lookup_failure w)
         | Inr client \<Rightarrow>
             let (v, failed) = cors_reply_lookup (ce_get_bucket_cors env client bucket)
             in (Some client, v, if failed then counting record_backend_lookup_failure w else w))"

definition cache_get :: "lookup_expiry \<Rightarrow> nat \<Rightarrow> cors_key \<Rightarrow> cors_world \<Rightarrow> cors_lookup option" where
  "cache_get expiry now key w =
     (case cw_cache w key of
        Some (v, stored) \<Rightarrow> if now < stored + lookup_ttl expiry v then Some v else None
      | None \<Rightarrow> None)"

text \<open>A read that misses is stored when it ends, \<open>took\<close> seconds later.\<close>

definition cors_lookup_for ::
  "cors_env \<Rightarrow> nat \<Rightarrow> nat \<Rightarrow> route_snapshot \<Rightarrow> string \<Rightarrow> cors_world \<Rightarrow> cors_lookup \<times> cors_world" where
  "cors_lookup_for env now took route bucket w =
     (let key = (rs_backend_id route, rs_tenant route, bucket)
      in case cache_get (ce_expiry env) now key w of
           Some v \<Rightarrow> (v, w)
         | None \<Rightarrow>
             let (client, v, w1) = read_backend env route bucket w
             in (v, w1\<lparr>cw_cache := (cw_cache w1)(key \<mapsto> (v, now + took)),
                        cw_reads := cw_reads w1 @ [(key, client, v, now + took)]\<rparr>))"

section \<open>The front\<close>

record cors_request =
  rq_method :: string
  rq_path :: string
  rq_query :: "string option"
  rq_headers :: header_map

record cors_response =
  rp_status :: nat
  rp_headers :: header_map
  rp_body :: string

definition max_origin_len :: nat where
  "max_origin_len = 2048"

definition max_method_len :: nat where
  "max_method_len = 32"

definition max_access_key_len :: nat where
  "max_access_key_len = 512"

definition forbidden_body :: string where
  "forbidden_body = ''<?xml version='' @ [CHR 0x22] @ ''1.0'' @ [CHR 0x22] @ '' encoding='' @ [CHR 0x22] @ ''UTF-8'' @ [CHR 0x22] @
     ''?><Error><Code>AccessForbidden</Code><Message>CORSResponse: This CORS request is not allowed. This is usually because '' @
     ''the evaluation of Origin, request method / Access-Control-Request-Method or Access-Control-Request-Headers are not '' @
     ''whitelisted by the resource'' @ [CHR 0x27] @ ''s CORS spec.</Message></Error>''"

record cors_credential =
  cc_access_key :: string
  cc_session_token :: "string option"

record probe =
  pr_origin :: string
  pr_method :: string
  pr_credential :: "cors_credential option"
  pr_bucket :: "string option"

definition origin_of :: "header_map \<Rightarrow> string option" where
  "origin_of headers =
     (case get_all headers ''origin'' of
        [] \<Rightarrow> None
      | first # others \<Rightarrow>
          (case to_str first of
             None \<Rightarrow> None
           | Some origin \<Rightarrow> if others \<noteq> [] \<or> length origin > max_origin_len then None else Some origin))"

definition request_method_of :: "header_map \<Rightarrow> string option" where
  "request_method_of headers =
     (case get_all headers ''access-control-request-method'' of
        [] \<Rightarrow> None
      | first # others \<Rightarrow>
          (case to_str first of
             None \<Rightarrow> None
           | Some v \<Rightarrow>
               let meth = trim v
               in if others \<noteq> [] \<or> meth = [] \<or> length meth > max_method_len then None else Some meth))"

fun requested_headers_loop :: "string list \<Rightarrow> string list \<Rightarrow> string list option" where
  "requested_headers_loop requested [] = Some requested"
| "requested_headers_loop requested (v # vs) =
     (case to_str v of
        None \<Rightarrow> None
      | Some s \<Rightarrow> requested_headers_loop (requested @ parse_request_headers s) vs)"

definition requested_headers_of :: "header_map \<Rightarrow> string list option" where
  "requested_headers_of headers = requested_headers_loop [] (get_all headers ''access-control-request-headers'')"

definition access_key_from_scope :: "string \<Rightarrow> string option" where
  "access_key_from_scope scope =
     (let access_key = hd (split_on CHR ''/'' scope)
      in if access_key = [] \<or> length access_key > max_access_key_len then None else Some access_key)"

definition access_key_from_authorization :: "string \<Rightarrow> string option" where
  "access_key_from_authorization authorization =
     (case strip_prefix (trim_start authorization) ''AWS4-HMAC-SHA256'' of
        None \<Rightarrow> None
      | Some params \<Rightarrow>
          Option.bind (find_query_param ''Credential='' (map trim (split_on CHR '','' (trim_start params)))) access_key_from_scope)"

definition access_key_from_query :: "string \<Rightarrow> string option" where
  "access_key_from_query query =
     Option.bind (find_query_param ''X-Amz-Credential='' (split_on CHR ''&'' query)) (\<lambda>v. access_key_from_scope (percent_decode v))"

definition credential_of :: "header_map \<Rightarrow> string option \<Rightarrow> cors_credential option" where
  "credential_of headers query =
     (let access_key =
            (case get_header headers ''authorization'' of
               Some v \<Rightarrow> Option.bind (to_str v) access_key_from_authorization
             | None \<Rightarrow> Option.bind query access_key_from_query)
      in map_option (\<lambda>k. \<lparr>cc_access_key = k, cc_session_token = session_token headers query\<rparr>) access_key)"

definition bucket_of :: "cors_env \<Rightarrow> string \<Rightarrow> string option" where
  "bucket_of env path = ce_parse_bucket env (percent_decode path)"

definition probe_of :: "cors_env \<Rightarrow> cors_request \<Rightarrow> probe option" where
  "probe_of env req =
     map_option (\<lambda>origin. \<lparr>pr_origin = origin, pr_method = rq_method req, pr_credential = credential_of (rq_headers req) (rq_query req),
                           pr_bucket = bucket_of env (rq_path req)\<rparr>)
       (origin_of (rq_headers req))"

definition header_append :: "string \<Rightarrow> string \<Rightarrow> header_map \<Rightarrow> header_map" where
  "header_append name v hs = hs @ [(name, v)]"

definition insert_text :: "string \<Rightarrow> string \<Rightarrow> header_map \<Rightarrow> header_map" where
  "insert_text name v hs = (if header_value_ok v then header_insert name v hs else hs)"

definition insert_list :: "string \<Rightarrow> string list \<Rightarrow> header_map \<Rightarrow> header_map" where
  "insert_list name vs hs =
     (let usable = filter header_value_ok vs
      in if usable \<noteq> [] then insert_text name (join '', '' usable) hs else hs)"

definition forbidden :: cors_response where
  "forbidden =
     \<lparr>rp_status = 403,
      rp_headers = header_insert ''content-length'' (nat_digits (length forbidden_body))
        (header_insert ''content-type'' ''application/xml'' []),
      rp_body = forbidden_body\<rparr>"

definition allowed_preflight :: "preflight_grant \<Rightarrow> cors_response" where
  "allowed_preflight g =
     (let hs = header_insert ''content-length'' ''0'' [];
          hs = insert_text ''access-control-allow-origin'' (as_header_value (gr_allow_origin (pg_grant g))) hs;
          hs = insert_list ''access-control-allow-methods'' (pg_allow_methods g) hs;
          hs = insert_list ''access-control-allow-headers'' (pg_allow_headers g) hs;
          hs = insert_list ''access-control-expose-headers'' (gr_expose_headers (pg_grant g)) hs;
          hs = (case pg_max_age_seconds g of
                  Some seconds \<Rightarrow> header_insert ''access-control-max-age'' (nat_digits (unat seconds)) hs
                | None \<Rightarrow> hs);
          hs = fold (header_append ''vary'') [''Origin'', ''Access-Control-Request-Method'', ''Access-Control-Request-Headers''] hs
      in \<lparr>rp_status = 200, rp_headers = hs, rp_body = []\<rparr>)"

definition apply_grant :: "grant \<Rightarrow> header_map \<Rightarrow> header_map" where
  "apply_grant g hs =
     (let hs = insert_text ''access-control-allow-origin'' (as_header_value (gr_allow_origin g)) hs;
          hs = insert_list ''access-control-expose-headers'' (gr_expose_headers g) hs
      in header_append ''vary'' ''Origin'' hs)"

definition route_for :: "cors_env \<Rightarrow> nat \<Rightarrow> backend_registry \<Rightarrow> cors_credential \<Rightarrow> denial + route_snapshot" where
  "route_for env now reg c =
     (case identity_resolve (ce_crypto env) (ce_identity env) now (cc_access_key c) (cc_session_token c) of
        Inl e \<Rightarrow> Inl IdentityRejected
      | Inr p \<Rightarrow> (case route_snapshot_for reg (rp_tenant p) of None \<Rightarrow> Inl TenantNotRoutable | Some route \<Rightarrow> Inr route))"

definition evaluate_preflight ::
  "cors_env \<Rightarrow> nat \<Rightarrow> nat \<Rightarrow> cors_request \<Rightarrow> cors_world \<Rightarrow> (denial + preflight_grant) \<times> cors_world" where
  "evaluate_preflight env now took req w =
     (case origin_of (rq_headers req) of None \<Rightarrow> (Inl Malformed, w) | Some origin \<Rightarrow>
      case request_method_of (rq_headers req) of None \<Rightarrow> (Inl Malformed, w) | Some meth \<Rightarrow>
      case requested_headers_of (rq_headers req) of None \<Rightarrow> (Inl Malformed, w) | Some requested \<Rightarrow>
      case credential_of (rq_headers req) (rq_query req) of None \<Rightarrow> (Inl NoCredential, w) | Some credential \<Rightarrow>
      case bucket_of env (rq_path req) of None \<Rightarrow> (Inl InvalidBucket, w) | Some bucket \<Rightarrow>
      case route_for env now (cw_registry w) credential of Inl d \<Rightarrow> (Inl d, w) | Inr route \<Rightarrow>
      case cors_lookup_for env now took route bucket w of
        (Rules config, w1) \<Rightarrow>
          (case config_preflight config origin meth requested of Some g \<Rightarrow> (Inr g, w1) | None \<Rightarrow> (Inl NotAllowed, w1))
      | (Absent, w1) \<Rightarrow> (Inl NoConfiguration, w1)
      | (Unavailable, w1) \<Rightarrow> (Inl LookupFailed, w1))"

definition front_preflight :: "cors_env \<Rightarrow> nat \<Rightarrow> nat \<Rightarrow> cors_request \<Rightarrow> cors_world \<Rightarrow> cors_response \<times> cors_world" where
  "front_preflight env now took req w =
     (case evaluate_preflight env now took req w of
        (Inr g, w1) \<Rightarrow> (allowed_preflight g, counting record_preflight_allowed w1)
      | (Inl d, w1) \<Rightarrow> (forbidden, counting (record_preflight_denied d) w1))"

definition grant_for :: "cors_env \<Rightarrow> nat \<Rightarrow> nat \<Rightarrow> probe \<Rightarrow> cors_world \<Rightarrow> grant option \<times> cors_world" where
  "grant_for env now took p w =
     (case pr_credential p of None \<Rightarrow> (None, w) | Some credential \<Rightarrow>
      case pr_bucket p of None \<Rightarrow> (None, w) | Some bucket \<Rightarrow>
      case route_for env now (cw_registry w) credential of Inl d \<Rightarrow> (None, w) | Inr route \<Rightarrow>
      case cors_lookup_for env now took route bucket w of
        (Rules config, w1) \<Rightarrow> (config_actual config (pr_origin p) (pr_method p), w1)
      | (_, w1) \<Rightarrow> (None, w1))"

definition decorate :: "cors_env \<Rightarrow> nat \<Rightarrow> nat \<Rightarrow> probe \<Rightarrow> cors_response \<Rightarrow> cors_world \<Rightarrow> cors_response \<times> cors_world" where
  "decorate env now took p resp w =
     (case grant_for env now took p w of
        (None, w1) \<Rightarrow> (resp, w1)
      | (Some g, w1) \<Rightarrow> (resp\<lparr>rp_headers := apply_grant g (rp_headers resp)\<rparr>, counting record_response_decorated w1))"

text \<open>The service behind the front takes a request and may change the shared state. Decorating its
  answer happens at a later time than the request came.\<close>

type_synonym 'e inner_service = "cors_request \<Rightarrow> cors_world \<Rightarrow> ('e + cors_response) \<times> cors_world"

definition cors_handle ::
  "cors_env \<Rightarrow> 'e inner_service \<Rightarrow> nat \<Rightarrow> nat \<Rightarrow> cors_request \<Rightarrow> cors_world \<Rightarrow> ('e + cors_response) \<times> cors_world" where
  "cors_handle env inner now took req w =
     (if rq_method req = ''OPTIONS'' then (case front_preflight env now took req w of (resp, w1) \<Rightarrow> (Inr resp, w1))
      else case probe_of env req of
        None \<Rightarrow> inner req w
      | Some p \<Rightarrow>
          (case inner req w of
             (Inl e, w1) \<Rightarrow> (Inl e, w1)
           | (Inr resp, w1) \<Rightarrow> (case decorate env now took p resp w1 of (resp', w2) \<Rightarrow> (Inr resp', w2))))"

section \<open>Matching\<close>

text \<open>What a pattern means: \<open>*\<close> stands for any run of characters, every other character for itself.\<close>

inductive wildcard :: "string \<Rightarrow> string \<Rightarrow> bool" where
  wildcard_end: "wildcard [] []"
| wildcard_char: "c \<noteq> CHR ''*'' \<Longrightarrow> wildcard p s \<Longrightarrow> wildcard (c # p) (c # s)"
| wildcard_star: "wildcard p s \<Longrightarrow> wildcard (CHR ''*'' # p) (run @ s)"

inductive_simps wildcard_Nil [simp]: "wildcard [] s"
inductive_simps wildcard_Cons: "wildcard (c # p) s"

lemma wildcard_literal:
  "CHR ''*'' \<notin> set lit \<Longrightarrow> wildcard (lit @ p) s \<longleftrightarrow> (\<exists>r. s = lit @ r \<and> wildcard p r)"
  by (induction lit arbitrary: s) (auto simp: wildcard_Cons)

lemma wildcard_star_iff: "wildcard (CHR ''*'' # p) s \<longleftrightarrow> (\<exists>run r. s = run @ r \<and> wildcard p r)"
  by (auto simp: wildcard_Cons)

text \<open>The pieces between the wildcards, each somewhere after the one before it, the last at the end.\<close>

fun floats :: "string list \<Rightarrow> string \<Rightarrow> bool" where
  "floats [] s \<longleftrightarrow> s = []"
| "floats [seg] s \<longleftrightarrow> ends_with s seg"
| "floats (seg # next # segs) s \<longleftrightarrow> (\<exists>run r. s = run @ seg @ r \<and> floats (next # segs) r)"

lemma floats_longer: "segs \<noteq> [] \<Longrightarrow> floats segs s \<Longrightarrow> floats segs (run @ s)"
proof (induction segs s rule: floats.induct)
  case (2 seg s)
  then show ?case by (auto simp: ends_with_def suffix_def)
next
  case (3 seg nxt segs s)
  then obtain run' r where "s = run' @ seg @ r" "floats (nxt # segs) r" by auto
  then have "run @ s = (run @ run') @ seg @ r \<and> floats (nxt # segs) r" by simp
  then show ?case unfolding floats.simps by blast
qed simp

lemma floats_wildcard:
  "segs \<noteq> [] \<Longrightarrow> \<forall>seg \<in> set segs. CHR ''*'' \<notin> set seg \<Longrightarrow> floats segs s \<longleftrightarrow> wildcard (CHR ''*'' # join ''*'' segs) s"
proof (induction segs s rule: floats.induct)
  case (2 seg s)
  then show ?case
    using wildcard_literal [of seg "[]"] by (auto simp: wildcard_star_iff ends_with_def suffix_def)
next
  case (3 seg nxt segs s)
  then show ?case by (simp add: wildcard_star_iff [of "seg @ _"] wildcard_literal) blast
qed simp

lemma glob_middle_floats:
  "floats (middle @ [final]) s \<longleftrightarrow> (\<exists>r. glob_middle middle s = Some r \<and> ends_with r final)"
proof (induction middle arbitrary: s)
  case Nil
  then show ?case by simp
next
  case (Cons seg middle)
  let ?rest = "middle @ [final]"
  have step: "floats ((seg # middle) @ [final]) s \<longleftrightarrow> (\<exists>run r. s = run @ seg @ r \<and> floats ?rest r)"
    by (cases ?rest) auto
  also have "\<dots> \<longleftrightarrow> (\<exists>r. after_first seg s = Some r \<and> floats ?rest r)"
    using after_first_earliest [of s _ seg] after_first_Some [of seg s] floats_longer [of ?rest] by fastforce
  finally show ?case by (auto simp: Cons.IH split: option.splits)
qed

lemma glob_iff_wildcard: "glob pattern s \<longleftrightarrow> wildcard pattern s"
proof -
  obtain first others where segs: "split_on CHR ''*'' pattern = first # others"
    by (cases "split_on CHR ''*'' pattern") auto
  have pattern: "pattern = join ''*'' (first # others)" using join_split_on [of "CHR ''*''" pattern] segs by simp
  have plain: "CHR ''*'' \<notin> set first" "\<forall>seg \<in> set others. CHR ''*'' \<notin> set seg"
    using split_on_parts [of _ "CHR ''*''" pattern] segs by auto
  show ?thesis
  proof (cases "others = []")
    case True
    then show ?thesis using segs pattern wildcard_literal [OF plain(1), of "[]" s] by (auto simp: glob_def)
  next
    case False
    have "wildcard pattern s \<longleftrightarrow> (\<exists>r. s = first @ r \<and> floats others r)"
      using wildcard_literal [OF plain(1), of "''*'' @ join ''*'' others" s] floats_wildcard [OF False plain(2)]
      by (simp add: pattern join_Cons [OF False])
    also have "\<dots> \<longleftrightarrow> glob pattern s"
      using False glob_middle_floats [of "butlast others" "List.last others"]
      by (auto simp: glob_def segs strip_prefix_Some split: option.splits)
    finally show ?thesis by simp
  qed
qed

section \<open>The first rule that matches\<close>

text \<open>When a rule, as the bucket's owner wrote it, allows a preflight.\<close>

definition rule_allows :: "cors_rule_dto \<Rightarrow> string \<Rightarrow> string \<Rightarrow> string list \<Rightarrow> bool" where
  "rule_allows r origin meth headers \<longleftrightarrow>
     (\<exists>p \<in> set (cd_allowed_origins r). wildcard p origin) \<and> meth \<in> set (cd_allowed_methods r) \<and>
     (\<forall>h \<in> set headers. \<exists>ps p. cd_allowed_headers r = Some ps \<and> p \<in> set ps \<and> wildcard (to_ascii_lowercase p) h)"

lemma rule_matches_iff: "preflight_rule_matches (rule_from_dto r) origin meth headers \<longleftrightarrow> rule_allows r origin meth headers"
  by (cases "cd_allowed_headers r")
    (auto simp: preflight_rule_matches_def rule_allows_def allows_origin_def allows_method_def allows_header_def rule_from_dto_def
      glob_iff_wildcard list_ex_iff list_all_iff)

lemma find_first_iff:
  "find P xs = Some x \<longleftrightarrow> (\<exists>k < length xs. P (xs ! k) \<and> x = xs ! k \<and> (\<forall>j < k. \<not> P (xs ! j)))"
  by (auto simp: find_Some_iff)

text \<open>C20: A preflight is granted by the first rule that allows it. For every bucket configuration, origin, method and list of
  requested headers, the evaluation grants exactly when some rule allows the origin, the method and every header, with \<open>*\<close> in
  a pattern standing for any run of characters, and what it grants is the first such rule's: its methods, its exposed headers,
  its age if it is not negative, the requested headers, and \<open>*\<close> or the origin itself. The matcher never backtracks, and loses
  nothing by it.\<close>
theorem preflight_first_match:
  "config_preflight (from_rules rules) origin meth headers = Some g \<longleftrightarrow>
   (\<exists>k < length rules. rule_allows (rules ! k) origin meth headers \<and> (\<forall>j < k. \<not> rule_allows (rules ! j) origin meth headers) \<and>
      g = \<lparr>pg_grant = \<lparr>gr_allow_origin = (if ''*'' \<in> set (cd_allowed_origins (rules ! k)) then Any else Origin origin),
                       gr_expose_headers = (case cd_expose_headers (rules ! k) of Some hs \<Rightarrow> hs | None \<Rightarrow> [])\<rparr>,
            pg_allow_methods = cd_allowed_methods (rules ! k), pg_allow_headers = headers,
            pg_max_age_seconds = Option.bind (cd_max_age_seconds (rules ! k)) u32_try_from\<rparr>)"
proof -
  have grant: "rule_grant (rule_from_dto r) origin =
      \<lparr>gr_allow_origin = (if ''*'' \<in> set (cd_allowed_origins r) then Any else Origin origin),
       gr_expose_headers = (case cd_expose_headers r of Some hs \<Rightarrow> hs | None \<Rightarrow> [])\<rparr>"
    "cr_allowed_methods (rule_from_dto r) = cd_allowed_methods r"
    "cr_max_age_seconds (rule_from_dto r) = Option.bind (cd_max_age_seconds r) u32_try_from" for r
    by (auto simp: rule_grant_def rule_allow_origin_def rule_from_dto_def list_ex_iff)
  show ?thesis
    unfolding config_preflight_def from_rules_def map_option_eq_Some find_first_iff length_map
    by (auto simp: rule_matches_iff grant cong: conj_cong)
qed

definition demo_rules :: "cors_rule_dto list" where
  "demo_rules =
     [\<lparr>cd_allowed_headers = None, cd_allowed_methods = [''GET''], cd_allowed_origins = [''*''], cd_expose_headers = None,
       cd_max_age_seconds = None\<rparr>,
      \<lparr>cd_allowed_headers = Some [''X-Amz-*''], cd_allowed_methods = [''PUT''], cd_allowed_origins = [''https://*.example.com''],
       cd_expose_headers = Some [''ETag''], cd_max_age_seconds = Some 600\<rparr>]"

theorem preflight_first_match_witness:
  "\<exists>k < length demo_rules.
     rule_allows (demo_rules ! k) ''https://app.example.com'' ''PUT'' [''x-amz-date''] \<and>
     \<not> rule_allows (demo_rules ! 0) ''https://app.example.com'' ''PUT'' [''x-amz-date'']"
proof -
  have "config_preflight (from_rules demo_rules) ''https://app.example.com'' ''PUT'' [''x-amz-date''] \<noteq> None"
    "\<not> preflight_rule_matches (rule_from_dto (demo_rules ! 0)) ''https://app.example.com'' ''PUT'' [''x-amz-date'']"
    by code_simp+
  then show ?thesis
    using preflight_first_match [of demo_rules "''https://app.example.com''" "''PUT''" "[''x-amz-date'']"]
    by (auto simp: rule_matches_iff)
qed

section \<open>Headers\<close>

definition headers_ok :: "header_map \<Rightarrow> bool" where
  "headers_ok hs \<longleftrightarrow> list_all (\<lambda>(n, v). header_value_ok v) hs"

named_theorems headers_kept \<open>operations that keep a header map well formed\<close>

lemma headers_ok_insert [headers_kept]: "headers_ok hs \<Longrightarrow> header_value_ok v \<Longrightarrow> headers_ok (header_insert n v hs)"
  by (auto simp: headers_ok_def header_insert_def header_remove_def list_all_iff)

lemma headers_ok_append [headers_kept]: "headers_ok hs \<Longrightarrow> header_value_ok v \<Longrightarrow> headers_ok (header_append n v hs)"
  by (simp add: headers_ok_def header_append_def)

lemma headers_ok_text [headers_kept]: "headers_ok hs \<Longrightarrow> headers_ok (insert_text n v hs)"
  by (simp add: insert_text_def headers_ok_insert)

lemma headers_ok_list [headers_kept]: "headers_ok hs \<Longrightarrow> headers_ok (insert_list n vs hs)"
  by (simp add: insert_list_def Let_def headers_ok_text)

lemma nat_digits_ok: "header_value_ok (nat_digits n)"
  using nat_digits_are_digits [of n] by (fastforce simp: header_value_ok_def list_all_iff is_digit_def Let_def)

lemma headers_ok_Nil [headers_kept]: "headers_ok []"
  by (simp add: headers_ok_def)

lemma literal_ok:
  "header_value_ok ''0''" "header_value_ok ''application/xml''" "header_value_ok ''Origin''"
  "header_value_ok ''Access-Control-Request-Method''" "header_value_ok ''Access-Control-Request-Headers''"
  by (simp_all add: header_value_ok_def)

lemma allowed_preflight_headers: "headers_ok (rp_headers (allowed_preflight g))"
  by (simp add: allowed_preflight_def Let_def headers_kept literal_ok nat_digits_ok split: option.split)

lemma forbidden_headers: "headers_ok (rp_headers forbidden)"
  by (simp add: forbidden_def headers_kept literal_ok nat_digits_ok)

lemma apply_grant_headers: "headers_ok hs \<Longrightarrow> headers_ok (apply_grant g hs)"
  by (simp add: apply_grant_def Let_def headers_kept literal_ok)

lemma decorate_cases:
  obtains g w1 where "decorate env now took p resp w = (resp\<lparr>rp_headers := apply_grant g (rp_headers resp)\<rparr>, w1)"
      "\<exists>w2. grant_for env now took p w = (Some g, w2)"
  | w1 where "decorate env now took p resp w = (resp, w1)"
  by (cases "grant_for env now took p w"; cases "fst (grant_for env now took p w)") (auto simp: decorate_def)

lemma preflight_cases:
  obtains g w1 where "evaluate_preflight env now took req w = (Inr g, w1)"
      "front_preflight env now took req w = (allowed_preflight g, counting record_preflight_allowed w1)"
  | d w1 where "evaluate_preflight env now took req w = (Inl d, w1)"
      "front_preflight env now took req w = (forbidden, counting (record_preflight_denied d) w1)"
  by (cases "evaluate_preflight env now took req w"; cases "fst (evaluate_preflight env now took req w)")
    (auto simp: front_preflight_def)

text \<open>C21: No bucket configuration can malform a response. Whatever rules a bucket's owner wrote and whatever a request sends,
  every header value of an answer to a preflight is one the protocol can carry, and decorating an answer keeps that of it: an
  entry with a line break or another control character is left out.\<close>
theorem cors_headers_well_formed:
  assumes "\<And>w0 resp w1. inner req w0 = (Inr resp, w1) \<Longrightarrow> headers_ok (rp_headers resp)"
    and "cors_handle env inner now took req w = (Inr resp, w')"
  shows "headers_ok (rp_headers resp)"
proof (cases "rq_method req = ''OPTIONS''")
  case True
  then show ?thesis
    using assms(2) allowed_preflight_headers forbidden_headers
    by (cases rule: preflight_cases [of env now took req w]) (auto simp: cors_handle_def)
next
  case False
  show ?thesis
  proof (cases "probe_of env req")
    case None
    then show ?thesis using assms False by (simp add: cors_handle_def)
  next
    case (Some p)
    then obtain resp1 w1 where inner: "inner req w = (Inr resp1, w1)" "fst (decorate env now took p resp1 w1) = resp"
      using assms(2) False by (auto simp: cors_handle_def split: prod.splits sum.splits)
    then show ?thesis
      using assms(1) [OF inner(1)] apply_grant_headers by (cases rule: decorate_cases [of env now took p resp1 w1]) auto
  qed
qed

section \<open>What the front may say\<close>

text \<open>The headers the front may add.\<close>

definition cors_names :: "string list" where
  "cors_names = [''access-control-allow-origin'', ''access-control-expose-headers'', ''vary'']"

definition other_headers :: "header_map \<Rightarrow> header_map" where
  "other_headers hs = filter (\<lambda>(n, v). n \<notin> set cors_names) hs"

lemma other_headers_insert: "n \<in> set cors_names \<Longrightarrow> other_headers (header_insert n v hs) = other_headers hs"
  by (auto simp: other_headers_def header_insert_def header_remove_def case_prod_unfold intro!: filter_cong)

lemma other_headers_apply: "other_headers (apply_grant g hs) = other_headers hs"
proof -
  have "other_headers (insert_text n v hs) = other_headers hs" if "n \<in> set cors_names" for n v hs
    using that by (simp add: insert_text_def other_headers_insert)
  then have "other_headers (insert_list n vs hs) = other_headers hs" if "n \<in> set cors_names" for n vs hs
    using that by (simp add: insert_list_def Let_def)
  then show ?thesis
    using \<open>\<And>n v hs. n \<in> set cors_names \<Longrightarrow> other_headers (insert_text n v hs) = other_headers hs\<close>
    by (simp add: apply_grant_def Let_def header_append_def other_headers_def cors_names_def)
qed

text \<open>The rules of the bucket, as looked up for the tenant the credential resolves to.\<close>

definition rules_for :: "cors_env \<Rightarrow> nat \<Rightarrow> nat \<Rightarrow> cors_request \<Rightarrow> cors_world \<Rightarrow> cors_config \<Rightarrow> bool" where
  "rules_for env now took req w config \<longleftrightarrow>
     (\<exists>c p route bucket. credential_of (rq_headers req) (rq_query req) = Some c \<and>
        identity_resolve (ce_crypto env) (ce_identity env) now (cc_access_key c) (cc_session_token c) = Inr p \<and>
        route_snapshot_for (cw_registry w) (rp_tenant p) = Some route \<and> bucket_of env (rq_path req) = Some bucket \<and>
        fst (cors_lookup_for env now took route bucket w) = Rules config)"

lemma evaluate_preflight_grant:
  assumes "evaluate_preflight env now took req w = (Inr g, w1)"
  shows "\<exists>config origin meth requested. rules_for env now took req w config \<and> origin_of (rq_headers req) = Some origin \<and>
    request_method_of (rq_headers req) = Some meth \<and> requested_headers_of (rq_headers req) = Some requested \<and>
    config_preflight config origin meth requested = Some g"
  using assms unfolding evaluate_preflight_def rules_for_def route_for_def
  by (auto split: option.splits sum.splits prod.splits cors_lookup.splits)

lemma grant_for_grant:
  assumes "probe_of env req = Some p" and "grant_for env now took p w = (Some g, w1)"
  shows "\<exists>config origin. rules_for env now took req w config \<and> origin_of (rq_headers req) = Some origin \<and>
    config_actual config origin (rq_method req) = Some g"
  using assms unfolding grant_for_def rules_for_def route_for_def probe_of_def
  by (auto split: option.splits sum.splits prod.splits cors_lookup.splits)

text \<open>The request reached the service once, and its answer came back with at most CORS headers added, by a rule of the bucket.\<close>

definition passed_through ::
  "cors_env \<Rightarrow> 'e inner_service \<Rightarrow> nat \<Rightarrow> nat \<Rightarrow> cors_request \<Rightarrow> cors_world \<Rightarrow> 'e + cors_response \<Rightarrow> bool" where
  "passed_through env inner now took req w r \<longleftrightarrow>
     (\<exists>r1 w1. inner req w = (r1, w1) \<and>
        (r = r1 \<or>
         (\<exists>resp config origin g. r1 = Inr resp \<and> r = Inr (resp\<lparr>rp_headers := apply_grant g (rp_headers resp)\<rparr>) \<and>
            rules_for env now took req w1 config \<and> origin_of (rq_headers req) = Some origin \<and>
            config_actual config origin (rq_method req) = Some g \<and>
            other_headers (apply_grant g (rp_headers resp)) = other_headers (rp_headers resp))))"

text \<open>What an answer to a preflight rests on.\<close>

definition preflight_answer :: "cors_env \<Rightarrow> nat \<Rightarrow> nat \<Rightarrow> cors_request \<Rightarrow> cors_world \<Rightarrow> 'e + cors_response \<Rightarrow> bool" where
  "preflight_answer env now took req w r \<longleftrightarrow>
     r = Inr forbidden \<or>
     (\<exists>config origin meth requested g. r = Inr (allowed_preflight g) \<and>
        rules_for env now took req w config \<and> origin_of (rq_headers req) = Some origin \<and>
        request_method_of (rq_headers req) = Some meth \<and> requested_headers_of (rq_headers req) = Some requested \<and>
        config_preflight config origin meth requested = Some g)"

lemma options_answered:
  assumes "rq_method req = ''OPTIONS''"
  shows "preflight_answer env now took req w (fst (cors_handle env inner now took req w))"
proof (cases rule: preflight_cases [of env now took req w])
  case (1 g w1)
  then show ?thesis
    using evaluate_preflight_grant [OF 1(1)] assms by (simp add: cors_handle_def preflight_answer_def) blast
next
  case (2 d w1)
  then show ?thesis using assms by (simp add: cors_handle_def preflight_answer_def)
qed

lemma decorated_passes:
  assumes "rq_method req \<noteq> ''OPTIONS''" and "probe_of env req = Some p" and "inner req w = (Inr resp, w1)"
  shows "passed_through env inner now took req w (fst (cors_handle env inner now took req w))"
proof (cases rule: decorate_cases [of env now took p resp w1])
  case (1 g w2)
  then obtain config origin where
    "rules_for env now took req w1 config" "origin_of (rq_headers req) = Some origin"
    "config_actual config origin (rq_method req) = Some g"
    using grant_for_grant [OF assms(2)] by blast
  with 1 assms show ?thesis
    unfolding passed_through_def by (auto simp: cors_handle_def other_headers_apply intro!: exI [of _ g])
next
  case (2 w2)
  then show ?thesis using assms by (simp add: cors_handle_def passed_through_def)
qed

text \<open>C18: The CORS front widens nothing but what a browser may read. An \<open>OPTIONS\<close> request is answered without the S3 service:
  the answer, the same whatever the service would do, is one and the same refusal, or what a rule of the bucket grants, read
  for the tenant that the credential in the request resolves to. Any other request reaches the service unchanged, and its
  answer is passed on, an error as it is and a response with its status, its body and all its other headers as they are; CORS
  headers are added only when a rule of the bucket allows the request's origin and method.\<close>
theorem cors_front_transparent:
  "(rq_method req = ''OPTIONS'' \<longrightarrow>
      preflight_answer env now took req w (fst (cors_handle env inner now took req w)) \<and>
      (\<forall>inner'. cors_handle env inner' now took req w = cors_handle env inner now took req w)) \<and>
   (rq_method req \<noteq> ''OPTIONS'' \<longrightarrow> passed_through env inner now took req w (fst (cors_handle env inner now took req w)))"
proof (intro conjI impI allI)
  fix inner'
  assume "rq_method req = ''OPTIONS''"
  then show "cors_handle env inner' now took req w = cors_handle env inner now took req w" by (simp add: cors_handle_def)
next
  assume other: "rq_method req \<noteq> ''OPTIONS''"
  obtain r1 w1 where inner: "inner req w = (r1, w1)" by (cases "inner req w")
  show "passed_through env inner now took req w (fst (cors_handle env inner now took req w))"
  proof (cases "probe_of env req")
    case None
    then show ?thesis using other inner by (simp add: cors_handle_def passed_through_def)
  next
    case (Some p)
    show ?thesis
    proof (cases r1)
      case (Inl e)
      then show ?thesis using other inner Some by (simp add: cors_handle_def passed_through_def)
    next
      case (Inr resp)
      then show ?thesis using decorated_passes [OF other Some] inner by simp
    qed
  qed
qed (simp add: options_answered)

section \<open>The cache over time\<close>

text \<open>Requests look up, the configuration of the gateway is replaced, entries vanish.\<close>

inductive cors_reach :: "cors_env \<Rightarrow> cors_world \<Rightarrow> cors_world \<Rightarrow> bool" for env w0 where
  cors_start: "cors_reach env w0 w0"
| cors_looked: "cors_reach env w0 w \<Longrightarrow> cors_lookup_for env now took route bucket w = (v, w') \<Longrightarrow> cors_reach env w0 w'"
| cors_reconfigured: "cors_reach env w0 w \<Longrightarrow> cors_reach env w0 (w\<lparr>cw_registry := reg\<rparr>)"
| cors_evicted: "cors_reach env w0 w \<Longrightarrow> cors_reach env w0 (w\<lparr>cw_cache := cw_cache w |` keys\<rparr>)"

text \<open>A read was made with a client of that tenant on that backend, and rules are what that backend answered.\<close>

definition read_ok :: "cors_env \<Rightarrow> cors_key \<times> s3_client option \<times> cors_lookup \<times> nat \<Rightarrow> bool" where
  "read_ok env r \<longleftrightarrow>
     (case r of ((backend, tenant, bucket), client, v, t) \<Rightarrow>
        (client = None \<longrightarrow> v = Unavailable) \<and>
        (\<forall>c. client = Some c \<longrightarrow>
           (\<exists>route reg. rs_backend_id route = backend \<and> rs_tenant route = tenant \<and> snd (proxy_for route reg) = Inr c) \<and>
           v = fst (cors_reply_lookup (ce_get_bucket_cors env c bucket))))"

definition cors_world_ok :: "cors_env \<Rightarrow> cors_world \<Rightarrow> bool" where
  "cors_world_ok env w \<longleftrightarrow>
     list_all (read_ok env) (cw_reads w) \<and>
     (\<forall>key v t. cw_cache w key = Some (v, t) \<longrightarrow> (\<exists>client. (key, client, v, t) \<in> set (cw_reads w)))"

lemma read_backend_ok:
  assumes "read_backend env route bucket w = (client, v, w')"
  shows "read_ok env ((rs_backend_id route, rs_tenant route, bucket), client, v, t)"
    and "cw_cache w' = cw_cache w" and "cw_reads w' = cw_reads w"
proof -
  obtain reg p where p: "proxy_for route (cw_registry w) = (reg, p)" by (cases "proxy_for route (cw_registry w)")
  have own: "\<exists>route'. rs_backend_id route' = rs_backend_id route \<and> rs_tenant route' = rs_tenant route \<and>
      (\<exists>reg. snd (proxy_for route' reg) = Inr c)" if "p = Inr c" for c
    using p that by (intro exI [of _ route] conjI exI [of _ "cw_registry w"]) simp_all
  then show "read_ok env ((rs_backend_id route, rs_tenant route, bucket), client, v, t)"
    "cw_cache w' = cw_cache w" "cw_reads w' = cw_reads w"
    using assms p by (auto simp: read_backend_def read_ok_def counting_def Let_def split: sum.splits prod.splits if_splits)
qed

lemma lookup_keeps:
  assumes "cors_lookup_for env now took route bucket w = (v, w')" and "cors_world_ok env w"
  shows "cors_world_ok env w'"
    and "\<exists>client t. ((rs_backend_id route, rs_tenant route, bucket), client, v, t) \<in> set (cw_reads w') \<and>
      now \<le> t + lookup_ttl (ce_expiry env) v"
proof -
  let ?key = "(rs_backend_id route, rs_tenant route, bucket)"
  have "cors_world_ok env w' \<and> (\<exists>client t. (?key, client, v, t) \<in> set (cw_reads w') \<and> now \<le> t + lookup_ttl (ce_expiry env) v)"
  proof (cases "cache_get (ce_expiry env) now ?key w")
    case (Some u)
    then show ?thesis
      using assms by (fastforce simp: cors_lookup_for_def cache_get_def cors_world_ok_def split: option.splits if_splits)
  next
    case None
    obtain client u w1 where r: "read_backend env route bucket w = (client, u, w1)" by (metis prod_cases3)
    then show ?thesis
      using assms None read_backend_ok [OF r]
      by (auto simp: cors_lookup_for_def cors_world_ok_def Let_def split: if_splits)
        (rule exI [of _ client], rule exI [of _ "now + took"], simp)
  qed
  then show "cors_world_ok env w'"
    "\<exists>client t. (?key, client, v, t) \<in> set (cw_reads w') \<and> now \<le> t + lookup_ttl (ce_expiry env) v"
    by blast+
qed

lemma cors_reach_ok:
  assumes "cors_reach env w0 w" and "cors_world_ok env w0"
  shows "cors_world_ok env w"
  using assms
proof (induction rule: cors_reach.induct)
  case (cors_evicted w keys)
  then show ?case by (auto simp: cors_world_ok_def restrict_map_def split: if_splits)
next
  case (cors_looked w now took route bucket v w')
  then show ?case using lookup_keeps(1) by blast
qed (simp_all add: cors_world_ok_def)


subsection \<open>A small deployment\<close>

definition demo_cors_env :: cors_env where
  "demo_cors_env = \<lparr>ce_crypto = demo_crypto, ce_identity = demo_static_identity, ce_expiry = production_expiry,
     ce_parse_bucket = (\<lambda>path. if path = ''/b/k'' then Some ''b'' else None),
     ce_get_bucket_cors = (\<lambda>client bucket. Replied (Inr (Some demo_rules)))\<rparr>"

definition demo_cors_world :: cors_world where
  "demo_cors_world = \<lparr>cw_registry = demo_registry ''s1'', cw_cache = Map.empty,
     cw_metrics = \<lparr>cm_preflight_allowed = 0, cm_preflight_denied = (\<lambda>_. 0), cm_responses_decorated = 0, cm_backend_lookups = 0,
                   cm_backend_lookup_failures = 0\<rparr>,
     cw_reads = []\<rparr>"

definition demo_browser_request :: "string \<Rightarrow> cors_request" where
  "demo_browser_request meth =
     \<lparr>rq_method = meth, rq_path = ''/b/k'', rq_query = None,
      rq_headers = [(''origin'', ''https://app.example.com''),
        (''authorization'', ''AWS4-HMAC-SHA256 Credential=EXT1/20261012/us-east-1/s3/aws4_request'')]\<rparr>"

definition demo_inner :: "unit inner_service" where
  "demo_inner req w = (Inr \<lparr>rp_status = 200, rp_headers = [(''etag'', ''e'')], rp_body = ''x''\<rparr>, w)"

lemma demo_lookup:
  "fst (cors_lookup_for demo_cors_env 5 1 demo_snapshot ''b'' demo_cors_world) = Rules (from_rules demo_rules)"
proof -
  have "snd (proxy_for demo_snapshot (demo_registry ''s1'')) \<noteq> Inl e" for e
    by (simp add: proxy_for_def proxy_route_def demo_registry_def demo_snapshot_def demo_backend_def case_prod_unfold)
  then show ?thesis
    by (auto simp: cors_lookup_for_def cache_get_def demo_cors_world_def read_backend_def counting_def demo_cors_env_def
        cors_reply_lookup_def Let_def case_prod_unfold from_rules_def demo_rules_def split: sum.splits)
qed


theorem cors_headers_well_formed_witness:
  "headers_ok (rp_headers (projr (fst (cors_handle demo_cors_env demo_inner 5 1 (demo_browser_request ''GET'') demo_cors_world))))"
proof -
  let ?h = "cors_handle demo_cors_env demo_inner 5 1 (demo_browser_request ''GET'') demo_cors_world"
  have "fst ?h \<noteq> Inl u" for u
    by (simp add: cors_handle_def demo_inner_def demo_browser_request_def case_prod_unfold split: option.split)
  then obtain resp where "?h = (Inr resp, snd ?h)" by (metis prod.collapse sum.exhaust)
  moreover have "headers_ok (rp_headers resp)" if "demo_inner req w0 = (Inr resp, w1)" for req w0 resp w1
    using that by (auto simp: demo_inner_def headers_ok_def header_value_ok_def)
  ultimately show ?thesis
    using cors_headers_well_formed [of demo_inner "demo_browser_request ''GET''" demo_cors_env 5 1 demo_cors_world]
    by (metis fst_conv sum.sel(2))
qed

theorem cors_front_transparent_witness:
  "rq_method (demo_browser_request ''OPTIONS'') = ''OPTIONS'' \<and>
   preflight_answer demo_cors_env 5 1 (demo_browser_request ''OPTIONS'') demo_cors_world
     (fst (cors_handle demo_cors_env demo_inner 5 1 (demo_browser_request ''OPTIONS'') demo_cors_world)) \<and>
   passed_through demo_cors_env demo_inner 5 1 (demo_browser_request ''GET'') demo_cors_world
     (fst (cors_handle demo_cors_env demo_inner 5 1 (demo_browser_request ''GET'') demo_cors_world))"
  using cors_front_transparent [of "demo_browser_request ''OPTIONS''" demo_cors_env 5 1 demo_cors_world demo_inner]
    cors_front_transparent [of "demo_browser_request ''GET''" demo_cors_env 5 1 demo_cors_world demo_inner]
  by (simp add: demo_browser_request_def)

text \<open>A derived key longer than 512 characters, which the mint hands out up to 1024, names no credential to the front.\<close>

lemma long_key_names_no_credential:
  assumes "CHR ''/'' \<notin> set akid" and "length akid > 512"
  shows "access_key_from_scope (akid @ CHR ''/'' # scope) = None"
  using assms by (simp add: access_key_from_scope_def split_on_append_sep max_access_key_len_def)

end
