(* ===== verification/S0_WebIdentity.thy ===== *)
theory S0_WebIdentity
  imports S0_Registry
begin

text \<open>
  \<open>AssumeRoleWithWebIdentity\<close>, \<open>src/src/webidentity.rs\<close>: the form decoder, the request parameters, the role
  ARN, the principal a token's claims describe, the decision whether the token is addressed to this
  gateway, the mint, and the XML documents of the answer. The verification of a token (\<open>jsonwebtoken\<close>)
  and the printing of a date (\<open>chrono\<close>) are parameters; what the code only logs is left out.
\<close>

section \<open>Refusals\<close>

datatype sts_refusal =
    Validation string
  | InvalidAction string
  | InvalidIdentityToken string
  | ExpiredToken
  | IdpRejectedClaim string
  | AccessDenied
  | Internal string

definition sts_refusal_status :: "sts_refusal \<Rightarrow> nat" where
  "sts_refusal_status r =
     (case r of AccessDenied \<Rightarrow> 403 | IdpRejectedClaim _ \<Rightarrow> 403 | Internal _ \<Rightarrow> 500 | _ \<Rightarrow> 400)"

fun sts_refusal_code :: "sts_refusal \<Rightarrow> string" where
  "sts_refusal_code (Validation _) = ''ValidationError''"
| "sts_refusal_code (InvalidAction _) = ''InvalidAction''"
| "sts_refusal_code (InvalidIdentityToken _) = ''InvalidIdentityToken''"
| "sts_refusal_code ExpiredToken = ''ExpiredTokenException''"
| "sts_refusal_code (IdpRejectedClaim _) = ''IDPRejectedClaim''"
| "sts_refusal_code AccessDenied = ''AccessDenied''"
| "sts_refusal_code (Internal _) = ''InternalFailure''"

definition sts_refusal_error_type :: "sts_refusal \<Rightarrow> string" where
  "sts_refusal_error_type r = (case r of Internal _ \<Rightarrow> ''Receiver'' | _ \<Rightarrow> ''Sender'')"

definition assume_role_action :: string where
  "assume_role_action = ''AssumeRoleWithWebIdentity''"

fun sts_refusal_message :: "sts_refusal \<Rightarrow> string" where
  "sts_refusal_message (Validation why) = why"
| "sts_refusal_message (InvalidAction action) =
     ''Action '' @ debug_str action @ '' is not supported by this endpoint; this gateway implements '' @ assume_role_action @ '' only''"
| "sts_refusal_message (InvalidIdentityToken why) = ''The web identity token could not be validated: '' @ why"
| "sts_refusal_message ExpiredToken = ''The web identity token has expired''"
| "sts_refusal_message (IdpRejectedClaim why) =
     ''The web identity token'' @ [CHR 0x27] @ ''s claims were rejected: '' @ why"
| "sts_refusal_message AccessDenied = ''Not authorized to perform sts:AssumeRoleWithWebIdentity for the requested role''"
| "sts_refusal_message (Internal _) = ''The request could not be completed''"

section \<open>Parameters\<close>

type_synonym params = "(string \<times> string) list"

fun form_decode_bytes :: "string \<Rightarrow> string" where
  "form_decode_bytes [] = []"
| "form_decode_bytes (a # s) =
     (if a = CHR ''+'' then CHR '' '' # form_decode_bytes s
      else if a = CHR ''%'' then
        (case s of
           b # c # t \<Rightarrow>
             (case (hex_val b, hex_val c) of
                (Some hi, Some lo) \<Rightarrow> char_of (16 * hi + lo) # form_decode_bytes t
              | _ \<Rightarrow> a # form_decode_bytes s)
         | _ \<Rightarrow> a # form_decode_bytes s)
      else a # form_decode_bytes s)"

definition form_decode :: "string \<Rightarrow> string" where
  "form_decode input = from_utf8_lossy (form_decode_bytes input)"

definition params_parse :: "string \<Rightarrow> params" where
  "params_parse raw =
     map (\<lambda>pair. case split_once CHR ''='' pair of
                   Some (k, v) \<Rightarrow> (form_decode k, form_decode v)
                 | None \<Rightarrow> (form_decode pair, form_decode []))
       (filter (\<lambda>pair. pair \<noteq> []) (split_on CHR ''&'' raw))"

definition params_get :: "params \<Rightarrow> string \<Rightarrow> string option" where
  "params_get ps name = map_option snd (find (\<lambda>(k, _). k = name) ps)"

record assume_role_request =
  aq_role_arn :: string
  aq_role_session_name :: string
  aq_web_identity_token :: string
  aq_duration_seconds :: "u64 option"

definition required_param :: "params \<Rightarrow> string \<Rightarrow> sts_refusal + string" where
  "required_param ps name =
     (case params_get ps name of
        Some v \<Rightarrow> if trim v \<noteq> [] then Inr v else Inl (Validation (name @ '' is required and must be non-empty''))
      | None \<Rightarrow> Inl (Validation (name @ '' is required and must be non-empty'')))"

text \<open>The characters allowed are ASCII, so a name that passes has as many characters as bytes.\<close>

definition validate_role_session_name :: "string \<Rightarrow> sts_refusal + unit" where
  "validate_role_session_name name =
     (if 2 \<le> length name \<and> length name \<le> 64 \<and>
         list_all (\<lambda>c. is_alphanumeric c \<or> c \<in> set ''_+=,.@-'') name
      then Inr ()
      else Inl (Validation ''RoleSessionName must be 2-64 characters from [A-Za-z0-9_+=,.@-]''))"

definition duration_param :: "params \<Rightarrow> sts_refusal + u64 option" where
  "duration_param ps =
     (case params_get ps ''DurationSeconds'' of
        None \<Rightarrow> Inr None
      | Some raw \<Rightarrow>
          if trim raw = [] then Inr None
          else case parse_u64 (trim raw) of
            Some n \<Rightarrow> Inr (Some n)
          | None \<Rightarrow> Inl (Validation (''DurationSeconds must be a positive integer, got '' @ debug_str raw)))"

definition from_params :: "params \<Rightarrow> sts_refusal + assume_role_request" where
  "from_params ps =
     (case duration_param ps of Inl e \<Rightarrow> Inl e | Inr duration \<Rightarrow>
      if duration = Some 0 then Inl (Validation ''DurationSeconds must be > 0'') else
      case required_param ps ''RoleSessionName'' of Inl e \<Rightarrow> Inl e | Inr session_name \<Rightarrow>
      case validate_role_session_name session_name of Inl e \<Rightarrow> Inl e | Inr _ \<Rightarrow>
      case required_param ps ''RoleArn'' of Inl e \<Rightarrow> Inl e | Inr role_arn \<Rightarrow>
      case required_param ps ''WebIdentityToken'' of Inl e \<Rightarrow> Inl e | Inr token \<Rightarrow>
        Inr \<lparr>aq_role_arn = role_arn, aq_role_session_name = session_name, aq_web_identity_token = token,
             aq_duration_seconds = duration\<rparr>)"

section \<open>The role\<close>

record role_arn =
  ra_tenant :: string
  ra_role_name :: string

text \<open>\<open>str::splitn\<close>: at most \<open>n\<close> parts, the last one with the rest.\<close>

fun splitn :: "nat \<Rightarrow> char \<Rightarrow> string \<Rightarrow> string list" where
  "splitn 0 c s = []"
| "splitn (Suc 0) c s = [s]"
| "splitn (Suc (Suc n)) c s = (case split_once c s of None \<Rightarrow> [s] | Some (a, b) \<Rightarrow> a # splitn (Suc n) c b)"

definition em_dash :: string where
  "em_dash = [CHR 0xE2, CHR 0x80, CHR 0x94]"

definition arn_invalid :: "string \<Rightarrow> sts_refusal + 'a" where
  "arn_invalid why = Inl (Validation (''RoleArn must look like arn:aws:iam::<tenant>:role/<name> ('' @ why @ '')''))"

definition role_arn_parse :: "string \<Rightarrow> sts_refusal + role_arn" where
  "role_arn_parse arn =
     (let parts = splitn 6 CHR '':'' arn
      in if length parts \<noteq> 6 then arn_invalid (''wrong number of '' @ [CHR 0x27] @ '':'' @ [CHR 0x27] @ ''-separated fields'')
         else if parts ! 0 \<noteq> ''arn'' then arn_invalid ''it must start with `arn:`''
         else if parts ! 1 = [] then arn_invalid ''the partition field is empty''
         else if parts ! 2 \<noteq> ''iam'' then arn_invalid ''the service field must be `iam`''
         else if parts ! 3 \<noteq> [] then arn_invalid (''the region field must be empty '' @ em_dash @ '' IAM is global'')
         else if parts ! 4 = [] then arn_invalid ''the account field carries the tenant and must not be empty''
         else case strip_prefix (parts ! 5) ''role/'' of
           None \<Rightarrow> arn_invalid ''the resource must be `role/<name>`''
         | Some role_name \<Rightarrow>
             if role_name = [] then arn_invalid ''the role name is empty''
             else Inr \<lparr>ra_tenant = parts ! 4, ra_role_name = role_name\<rparr>)"

text \<open>One character of the result for every character of the name: a byte that continues a character is dropped.\<close>

definition role_name_key :: "string \<Rightarrow> string" where
  "role_name_key name = map (\<lambda>c. if is_alphanumeric c then lower c else CHR ''-'') (filter (\<lambda>c. \<not> is_cont c) name)"

section \<open>The principal\<close>

record web_principal =
  wp_sub :: string
  wp_principal_type :: principal_type
  wp_token_subject :: string

definition str_claim :: "json \<Rightarrow> string \<Rightarrow> string option" where
  "str_claim claims name = map_option trim (Option.bind (jget name claims) as_str_json)"

definition non_empty :: "string option \<Rightarrow> string option" where
  "non_empty x = Option.bind x (\<lambda>s. if s = [] then None else Some s)"

definition azp_or_client_id :: "json \<Rightarrow> string option" where
  "azp_or_client_id claims =
     (case non_empty (str_claim claims ''azp'') of
        Some c \<Rightarrow> Some c
      | None \<Rightarrow> non_empty (str_claim claims ''client_id''))"

definition resolve_principal :: "json \<Rightarrow> sts_refusal + web_principal" where
  "resolve_principal claims =
     (let token_subject = (case str_claim claims ''sub'' of Some s \<Rightarrow> s | None \<Rightarrow> []);
          username = (case str_claim claims ''preferred_username'' of Some s \<Rightarrow> s | None \<Rightarrow> []);
          azp = (case non_empty (str_claim claims ''azp'') of
                   Some c \<Rightarrow> Some c
                 | None \<Rightarrow> non_empty (str_claim claims ''client_id''))
      in case strip_prefix username ''service-account-'' of
           Some from_username \<Rightarrow>
             (let from_username = trim from_username
              in case (case azp of
                         Some c \<Rightarrow>
                           if eq_ignore_ascii_case c from_username then Inr c
                           else Inl (IdpRejectedClaim (''azp '' @ debug_str c @ '' and preferred_username service-account-'' @
                             debug_str from_username @ '' name different clients''))
                       | None \<Rightarrow> Inr from_username) of
                   Inl e \<Rightarrow> Inl e
                 | Inr client_id \<Rightarrow>
                     if client_id = [] then
                       Inl (IdpRejectedClaim (''the service account'' @ [CHR 0x27] @ ''s client id is empty''))
                     else Inr \<lparr>wp_sub = client_id, wp_principal_type = ServiceAccount, wp_token_subject = token_subject\<rparr>)
         | None \<Rightarrow>
             if token_subject = [] then Inl (IdpRejectedClaim ''the token carries no `sub` claim'')
             else Inr \<lparr>wp_sub = token_subject, wp_principal_type = User, wp_token_subject = token_subject\<rparr>)"

section \<open>The endpoint\<close>

text \<open>What verifies a token: its signature, issuer and expiry, and the configured audiences.\<close>

record web_verifier =
  wv_verify_token :: "string \<Rightarrow> sts_refusal + json"
  wv_audience_is_accepted :: "json \<Rightarrow> bool"

record web_identity_config =
  wc_max_duration_secs :: u64
  wc_default_duration_secs :: u64
  wc_role_name_template :: "string option"

definition web_identity_config_from :: "sts_mint_config \<Rightarrow> u64 \<Rightarrow> web_identity_config" where
  "web_identity_config_from cfg session_ttl =
     \<lparr>wc_max_duration_secs = mc_max_duration_secs cfg,
      wc_default_duration_secs = max (min session_ttl (mc_max_duration_secs cfg)) 1,
      wc_role_name_template = mc_role_name_template cfg\<rparr>"

record web_identity_sts =
  ws_verifier :: web_verifier
  ws_sts :: sts_authority
  ws_registry :: backend_registry
  ws_config :: web_identity_config
  ws_subjects :: "(string \<Rightarrow> string \<Rightarrow> bool) option"

record assumed_role_session =
  as_access_key_id :: string
  as_secret_access_key :: string
  as_session_token :: string
  as_expires_at :: u64
  as_role :: role_arn
  as_role_session_name :: string
  as_principal :: web_principal
  as_audience :: string
  as_issuer :: string

definition clamp_duration :: "web_identity_config \<Rightarrow> u64 \<Rightarrow> u64" where
  "clamp_duration cfg requested = (if requested > wc_max_duration_secs cfg then wc_max_duration_secs cfg else requested)"

definition addressed_to_this_gateway :: "web_identity_sts \<Rightarrow> role_arn \<Rightarrow> json \<Rightarrow> sts_refusal + unit" where
  "addressed_to_this_gateway ws role claims =
     (if wv_audience_is_accepted (ws_verifier ws) claims then Inr ()
      else if (case (ws_subjects ws, azp_or_client_id claims) of
                 (Some knows, Some client_id) \<Rightarrow> knows (ra_tenant role) client_id
               | _ \<Rightarrow> False) then Inr ()
      else Inl (InvalidIdentityToken
        (''neither `aud` nor `azp` names an audience this gateway accepts, and `azp` '' @
         ''does not name a service account known to the requested tenant'')))"

text \<open>\<open>str::replace\<close> for a pattern that is not empty.\<close>

function replace_str :: "string \<Rightarrow> string \<Rightarrow> string \<Rightarrow> string" where
  "replace_str pat by [] = []"
| "replace_str pat by (x # xs) =
     (if pat \<noteq> [] \<and> prefix pat (x # xs) then by @ replace_str pat by (drop (length pat) (x # xs))
      else x # replace_str pat by xs)"
  by pat_completeness auto
termination by (relation "measure (\<lambda>(pat, by, s). length s)") auto

definition check_role_name :: "web_identity_config \<Rightarrow> role_arn \<Rightarrow> sts_refusal + unit" where
  "check_role_name cfg role =
     (case wc_role_name_template cfg of
        None \<Rightarrow> Inr ()
      | Some template \<Rightarrow>
          let expected = replace_str ''{tenant}'' (ra_tenant role) template
          in if role_name_key (ra_role_name role) = role_name_key expected then Inr () else Inl AccessDenied)"

definition primary_audience :: "json \<Rightarrow> string" where
  "primary_audience claims =
     (case jget ''aud'' claims of
        Some (JStr s) \<Rightarrow> s
      | Some (JArr a) \<Rightarrow> (case a of x # _ \<Rightarrow> (case as_str_json x of Some s \<Rightarrow> s | None \<Rightarrow> []) | [] \<Rightarrow> [])
      | _ \<Rightarrow> (case Option.bind (jget ''azp'' claims) as_str_json of Some s \<Rightarrow> s | None \<Rightarrow> []))"

definition web_session_claims ::
  "web_identity_sts \<Rightarrow> u64 \<Rightarrow> u64 option \<Rightarrow> role_arn \<Rightarrow> web_principal \<Rightarrow> route_snapshot \<Rightarrow> string \<Rightarrow> session_claims" where
  "web_session_claims ws now duration role p route sid =
     (let ttl = clamp_duration (ws_config ws)
            (case duration of Some d \<Rightarrow> d | None \<Rightarrow> wc_default_duration_secs (ws_config ws))
      in \<lparr>sc_sub = wp_sub p, sc_principal_type = wp_principal_type p, sc_groups = [], sc_tenant = ra_tenant role,
          sc_org = rs_organization_id route, sc_sid = sid, sc_exp = now + ttl\<rparr>)"

definition assume_role ::
  "crypto \<Rightarrow> web_identity_sts \<Rightarrow> string + u64 \<Rightarrow> assume_role_request \<Rightarrow> string \<Rightarrow> sts_refusal + assumed_role_session" where
  "assume_role cr ws clock req sid =
     (case role_arn_parse (aq_role_arn req) of Inl e \<Rightarrow> Inl e | Inr role \<Rightarrow>
      case wv_verify_token (ws_verifier ws) (aq_web_identity_token req) of Inl e \<Rightarrow> Inl e | Inr claims \<Rightarrow>
      case addressed_to_this_gateway ws role claims of Inl e \<Rightarrow> Inl e | Inr _ \<Rightarrow>
      case resolve_principal claims of Inl e \<Rightarrow> Inl e | Inr p \<Rightarrow>
      case check_role_name (ws_config ws) role of Inl e \<Rightarrow> Inl e | Inr _ \<Rightarrow>
      case route_snapshot_for (ws_registry ws) (ra_tenant role) of None \<Rightarrow> Inl AccessDenied | Some route \<Rightarrow>
      case clock of Inl e \<Rightarrow> Inl (Internal (''clock: '' @ e)) | Inr now \<Rightarrow>
      case sts_mint cr (ws_sts ws) sid (web_session_claims ws now (aq_duration_seconds req) role p route sid) of
        Inl e \<Rightarrow> Inl (Internal (gateway_error_display e))
      | Inr creds \<Rightarrow>
          Inr \<lparr>as_access_key_id = sn_access_key_id creds, as_secret_access_key = sn_secret_access_key creds,
               as_session_token = sn_session_token creds, as_expires_at = sn_expires_at creds, as_role = role,
               as_role_session_name = aq_role_session_name req, as_principal = p, as_audience = primary_audience claims,
               as_issuer = (case Option.bind (jget ''iss'' claims) as_str_json of Some s \<Rightarrow> s | None \<Rightarrow> [])\<rparr>)"

definition assume_role_from_params ::
  "crypto \<Rightarrow> web_identity_sts \<Rightarrow> string + u64 \<Rightarrow> params \<Rightarrow> string \<Rightarrow> sts_refusal + assumed_role_session" where
  "assume_role_from_params cr ws clock ps sid =
     (let action = (case params_get ps ''Action'' of Some a \<Rightarrow> a | None \<Rightarrow> [])
      in if action = [] then
           Inl (Validation ''Action is required; this endpoint speaks the AWS STS query protocol'')
         else if action \<noteq> assume_role_action then Inl (InvalidAction action)
         else case params_get ps ''Version'' of
           Some v \<Rightarrow>
             if v \<noteq> [] \<and> v \<noteq> ''2011-06-15'' then
               Inl (Validation (''Version '' @ debug_str v @ '' is not supported; this endpoint implements 2011-06-15''))
             else (case from_params ps of Inl e \<Rightarrow> Inl e | Inr req \<Rightarrow> assume_role cr ws clock req sid)
         | None \<Rightarrow> (case from_params ps of Inl e \<Rightarrow> Inl e | Inr req \<Rightarrow> assume_role cr ws clock req sid))"

section \<open>The documents\<close>

fun xml_escape_char :: "char \<Rightarrow> string" where
  "xml_escape_char c =
     (if c = CHR ''&'' then ''&amp;''
      else if c = CHR ''<'' then ''&lt;''
      else if c = CHR ''>'' then ''&gt;''
      else if c = CHR 0x22 then ''&quot;''
      else if c = CHR 0x27 then ''&apos;''
      else [c])"

definition xml_escape :: "string \<Rightarrow> string" where
  "xml_escape v = concat (map xml_escape_char v)"

text \<open>The printer of dates gives nothing for a time it cannot represent.\<close>

definition iso8601_utc :: "(int \<Rightarrow> string option) \<Rightarrow> u64 \<Rightarrow> string" where
  "iso8601_utc chrono secs = (case chrono (sint secs) of Some s \<Rightarrow> s | None \<Rightarrow> ''1970-01-01T00:00:00Z'')"

definition nl :: string where
  "nl = [CHR 0x0A]"

definition xml_head :: "string \<Rightarrow> string" where
  "xml_head root =
     ''<?xml version='' @ [CHR 0x22] @ ''1.0'' @ [CHR 0x22] @ '' encoding='' @ [CHR 0x22] @ ''UTF-8'' @ [CHR 0x22] @ ''?>'' @ nl @
     ''<'' @ root @ '' xmlns='' @ [CHR 0x22] @ ''https://sts.amazonaws.com/doc/2011-06-15/'' @ [CHR 0x22] @ ''>'' @ nl"

text \<open>One line with an element that holds a text.\<close>

definition xml_line :: "nat \<Rightarrow> string \<Rightarrow> string \<Rightarrow> string" where
  "xml_line indent name v = replicate indent CHR '' '' @ ''<'' @ name @ ''>'' @ v @ ''</'' @ name @ ''>'' @ nl"

definition xml_tag :: "nat \<Rightarrow> string \<Rightarrow> string" where
  "xml_tag indent tag = replicate indent CHR '' '' @ ''<'' @ tag @ ''>'' @ nl"

definition render_assume_role_response :: "(int \<Rightarrow> string option) \<Rightarrow> assumed_role_session \<Rightarrow> string \<Rightarrow> string" where
  "render_assume_role_response chrono s request_id =
     (let role = as_role s;
          assumed_role_id = ra_role_name role @ '':'' @ as_role_session_name s;
          assumed_role_arn = ''arn:aws:sts::'' @ ra_tenant role @ '':assumed-role/'' @ ra_role_name role @ ''/'' @ as_role_session_name s
      in xml_head ''AssumeRoleWithWebIdentityResponse'' @
         xml_tag 2 ''AssumeRoleWithWebIdentityResult'' @
         xml_line 4 ''SubjectFromWebIdentityToken'' (xml_escape (wp_token_subject (as_principal s))) @
         xml_line 4 ''Audience'' (xml_escape (as_audience s)) @
         xml_tag 4 ''AssumedRoleUser'' @
         xml_line 6 ''Arn'' (xml_escape assumed_role_arn) @
         xml_line 6 ''AssumedRoleId'' (xml_escape assumed_role_id) @
         xml_tag 4 ''/AssumedRoleUser'' @
         xml_tag 4 ''Credentials'' @
         xml_line 6 ''AccessKeyId'' (xml_escape (as_access_key_id s)) @
         xml_line 6 ''SecretAccessKey'' (xml_escape (as_secret_access_key s)) @
         xml_line 6 ''SessionToken'' (xml_escape (as_session_token s)) @
         xml_line 6 ''Expiration'' (iso8601_utc chrono (as_expires_at s)) @
         xml_tag 4 ''/Credentials'' @
         xml_line 4 ''Provider'' (xml_escape (as_issuer s)) @
         xml_tag 2 ''/AssumeRoleWithWebIdentityResult'' @
         xml_tag 2 ''ResponseMetadata'' @
         xml_line 4 ''RequestId'' (xml_escape request_id) @
         xml_tag 2 ''/ResponseMetadata'' @
         xml_tag 0 ''/AssumeRoleWithWebIdentityResponse'')"

definition render_error_response :: "sts_refusal \<Rightarrow> string \<Rightarrow> string" where
  "render_error_response r request_id =
     xml_head ''ErrorResponse'' @
     xml_tag 2 ''Error'' @
     xml_line 4 ''Type'' (sts_refusal_error_type r) @
     xml_line 4 ''Code'' (sts_refusal_code r) @
     xml_line 4 ''Message'' (xml_escape (sts_refusal_message r)) @
     xml_tag 2 ''/Error'' @
     xml_line 2 ''RequestId'' (xml_escape request_id) @
     xml_tag 0 ''/ErrorResponse''"

section \<open>Reading a role ARN\<close>

lemma splitn_iff:
  "splitn (Suc n) c s = ps \<and> length ps = Suc n \<longleftrightarrow>
   length ps = Suc n \<and> s = join [c] ps \<and> (\<forall>p \<in> set (butlast ps). c \<notin> set p)"
proof (induction n arbitrary: s ps)
  case 0
  then show ?case by (auto simp: length_Suc_conv)
next
  case (Suc n)
  show ?case
  proof (cases ps)
    case (Cons p qs)
    have "splitn (Suc (Suc n)) c s = p # qs \<and> length qs = Suc n \<longleftrightarrow>
        (\<exists>rest. s = p @ c # rest \<and> c \<notin> set p \<and> splitn (Suc n) c rest = qs \<and> length qs = Suc n)"
      (is "?l \<longleftrightarrow> ?r")
    proof
      show "?l \<Longrightarrow> ?r" by (auto simp: split_once_Some split: option.splits)
    qed auto
    also have "\<dots> \<longleftrightarrow> (\<exists>rest. s = p @ c # rest \<and> c \<notin> set p \<and> length qs = Suc n \<and> rest = join [c] qs \<and>
        (\<forall>q \<in> set (butlast qs). c \<notin> set q))"
      using Suc.IH by metis
    also have "\<dots> \<longleftrightarrow> length qs = Suc n \<and> s = join [c] (p # qs) \<and> (\<forall>q \<in> set (butlast (p # qs)). c \<notin> set q)"
      by (cases qs) auto
    finally show ?thesis by (simp add: Cons)
  qed simp
qed

text \<open>A role ARN names its tenant unambiguously. Parsing accepts exactly the texts
  \<open>arn:<partition>:iam::<tenant>:role/<name>\<close> with a partition and a tenant that are not empty and hold no colon and a name that
  is not empty, and the tenant and the name it returns are the ones written there.\<close>
theorem role_arn_parse_iff:
  "role_arn_parse arn = Inr role \<longleftrightarrow>
   (\<exists>partition. arn = ''arn:'' @ partition @ '':iam::'' @ ra_tenant role @ '':role/'' @ ra_role_name role \<and>
      partition \<noteq> [] \<and> CHR '':'' \<notin> set partition \<and> ra_tenant role \<noteq> [] \<and> CHR '':'' \<notin> set (ra_tenant role) \<and> ra_role_name role \<noteq> [])"
  (is "_ \<longleftrightarrow> ?rhs")
proof
  assume parsed: "role_arn_parse arn = Inr role"
  define ps where "ps = splitn 6 CHR '':'' arn"
  have len: "length ps = 6"
    using parsed by (auto simp: role_arn_parse_def ps_def [symmetric] arn_invalid_def Let_def split: if_splits)
  then obtain a b c d e f where ps: "ps = [a, b, c, d, e, f]" by (auto simp: numeral_eq_Suc length_Suc_conv)
  have arn: "arn = join '':'' ps" "\<forall>p \<in> set (butlast ps). CHR '':'' \<notin> set p"
    using splitn_iff [of 5 "CHR '':''" arn ps] len by (simp_all add: ps_def)
  have "a = ''arn''" "b \<noteq> []" "c = ''iam''" "d = []" "e \<noteq> []" "f = ''role/'' @ ra_role_name role" "ra_role_name role \<noteq> []"
      "ra_tenant role = e"
    using parsed
    by (auto simp: role_arn_parse_def ps_def [symmetric] ps arn_invalid_def Let_def strip_prefix_Some split: if_splits option.splits)
  then show ?rhs using arn by (auto simp: ps intro!: exI [of _ b])
next
  assume ?rhs
  then obtain partition where r: "arn = ''arn:'' @ partition @ '':iam::'' @ ra_tenant role @ '':role/'' @ ra_role_name role"
      "partition \<noteq> []" "CHR '':'' \<notin> set partition" "ra_tenant role \<noteq> []" "CHR '':'' \<notin> set (ra_tenant role)" "ra_role_name role \<noteq> []"
    by blast
  let ?ps = "[''arn'', partition, ''iam'', [], ra_tenant role, ''role/'' @ ra_role_name role]"
  have "splitn 6 CHR '':'' arn = ?ps"
    using splitn_iff [of 5 "CHR '':''" arn ?ps] r by simp
  then show "role_arn_parse arn = Inr role"
    using r strip_prefix_append [of "''role/''" "ra_role_name role"] by (simp add: role_arn_parse_def)
qed

section \<open>Reading a document back\<close>

text \<open>How a client reads a text out of the document: the entities decoded, up to the next markup.\<close>

fun xml_unescape :: "string \<Rightarrow> string" where
  "xml_unescape [] = []"
| "xml_unescape (c # s) =
     (if prefix ''&amp;'' (c # s) then CHR ''&'' # xml_unescape (drop 4 s)
      else if prefix ''&lt;'' (c # s) then CHR ''<'' # xml_unescape (drop 3 s)
      else if prefix ''&gt;'' (c # s) then CHR ''>'' # xml_unescape (drop 3 s)
      else if prefix ''&quot;'' (c # s) then CHR 0x22 # xml_unescape (drop 5 s)
      else if prefix ''&apos;'' (c # s) then CHR 0x27 # xml_unescape (drop 5 s)
      else c # xml_unescape s)"

definition open_tag :: "string \<Rightarrow> string" where
  "open_tag name = CHR ''<'' # name @ ''>''"

definition xml_field :: "string \<Rightarrow> string \<Rightarrow> string option" where
  "xml_field name doc =
     map_option (\<lambda>rest. xml_unescape (takeWhile (\<lambda>c. c \<noteq> CHR ''<'') rest)) (after_first (open_tag name) doc)"

lemma xml_unescape_escape: "xml_unescape (xml_escape v) = v"
proof (induction v)
  case (Cons c v)
  have "xml_unescape (xml_escape_char c @ xml_escape v) = c # xml_unescape (xml_escape v)"
    by (auto simp: drop_eq_Nil numeral_eq_Suc)
  with Cons show ?case by (simp add: xml_escape_def)
qed (simp add: xml_escape_def)

lemma xml_escape_plain: "CHR ''<'' \<notin> set (xml_escape v)"
  by (auto simp: xml_escape_def)

lemma after_first_skip: "CHR ''<'' \<notin> set v \<Longrightarrow> after_first (CHR ''<'' # n) (v @ rest) = after_first (CHR ''<'' # n) rest"
  by (induction v) auto

lemma after_first_step: "\<not> prefix n s \<Longrightarrow> after_first (CHR ''<'' # n) (CHR ''<'' # s) = after_first (CHR ''<'' # n) s"
  by simp

text \<open>What may stand in a tag: no angle bracket, no space, no question mark.\<close>

definition element_name :: "string \<Rightarrow> bool" where
  "element_name n \<longleftrightarrow> list_all (\<lambda>c. c \<notin> set ''<> ?'') n"

lemma tag_prefix_iff:
  assumes "element_name n" and "element_name m"
  shows "prefix (n @ ''>'') (m @ CHR ''>'' # rest) \<longleftrightarrow> n = m"
  using assms
proof (induction n arbitrary: m)
  case Nil
  then show ?case by (cases m) (auto simp: element_name_def)
next
  case (Cons c n)
  then show ?case by (cases m) (auto simp: element_name_def)
qed

lemma skip_tag:
  assumes "element_name n" and "element_name m" and "n \<noteq> m"
  shows "after_first (CHR ''<'' # n @ ''>'') (CHR ''<'' # m @ CHR ''>'' # rest) = after_first (CHR ''<'' # n @ ''>'') rest"
proof -
  have "CHR ''<'' \<notin> set (m @ ''>'')" using assms(2) by (auto simp: element_name_def list_all_iff)
  then show ?thesis
    using after_first_step [of "n @ ''>''" "m @ CHR ''>'' # rest"] tag_prefix_iff [OF assms(1,2)] assms(3)
      after_first_skip [of "m @ ''>''" "n @ ''>''" rest] by simp
qed

lemma skip_xml_tag:
  assumes "element_name n" and "element_name m" and "n \<noteq> m"
  shows "after_first (open_tag n) (xml_tag i m @ rest) = after_first (open_tag n) rest"
  using after_first_skip [of "replicate i CHR '' ''" "n @ ''>''"] after_first_skip [of nl "n @ ''>''"] skip_tag [OF assms]
  by (simp add: xml_tag_def nl_def open_tag_def)

lemma skip_xml_line:
  assumes "element_name n" and "element_name m" and "n \<noteq> m" and "n \<noteq> CHR ''/'' # m" and "CHR ''<'' \<notin> set v"
  shows "after_first (open_tag n) (xml_line i m v @ rest) = after_first (open_tag n) rest"
proof -
  have "element_name (CHR ''/'' # m)" using assms(2) by (simp add: element_name_def)
  then show ?thesis
    using after_first_skip [of "replicate i CHR '' ''" "n @ ''>''"] after_first_skip [OF assms(5), of "n @ ''>''"]
      after_first_skip [of nl "n @ ''>''"] skip_tag [OF assms(1-3)] skip_tag [OF assms(1) _ assms(4)]
    by (simp add: xml_line_def nl_def open_tag_def)
qed

lemma hit_xml_line:
  assumes "CHR ''<'' \<notin> set v"
  shows "after_first (open_tag n) (xml_line i n v @ rest) = Some (v @ CHR ''<'' # ''/'' @ n @ ''>'' @ nl @ rest)"
  using after_first_skip [of "replicate i CHR '' ''" "n @ ''>''"] by (simp add: xml_line_def open_tag_def)

lemma skip_xml_head:
  assumes "element_name n" and "element_name m" and "n \<noteq> []"
  shows "after_first (open_tag n) (xml_head m @ rest) = after_first (open_tag n) rest"
proof -
  have root: "\<not> prefix (n @ ''>'') (m @ CHR '' '' # s)" for s
    using assms(1,2)
  proof (induction n arbitrary: m)
    case Nil
    then show ?case by (cases m) (auto simp: element_name_def)
  next
    case (Cons c n)
    then show ?case by (cases m) (auto simp: element_name_def)
  qed
  have decl: "\<not> prefix (n @ ''>'') (CHR ''?'' # s)" for s
    using assms(1,3) by (cases n) (auto simp: element_name_def)
  have "CHR ''<'' \<notin> set m" using assms(2) by (auto simp: element_name_def list_all_iff)
  then show ?thesis
    using after_first_step [OF decl] after_first_step [OF root] after_first_skip [of m "n @ ''>''"]
    by (simp add: xml_head_def nl_def open_tag_def)
qed

lemma field_of:
  assumes "after_first (open_tag n) doc = Some (xml_escape v @ CHR ''<'' # rest)"
  shows "xml_field n doc = Some v"
proof -
  have "takeWhile (\<lambda>c. c \<noteq> CHR ''<'') (xml_escape v @ CHR ''<'' # rest) = xml_escape v"
    using xml_escape_plain [of v] by (subst takeWhile_append2) auto
  with assms show ?thesis by (simp add: xml_field_def xml_unescape_escape)
qed

lemmas xml_reading = skip_xml_head skip_xml_tag skip_xml_line hit_xml_line xml_escape_plain

text \<open>The elements of the success document that carry a value of the session.\<close>

definition document_fields :: "assumed_role_session \<Rightarrow> string \<Rightarrow> (string \<times> string) list" where
  "document_fields s request_id =
     [(''AccessKeyId'', as_access_key_id s), (''SecretAccessKey'', as_secret_access_key s), (''SessionToken'', as_session_token s),
      (''SubjectFromWebIdentityToken'', wp_token_subject (as_principal s)), (''Audience'', as_audience s),
      (''Arn'', ''arn:aws:sts::'' @ ra_tenant (as_role s) @ '':assumed-role/'' @ ra_role_name (as_role s) @ ''/'' @ as_role_session_name s),
      (''Provider'', as_issuer s), (''RequestId'', request_id)]"


definition demo_session :: assumed_role_session where
  "demo_session = \<lparr>as_access_key_id = ''HFSTv1.s1'', as_secret_access_key = ''k<&'', as_session_token = ''tok'', as_expires_at = 100,
     as_role = \<lparr>ra_tenant = ''acme'', ra_role_name = ''r''\<rparr>, as_role_session_name = ''me'',
     as_principal = \<lparr>wp_sub = ''u1'', wp_principal_type = User, wp_token_subject = ''</X><AccessKeyId>evil''\<rparr>, as_audience = ''s0'', as_issuer = ''idp''\<rparr>"


section \<open>Doors\<close>

text \<open>What a door that hands out sessions promises the data plane: the session was minted by the gateway's own authority, for a
  tenant that is routed, under the organization the route binds the tenant to, and for no longer than the door's ceiling.\<close>

locale session_door =
  fixes door :: "crypto \<Rightarrow> sts_authority \<Rightarrow> backend_registry \<Rightarrow> u64 \<Rightarrow> u64 \<Rightarrow> string \<Rightarrow> session_claims \<Rightarrow> session_credentials \<Rightarrow> bool"
  assumes minted: "door cr a reg cap now sid claims c \<Longrightarrow> sts_mint cr a sid claims = Inr c"
    and routed: "door cr a reg cap now sid claims c \<Longrightarrow>
      \<exists>route. route_snapshot_for reg (sc_tenant claims) = Some route \<and> rs_organization_id route = sc_org claims"
    and bounded: "door cr a reg cap now sid claims c \<Longrightarrow> \<exists>ttl. sc_exp claims = now + ttl \<and> ttl \<le> cap"
begin

lemma door_expiry:
  assumes "door cr a reg cap now sid claims c" and "unat now + unat cap < 2 ^ 64"
  shows "unat (sn_expires_at c) \<le> unat now + unat cap"
proof -
  obtain ttl where "sc_exp claims = now + ttl" "ttl \<le> cap" using bounded [OF assms(1)] by blast
  moreover have "sn_expires_at c = sc_exp claims"
    using minted [OF assms(1)] by (auto simp: sts_mint_def split: if_splits option.splits sum.splits)
  ultimately show ?thesis
    using assms(2) by (simp add: unat_word_ariths word_le_nat_alt mod_less)
qed

lemma door_resolves:
  assumes "door cr a reg cap now sid claims c" and "crypto_ok cr" and "sts_with_key_ring ring cur sk = Inr a" and "id_sts i = a"
    and "later < unat (sn_expires_at c)"
  shows "\<exists>p route. identity_resolve cr i later (sn_access_key_id c) (Some (sn_session_token c)) = Inr p \<and>
    rp_sub p = sc_sub claims \<and> rp_principal_type p = sc_principal_type claims \<and> rp_groups p = sc_groups claims \<and>
    rp_tenant p = sc_tenant claims \<and>
    route_snapshot_for reg (sc_tenant claims) = Some route \<and> rp_organization_id p = rs_organization_id route \<and>
    identity_secret_key cr i (sn_access_key_id c) = Some (sn_secret_access_key c)"
proof -
  have "sts_mint cr (id_sts i) sid claims = Inr c" using minted [OF assms(1)] assms(4) by simp
  from sts_mint_verifies [OF assms(2) _ this assms(5)] assms(3,4) routed [OF assms(1)] show ?thesis by auto
qed

end

text \<open>The web-identity door: a call of \<open>assume_role\<close> with some request, and the session in its answer.\<close>

definition session_of :: "assumed_role_session \<Rightarrow> session_credentials" where
  "session_of s = \<lparr>sn_access_key_id = as_access_key_id s, sn_secret_access_key = as_secret_access_key s,
     sn_session_token = as_session_token s, sn_expires_at = as_expires_at s\<rparr>"

definition web_claims :: "web_identity_sts \<Rightarrow> u64 \<Rightarrow> assume_role_request \<Rightarrow> string \<Rightarrow> assumed_role_session \<Rightarrow> session_claims" where
  "web_claims ws now req sid s =
     web_session_claims ws now (aq_duration_seconds req) (as_role s) (as_principal s)
       (the (route_snapshot_for (ws_registry ws) (ra_tenant (as_role s)))) sid"

definition web_door ::
  "crypto \<Rightarrow> sts_authority \<Rightarrow> backend_registry \<Rightarrow> u64 \<Rightarrow> u64 \<Rightarrow> string \<Rightarrow> session_claims \<Rightarrow> session_credentials \<Rightarrow> bool" where
  "web_door cr a reg cap now sid claims c \<longleftrightarrow>
     (\<exists>ws req s. ws_sts ws = a \<and> ws_registry ws = reg \<and> wc_max_duration_secs (ws_config ws) = cap \<and>
        assume_role cr ws (Inr now) req sid = Inr s \<and> claims = web_claims ws now req sid s \<and> c = session_of s)"

lemma assume_role_steps:
  assumes "assume_role cr ws (Inr now) req sid = Inr s"
  shows "\<exists>claims route. role_arn_parse (aq_role_arn req) = Inr (as_role s) \<and>
    wv_verify_token (ws_verifier ws) (aq_web_identity_token req) = Inr claims \<and>
    addressed_to_this_gateway ws (as_role s) claims = Inr () \<and> resolve_principal claims = Inr (as_principal s) \<and>
    check_role_name (ws_config ws) (as_role s) = Inr () \<and>
    route_snapshot_for (ws_registry ws) (ra_tenant (as_role s)) = Some route \<and>
    sts_mint cr (ws_sts ws) sid (web_claims ws now req sid s) = Inr (session_of s) \<and>
    sc_org (web_claims ws now req sid s) = rs_organization_id route"
  using assms
  by (auto simp: assume_role_def web_claims_def session_of_def web_session_claims_def Let_def split: sum.splits option.splits)

lemma web_claims_shape:
  "sc_sub (web_claims ws now req sid s) = wp_sub (as_principal s)"
  "sc_principal_type (web_claims ws now req sid s) = wp_principal_type (as_principal s)"
  "sc_groups (web_claims ws now req sid s) = []"
  "sc_tenant (web_claims ws now req sid s) = ra_tenant (as_role s)"
  "\<exists>ttl. sc_exp (web_claims ws now req sid s) = now + ttl \<and> ttl \<le> wc_max_duration_secs (ws_config ws)"
  by (auto simp: web_claims_def web_session_claims_def clamp_duration_def Let_def not_less)

interpretation web: session_door web_door
proof (unfold_locales, goal_cases)
  case (1 cr a reg cap now sid claims c)
  then show ?case using assume_role_steps by (fastforce simp: web_door_def)
next
  case (2 cr a reg cap now sid claims c)
  then show ?case using assume_role_steps by (fastforce simp: web_door_def web_claims_shape)
next
  case (3 cr a reg cap now sid claims c)
  then show ?case using web_claims_shape(5) by (auto simp: web_door_def)
qed

text \<open>C11: A web identity becomes a session of the tenant its role names, and nothing more. If the endpoint answers a call with a
  session, the token verified and is addressed to this gateway, the role's tenant is routed here, and until it expires, at most
  the configured maximum from now, the session resolves on the data plane to the principal the token's claims describe, with no
  groups, in the tenant written in the role ARN and under the organization the routing table binds that tenant to; its secret
  is the one handed out.\<close>
theorem assumed_role_resolves:
  assumes "assume_role cr ws (Inr now) req sid = Inr s" and "crypto_ok cr"
    and "sts_with_key_ring ring cur sk = Inr (id_sts i)" and "ws_sts ws = id_sts i"
    and "unat now + unat (wc_max_duration_secs (ws_config ws)) < 2 ^ 64"
  shows "\<exists>claims role route. wv_verify_token (ws_verifier ws) (aq_web_identity_token req) = Inr claims \<and>
    role_arn_parse (aq_role_arn req) = Inr role \<and> addressed_to_this_gateway ws role claims = Inr () \<and>
    route_snapshot_for (ws_registry ws) (ra_tenant role) = Some route \<and>
    unat (as_expires_at s) \<le> unat now + unat (wc_max_duration_secs (ws_config ws)) \<and>
    (\<forall>later < unat (as_expires_at s). \<exists>p wp.
       identity_resolve cr i later (as_access_key_id s) (Some (as_session_token s)) = Inr p \<and>
       resolve_principal claims = Inr wp \<and> rp_sub p = wp_sub wp \<and> rp_principal_type p = wp_principal_type wp \<and> rp_groups p = [] \<and>
       rp_tenant p = ra_tenant role \<and> rp_organization_id p = rs_organization_id route \<and>
       identity_secret_key cr i (as_access_key_id s) = Some (as_secret_access_key s))"
proof -
  obtain claims route where st: "role_arn_parse (aq_role_arn req) = Inr (as_role s)"
    "wv_verify_token (ws_verifier ws) (aq_web_identity_token req) = Inr claims"
    "addressed_to_this_gateway ws (as_role s) claims = Inr ()" "resolve_principal claims = Inr (as_principal s)"
    "route_snapshot_for (ws_registry ws) (ra_tenant (as_role s)) = Some route"
    "sts_mint cr (ws_sts ws) sid (web_claims ws now req sid s) = Inr (session_of s)"
    using assume_role_steps [OF assms(1)] by blast
  have door: "web_door cr (ws_sts ws) (ws_registry ws) (wc_max_duration_secs (ws_config ws)) now sid (web_claims ws now req sid s) (session_of s)"
    using assms(1) by (auto simp: web_door_def)
  show ?thesis
    using st web.door_expiry [OF door assms(5)] web.door_resolves [OF door assms(2) _ assms(4) [symmetric]] assms(3,4)
    by (auto simp: session_of_def web_claims_shape)
qed

subsection \<open>A small deployment\<close>

definition demo_web_session_claims :: session_claims where
  "demo_web_session_claims = \<lparr>sc_sub = ''u1'', sc_principal_type = User, sc_groups = [], sc_tenant = ''acme'', sc_org = ''org1'',
     sc_sid = ''s1'', sc_exp = 65\<rparr>"

definition demo_web_crypto :: crypto where
  "demo_web_crypto = demo_crypto\<lparr>
     cr_jwt_encode := (\<lambda>key kid claims. if kid = Some ''v1'' \<and> claims = demo_web_session_claims then Inr ''tok'' else Inl ''unsupported''),
     cr_jwt_decode := (\<lambda>key now token. if token = ''tok'' \<and> now < 65 then Inr (Some ''v1'', demo_web_session_claims) else Inl ''invalid'')\<rparr>"

lemma demo_web_crypto_ok: "crypto_ok demo_web_crypto"
  using demo_crypto_ok unfolding crypto_ok_def
  by (auto simp: demo_web_crypto_def demo_web_session_claims_def split: if_splits)

definition demo_web_sts :: web_identity_sts where
  "demo_web_sts = \<lparr>ws_verifier = \<lparr>wv_verify_token = (\<lambda>t. Inr (JObj [(''sub'', JStr ''u1''), (''aud'', JStr ''s0'')])),
       wv_audience_is_accepted = (\<lambda>claims. jget ''aud'' claims = Some (JStr ''s0''))\<rparr>,
     ws_sts = id_sts demo_identity, ws_registry = demo_registry ''s1'',
     ws_config = \<lparr>wc_max_duration_secs = 3600, wc_default_duration_secs = 60, wc_role_name_template = Some ''{tenant}-sts-role''\<rparr>,
     ws_subjects = None\<rparr>"

definition demo_assume_request :: assume_role_request where
  "demo_assume_request = \<lparr>aq_role_arn = ''arn:aws:iam::acme:role/acme-sts-role'', aq_role_session_name = ''me'',
     aq_web_identity_token = ''t'', aq_duration_seconds = None\<rparr>"

lemma demo_role: "role_arn_parse ''arn:aws:iam::acme:role/acme-sts-role'' = Inr \<lparr>ra_tenant = ''acme'', ra_role_name = ''acme-sts-role''\<rparr>"
  by code_simp

lemma demo_role_name:
  "check_role_name (ws_config demo_web_sts) \<lparr>ra_tenant = ''acme'', ra_role_name = ''acme-sts-role''\<rparr> = Inr ()"
  by (simp add: check_role_name_def demo_web_sts_def)

lemma demo_web_principal:
  "resolve_principal (JObj [(''sub'', JStr ''u1''), (''aud'', JStr ''s0'')]) =
     Inr \<lparr>wp_sub = ''u1'', wp_principal_type = User, wp_token_subject = ''u1''\<rparr>"
  by code_simp

lemma demo_assumed:
  "\<exists>s. assume_role demo_web_crypto demo_web_sts (Inr 5) demo_assume_request ''s1'' = Inr s \<and>
     as_access_key_id s = ''HFSTv1.s1'' \<and> as_session_token s = ''tok'' \<and> as_expires_at s = 65"
  using demo_role_name
  by (simp add: assume_role_def demo_assume_request_def demo_role demo_web_principal addressed_to_this_gateway_def demo_web_sts_def
      route_snapshot_for_def demo_registry_def web_session_claims_def clamp_duration_def sts_mint_def demo_identity_def
      derive_secret_def demo_web_crypto_def demo_web_session_claims_def demo_crypto_def demo_key_def demo_backend_def
      sts_access_key_id_def access_key_id_for_def sts_prefix_def kid_sep_def)

theorem assumed_role_resolves_witness:
  "\<exists>p. identity_resolve demo_web_crypto demo_identity 10 ''HFSTv1.s1'' (Some ''tok'') = Inr p \<and>
     rp_sub p = ''u1'' \<and> rp_tenant p = ''acme'' \<and> rp_groups p = []"
proof -
  obtain s where s: "assume_role demo_web_crypto demo_web_sts (Inr 5) demo_assume_request ''s1'' = Inr s"
    "as_access_key_id s = ''HFSTv1.s1''" "as_session_token s = ''tok''" "as_expires_at s = 65"
    using demo_assumed by blast
  have r: "sts_with_key_ring [(''v1'', demo_key)] ''v1'' demo_signing_key = Inr (id_sts demo_identity)"
    using demo_ring_ok by (simp add: demo_identity_def)
  have "ws_sts demo_web_sts = id_sts demo_identity" "unat (5 :: u64) + unat (wc_max_duration_secs (ws_config demo_web_sts)) < 2 ^ 64"
    by (simp_all add: demo_web_sts_def)
  from assumed_role_resolves [OF s(1) demo_web_crypto_ok r this] s(2-4) show ?thesis
    by (auto simp: demo_web_sts_def demo_assume_request_def demo_role demo_web_principal dest!: spec [of _ "10 :: nat"])
qed

end
