(* ===== verification/S0_Mint.thy ===== *)
theory S0_Mint
  imports S0_WebIdentity
begin

text \<open>
  The listeners that hand out credentials: the OIDC mint, \<open>src/src/mint.rs\<close> (the verifier with its cached
  key set, the bearer exchange, the dispatch to the web-identity endpoint, the bound on its connections),
  and the control plane's own, \<open>src/src/internal.rs\<close> (the shared secret, sessions and long-lived keys). The
  JWT library, the JSON library, HMAC, the HTTP server and the clock are parameters.
\<close>

section \<open>Answers\<close>

record http_answer =
  ha_status :: nat
  ha_headers :: header_map
  ha_body :: string

definition no_store_answer :: "nat \<Rightarrow> string \<Rightarrow> string \<Rightarrow> http_answer" where
  "no_store_answer status content_type body =
     \<lparr>ha_status = status, ha_headers = [(''content-type'', content_type), (''cache-control'', ''no-store'')], ha_body = body\<rparr>"

definition error_body :: "(json \<Rightarrow> string) \<Rightarrow> string \<Rightarrow> string" where
  "error_body show msg = show (JObj [(''error'', JStr msg)])"

definition mint_json_error :: "(json \<Rightarrow> string) \<Rightarrow> nat \<Rightarrow> string \<Rightarrow> http_answer" where
  "mint_json_error show status msg =
     \<lparr>ha_status = status, ha_headers = [(''content-type'', ''application/json'')], ha_body = error_body show msg\<rparr>"

definition minted_credentials :: "(nat \<Rightarrow> json) \<Rightarrow> session_credentials \<Rightarrow> json" where
  "minted_credentials number c =
     JObj [(''AccessKeyId'', JStr (sn_access_key_id c)), (''SecretAccessKey'', JStr (sn_secret_access_key c)),
           (''SessionToken'', JStr (sn_session_token c)), (''Expiration'', number (unat (sn_expires_at c)))]"

section \<open>The OIDC verifier\<close>

record verified_identity =
  vi_sub :: string
  vi_groups :: "string list"
  vi_tenant :: string
  vi_org :: string

record claim_names =
  cn_sub :: string
  cn_groups :: string
  cn_tenant :: string
  cn_org :: string

datatype jwt_error = ExpiredSignature | OtherJwtError string

record jwt_validation =
  jv_issuer :: string
  jv_audience :: "string option"
  jv_required_claims :: "string list"
  jv_validate_exp :: bool
  jv_validate_nbf :: bool

text \<open>Keys of type \<open>'k\<close>, key sets of type \<open>'s\<close>.\<close>

record ('k, 's) jwt_lib =
  jl_header_kid :: "string \<Rightarrow> string + string option"
  jl_find :: "'s \<Rightarrow> string \<Rightarrow> (string + 'k) option"
  jl_count :: "'s \<Rightarrow> nat"
  jl_decode :: "string \<Rightarrow> 'k \<Rightarrow> jwt_validation \<Rightarrow> jwt_error + json"
  jl_show_error :: "jwt_error \<Rightarrow> string"

datatype 'k key_source = Pem 'k | Jwks string u64

record 'k standard_verifier =
  sv_key_source :: "'k key_source"
  sv_issuer :: string
  sv_audience :: string
  sv_claims :: claim_names
  sv_web_identity_audiences :: "string list"

definition verifier_from_config ::
  "(string \<Rightarrow> string + 'k) \<Rightarrow> string + unit \<Rightarrow> sts_mint_config \<Rightarrow> gateway_error + 'k standard_verifier" where
  "verifier_from_config from_rsa_pem client cfg =
     (case (case (mc_public_key_pem cfg, mc_jwks_uri cfg) of
              (Some pem, _) \<Rightarrow>
                (case from_rsa_pem pem of Inl e \<Rightarrow> Inl (Config (''oidc public_key_pem: '' @ e)) | Inr k \<Rightarrow> Inr (Pem k))
            | (None, Some uri) \<Rightarrow>
                (case client of
                   Inl e \<Rightarrow> Inl (Config (''jwks http client: '' @ e))
                 | Inr _ \<Rightarrow> Inr (Jwks uri (mc_jwks_refresh_secs cfg)))
            | (None, None) \<Rightarrow> Inl (Config ''sts_mint needs public_key_pem or jwks_uri'')) of
        Inl e \<Rightarrow> Inl e
      | Inr key_source \<Rightarrow>
          Inr \<lparr>sv_key_source = key_source, sv_issuer = mc_issuer cfg, sv_audience = mc_audience cfg,
               sv_claims = \<lparr>cn_sub = mc_sub_claim cfg, cn_groups = mc_groups_claim cfg, cn_tenant = mc_tenant_claim cfg,
                            cn_org = mc_org_claim cfg\<rparr>,
               sv_web_identity_audiences = mc_web_identity_audiences cfg\<rparr>)"

definition accepted_audiences :: "'k standard_verifier \<Rightarrow> string list" where
  "accepted_audiences v = (if sv_web_identity_audiences v = [] then [sv_audience v] else sv_web_identity_audiences v)"

text \<open>The key set in force is passed along; \<open>fetched\<close> is what the endpoint answers, should it be asked.\<close>

text \<open>\<open>spawn_jwks_refresh\<close>: the period of the background task, if there is one; a round of it is \<open>refresh_jwks\<close>.\<close>

definition spawn_jwks_refresh :: "'k standard_verifier \<Rightarrow> u64 option" where
  "spawn_jwks_refresh v =
     (case sv_key_source v of
        Pem _ \<Rightarrow> None
      | Jwks _ refresh_interval \<Rightarrow> if refresh_interval = 0 then None else Some refresh_interval)"

definition refresh_jwks ::
  "('k, 's) jwt_lib \<Rightarrow> 'k standard_verifier \<Rightarrow> gateway_error + 's \<Rightarrow> 's \<Rightarrow> (gateway_error + nat) \<times> 's" where
  "refresh_jwks jl v fetched cache =
     (case sv_key_source v of
        Pem _ \<Rightarrow> (Inr 0, cache)
      | Jwks _ _ \<Rightarrow>
          (case fetched of
             Inl e \<Rightarrow> (Inl e, cache)
           | Inr fresh \<Rightarrow>
               if jl_count jl fresh = 0 \<and> jl_count jl cache \<noteq> 0 then
                 (Inl (Sts ''jwks endpoint returned an empty key set; keeping cached keys''), cache)
               else (Inr (jl_count jl fresh), fresh)))"

definition key_of_jwk :: "string + 'k \<Rightarrow> gateway_error + 'k" where
  "key_of_jwk r = (case r of Inl e \<Rightarrow> Inl (Sts (''jwk: '' @ e)) | Inr k \<Rightarrow> Inr k)"

definition decoding_key ::
  "('k, 's) jwt_lib \<Rightarrow> 'k standard_verifier \<Rightarrow> gateway_error + 's \<Rightarrow> string \<Rightarrow> 's \<Rightarrow> (gateway_error + 'k) \<times> 's" where
  "decoding_key jl v fetched token cache =
     (case sv_key_source v of
        Pem k \<Rightarrow> (Inr k, cache)
      | Jwks _ _ \<Rightarrow>
          (case jl_header_kid jl token of
             Inl e \<Rightarrow> (Inl (Sts (''oidc header: '' @ e)), cache)
           | Inr None \<Rightarrow> (Inl (Sts ''oidc token missing kid''), cache)
           | Inr (Some kid) \<Rightarrow>
               (case jl_find jl cache kid of
                  Some jwk \<Rightarrow> (key_of_jwk jwk, cache)
                | None \<Rightarrow>
                    (case fetched of
                       Inl e \<Rightarrow> (Inl e, cache)
                     | Inr fresh \<Rightarrow>
                         (case jl_find jl fresh kid of
                            None \<Rightarrow> (Inl (Sts (''no jwk for kid '' @ kid)), cache)
                          | Some jwk \<Rightarrow> (key_of_jwk jwk, fresh))))))"

definition required_claim :: "json \<Rightarrow> string \<Rightarrow> gateway_error + string" where
  "required_claim claims name =
     (case Option.bind (jget name claims) as_str_json of
        Some s \<Rightarrow> Inr s
      | None \<Rightarrow> Inl (Sts (''oidc token missing claim '' @ name)))"

definition extract_identity :: "claim_names \<Rightarrow> json \<Rightarrow> gateway_error + verified_identity" where
  "extract_identity names claims =
     (let groups = (case Option.bind (jget (cn_groups names) claims) as_array of
                      Some a \<Rightarrow> List.map_filter as_str_json a
                    | None \<Rightarrow> [])
      in case required_claim claims (cn_sub names) of Inl e \<Rightarrow> Inl e | Inr sub \<Rightarrow>
         case required_claim claims (cn_tenant names) of Inl e \<Rightarrow> Inl e | Inr tenant \<Rightarrow>
         case required_claim claims (cn_org names) of Inl e \<Rightarrow> Inl e | Inr org \<Rightarrow>
           Inr \<lparr>vi_sub = sub, vi_groups = groups, vi_tenant = tenant, vi_org = org\<rparr>)"

definition bearer_validation :: "'k standard_verifier \<Rightarrow> jwt_validation" where
  "bearer_validation v =
     \<lparr>jv_issuer = sv_issuer v, jv_audience = Some (sv_audience v), jv_required_claims = [''exp'', ''iss'', ''aud''],
      jv_validate_exp = True, jv_validate_nbf = True\<rparr>"

definition oidc_verify ::
  "('k, 's) jwt_lib \<Rightarrow> 'k standard_verifier \<Rightarrow> gateway_error + 's \<Rightarrow> string \<Rightarrow> 's \<Rightarrow> (gateway_error + verified_identity) \<times> 's" where
  "oidc_verify jl v fetched token cache =
     (case decoding_key jl v fetched token cache of
        (Inl e, cache1) \<Rightarrow> (Inl e, cache1)
      | (Inr key, cache1) \<Rightarrow>
          (case jl_decode jl token key (bearer_validation v) of
             Inl e \<Rightarrow> (Inl (Sts (''oidc token invalid: '' @ jl_show_error jl e)), cache1)
           | Inr claims \<Rightarrow> (extract_identity (sv_claims v) claims, cache1)))"

definition web_validation :: "'k standard_verifier \<Rightarrow> jwt_validation" where
  "web_validation v =
     \<lparr>jv_issuer = sv_issuer v, jv_audience = None, jv_required_claims = [''exp'', ''iss''], jv_validate_exp = True,
      jv_validate_nbf = True\<rparr>"

definition verify_token ::
  "('k, 's) jwt_lib \<Rightarrow> 'k standard_verifier \<Rightarrow> gateway_error + 's \<Rightarrow> string \<Rightarrow> 's \<Rightarrow> (sts_refusal + json) \<times> 's" where
  "verify_token jl v fetched token cache =
     (case decoding_key jl v fetched token cache of
        (Inl e, cache1) \<Rightarrow> (Inl (InvalidIdentityToken (gateway_error_display e)), cache1)
      | (Inr key, cache1) \<Rightarrow>
          (case jl_decode jl token key (web_validation v) of
             Inl ExpiredSignature \<Rightarrow> (Inl ExpiredToken, cache1)
           | Inl e \<Rightarrow> (Inl (InvalidIdentityToken (jl_show_error jl e)), cache1)
           | Inr claims \<Rightarrow> (Inr claims, cache1)))"

definition audience_is_accepted :: "'k standard_verifier \<Rightarrow> json \<Rightarrow> bool" where
  "audience_is_accepted v claims =
     (let matches = (\<lambda>s. s \<in> set (accepted_audiences v));
          aud_ok = (case jget ''aud'' claims of
                      Some (JStr s) \<Rightarrow> matches s
                    | Some (JArr a) \<Rightarrow> list_ex matches (List.map_filter as_str_json a)
                    | _ \<Rightarrow> False)
      in aud_ok \<or>
         list_ex (\<lambda>name. case Option.bind (jget name claims) as_str_json of Some s \<Rightarrow> matches s | None \<Rightarrow> False) [''azp'', ''client_id''])"

section \<open>The mint listener\<close>

record mint_limits =
  ml_max_connections :: nat
  ml_connection_timeout :: u64

definition mint_limits_default :: mint_limits where
  "mint_limits_default = \<lparr>ml_max_connections = 256, ml_connection_timeout = 30\<rparr>"

definition mint_limits_from_config :: "sts_mint_config \<Rightarrow> mint_limits" where
  "mint_limits_from_config cfg =
     \<lparr>ml_max_connections = mc_max_connections cfg, ml_connection_timeout = mc_connection_timeout_secs cfg\<rparr>"

record 'k mint =
  mn_verifier :: "'k standard_verifier"
  mn_sts :: sts_authority
  mn_ttl :: u64
  mn_web_identity :: "web_identity_sts option"
  mn_limits :: mint_limits

definition mint_new :: "'k standard_verifier \<Rightarrow> sts_authority \<Rightarrow> u64 \<Rightarrow> 'k mint" where
  "mint_new v sts ttl = \<lparr>mn_verifier = v, mn_sts = sts, mn_ttl = ttl, mn_web_identity = None, mn_limits = mint_limits_default\<rparr>"

definition with_web_identity :: "web_identity_sts \<Rightarrow> 'k mint \<Rightarrow> 'k mint" where
  "with_web_identity ws m = m\<lparr>mn_web_identity := Some ws\<rparr>"

definition with_limits :: "mint_limits \<Rightarrow> 'k mint \<Rightarrow> 'k mint" where
  "with_limits l m = m\<lparr>mn_limits := l\<rparr>"

record mint_request =
  mr_method :: string
  mr_path :: string
  mr_query :: "string option"
  mr_headers :: header_map
  mr_body :: "string option"

text \<open>What a request finds in the world: the clock, the key endpoint, two fresh identifiers.\<close>

record ('k, 's) mint_env =
  me_crypto :: crypto
  me_jwt :: "('k, 's) jwt_lib"
  me_show :: "json \<Rightarrow> string"
  me_number :: "nat \<Rightarrow> json"
  me_chrono :: "int \<Rightarrow> string option"
  me_clock :: "string + u64"
  me_fetched :: "gateway_error + 's"
  me_sid :: string
  me_request_id :: string

record mint_metrics =
  mm_connection_limit :: u64
  mm_connections_accepted :: u64
  mm_connections_active :: u64
  mm_connection_limit_saturated :: u64
  mm_connection_timeouts :: u64
  mm_bodies_too_large :: u64

definition mint_metrics_default :: mint_metrics where
  "mint_metrics_default =
     \<lparr>mm_connection_limit = 0, mm_connections_accepted = 0, mm_connections_active = 0, mm_connection_limit_saturated = 0,
      mm_connection_timeouts = 0, mm_bodies_too_large = 0\<rparr>"

record 's mint_state =
  ms_jwks :: 's
  ms_metrics :: mint_metrics

definition max_mint_body_bytes :: nat where
  "max_mint_body_bytes = 64 * 1024"

text \<open>\<open>Limited\<close>: a body past the limit, and one whose transfer fails, is an error.\<close>

definition limited :: "nat \<Rightarrow> string option \<Rightarrow> string option" where
  "limited n body = Option.bind body (\<lambda>b. if length b \<le> n then Some b else None)"

definition bearer :: "header_map \<Rightarrow> string option" where
  "bearer headers =
     Option.bind (get_header headers ''authorization'') (\<lambda>v. Option.bind (to_str v) (\<lambda>s. strip_prefix s ''Bearer ''))"

definition mint_exchange ::
  "('k, 's) mint_env \<Rightarrow> 'k mint \<Rightarrow> string \<Rightarrow> 's \<Rightarrow> (gateway_error + session_credentials) \<times> 's" where
  "mint_exchange env m token cache =
     (case oidc_verify (me_jwt env) (mn_verifier m) (me_fetched env) token cache of
        (Inl e, cache1) \<Rightarrow> (Inl e, cache1)
      | (Inr i, cache1) \<Rightarrow>
          (case me_clock env of
             Inl e \<Rightarrow> (Inl (Sts (''clock: '' @ e)), cache1)
           | Inr now \<Rightarrow>
               (sts_mint (me_crypto env) (mn_sts m) (me_sid env)
                  \<lparr>sc_sub = vi_sub i, sc_principal_type = User, sc_groups = vi_groups i, sc_tenant = vi_tenant i,
                   sc_org = vi_org i, sc_sid = me_sid env, sc_exp = now + mn_ttl m\<rparr>, cache1)))"

text \<open>The web-identity endpoint with the listener's own verifier.\<close>

definition with_verifier :: "('k, 's) mint_env \<Rightarrow> 'k mint \<Rightarrow> 's \<Rightarrow> web_identity_sts \<Rightarrow> web_identity_sts" where
  "with_verifier env m cache ws =
     ws\<lparr>ws_verifier := \<lparr>wv_verify_token = (\<lambda>token. fst (verify_token (me_jwt env) (mn_verifier m) (me_fetched env) token cache)),
                         wv_audience_is_accepted = audience_is_accepted (mn_verifier m)\<rparr>\<rparr>"

text \<open>The token a call of \<open>assume_role_from_params\<close> hands to the verifier: none if it is refused before.\<close>

definition token_asked :: "params \<Rightarrow> string option" where
  "token_asked ps =
     (if params_get ps ''Action'' = Some assume_role_action \<and>
         (case params_get ps ''Version'' of Some v \<Rightarrow> v = [] \<or> v = ''2011-06-15'' | None \<Rightarrow> True)
      then case from_params ps of
             Inl _ \<Rightarrow> None
           | Inr req \<Rightarrow> (case role_arn_parse (aq_role_arn req) of Inl _ \<Rightarrow> None | Inr _ \<Rightarrow> Some (aq_web_identity_token req))
      else None)"

definition jwks_after :: "('k, 's) mint_env \<Rightarrow> 'k mint \<Rightarrow> params \<Rightarrow> 's \<Rightarrow> 's" where
  "jwks_after env m ps cache =
     (case token_asked ps of
        None \<Rightarrow> cache
      | Some token \<Rightarrow> snd (verify_token (me_jwt env) (mn_verifier m) (me_fetched env) token cache))"

definition xml_error :: "sts_refusal \<Rightarrow> string \<Rightarrow> http_answer" where
  "xml_error why request_id = no_store_answer (sts_refusal_status why) ''text/xml'' (render_error_response why request_id)"

definition route_sts ::
  "('k, 's) mint_env \<Rightarrow> 'k mint \<Rightarrow> web_identity_sts \<Rightarrow> params \<Rightarrow> 's \<Rightarrow> http_answer \<times> 's" where
  "route_sts env m ws ps cache =
     (let cache1 = jwks_after env m ps cache
      in case assume_role_from_params (me_crypto env) (with_verifier env m cache ws) (me_clock env) ps (me_sid env) of
           Inr session \<Rightarrow>
             (no_store_answer 200 ''text/xml'' (render_assume_role_response (me_chrono env) session (me_request_id env)), cache1)
         | Inl why \<Rightarrow> (xml_error why (me_request_id env), cache1))"

definition request_params :: "string \<Rightarrow> string \<Rightarrow> params" where
  "request_params body query =
     (let ps = params_parse (from_utf8_lossy body)
      in if params_get ps ''Action'' = None \<and> query \<noteq> [] then params_parse query else ps)"

text \<open>The two doors, told apart by the \<open>Action\<close> parameter.\<close>

definition mint_doors ::
  "('k, 's) mint_env \<Rightarrow> 'k mint \<Rightarrow> params \<Rightarrow> string option \<Rightarrow> 's \<Rightarrow> http_answer \<times> 's" where
  "mint_doors env m ps bearer_token cache =
     (case params_get ps ''Action'' of
        Some action \<Rightarrow>
          (case mn_web_identity m of
             None \<Rightarrow> (xml_error (InvalidAction action) (me_request_id env), cache)
           | Some ws \<Rightarrow> route_sts env m ws ps cache)
      | None \<Rightarrow>
          (case bearer_token of
             None \<Rightarrow> (mint_json_error (me_show env) 401 ''missing bearer OIDC token'', cache)
           | Some token \<Rightarrow>
               (case mint_exchange env m token cache of
                  (Inr c, cache1) \<Rightarrow>
                    (no_store_answer 200 ''application/json'' (me_show env (minted_credentials (me_number env) c)), cache1)
                | (Inl e, cache1) \<Rightarrow> (mint_json_error (me_show env) 401 ''mint denied'', cache1))))"

definition mint_route ::
  "('k, 's) mint_env \<Rightarrow> 'k mint \<Rightarrow> mint_request \<Rightarrow> 's mint_state \<Rightarrow> http_answer \<times> 's mint_state" where
  "mint_route env m req st =
     (if mr_method req \<noteq> ''POST'' then (mint_json_error (me_show env) 405 ''use POST'', st)
      else case limited max_mint_body_bytes (mr_body req) of
        None \<Rightarrow>
          (mint_json_error (me_show env) 413 (''request body exceeds the mint'' @ [CHR 0x27] @ ''s limit''),
           st\<lparr>ms_metrics := (ms_metrics st)\<lparr>mm_bodies_too_large := mm_bodies_too_large (ms_metrics st) + 1\<rparr>\<rparr>)
      | Some body \<Rightarrow>
          (case mint_doors env m (request_params body (case mr_query req of Some q \<Rightarrow> q | None \<Rightarrow> []))
                  (bearer (mr_headers req)) (ms_jwks st) of
             (answer, cache) \<Rightarrow> (answer, st\<lparr>ms_jwks := cache\<rparr>)))"

section \<open>The bound on connections\<close>

record log_throttle =
  lt_interval :: nat
  lt_last :: int
  lt_suppressed :: u64

definition log_throttle_new :: "int \<Rightarrow> nat \<Rightarrow> log_throttle" where
  "log_throttle_new now interval =
     \<lparr>lt_interval = interval, lt_last = now - int interval - int interval, lt_suppressed = 0\<rparr>"

definition log_throttle_allow :: "int \<Rightarrow> log_throttle \<Rightarrow> u64 option \<times> log_throttle" where
  "log_throttle_allow now t =
     (if now - lt_last t < int (lt_interval t) then (None, t\<lparr>lt_suppressed := lt_suppressed t + 1\<rparr>)
      else (Some (lt_suppressed t), t\<lparr>lt_last := now, lt_suppressed := 0\<rparr>))"

text \<open>Where the accept loop stands: at its head, waiting for a permit, waiting for a connection, or past the shutdown signal.\<close>

datatype accept_phase = Head | AwaitPermit | AwaitConnection | Draining

record mint_server =
  sr_permits :: nat
  sr_phase :: accept_phase
  sr_open :: nat
  sr_metrics :: mint_metrics

definition mint_server_new :: "nat \<Rightarrow> mint_server" where
  "mint_server_new max_connections =
     \<lparr>sr_permits = max_connections, sr_phase = Head, sr_open = 0,
      sr_metrics = mint_metrics_default\<lparr>mm_connection_limit := of_nat max_connections\<rparr>\<rparr>"

definition try_acquire :: "mint_server \<Rightarrow> mint_server" where
  "try_acquire s =
     (if sr_permits s > 0 then s\<lparr>sr_permits := sr_permits s - 1, sr_phase := AwaitConnection\<rparr>
      else s\<lparr>sr_phase := AwaitPermit,
             sr_metrics := (sr_metrics s)\<lparr>mm_connection_limit_saturated := mm_connection_limit_saturated (sr_metrics s) + 1\<rparr>\<rparr>)"

definition accepted_connection :: "bool \<Rightarrow> mint_server \<Rightarrow> mint_server" where
  "accepted_connection ok s =
     (if ok then
        s\<lparr>sr_phase := Head, sr_open := Suc (sr_open s),
          sr_metrics := (sr_metrics s)\<lparr>mm_connections_accepted := mm_connections_accepted (sr_metrics s) + 1,
                                       mm_connections_active := mm_connections_active (sr_metrics s) + 1\<rparr>\<rparr>
      else s\<lparr>sr_phase := Head, sr_permits := Suc (sr_permits s)\<rparr>)"

definition connection_ended :: "bool \<Rightarrow> mint_server \<Rightarrow> mint_server" where
  "connection_ended timed_out s =
     (let m = sr_metrics s;
          m = (if timed_out then m\<lparr>mm_connection_timeouts := mm_connection_timeouts m + 1\<rparr> else m)
      in s\<lparr>sr_open := sr_open s - 1, sr_permits := Suc (sr_permits s),
           sr_metrics := m\<lparr>mm_connections_active := mm_connections_active m - 1\<rparr>\<rparr>)"

inductive mint_serves :: "nat \<Rightarrow> mint_server \<Rightarrow> bool" for n where
  listening: "mint_serves n (mint_server_new n)"
| at_head: "mint_serves n s \<Longrightarrow> sr_phase s = Head \<Longrightarrow> mint_serves n (try_acquire s)"
| permit_freed: "mint_serves n s \<Longrightarrow> sr_phase s = AwaitPermit \<Longrightarrow> sr_permits s > 0 \<Longrightarrow>
    mint_serves n (s\<lparr>sr_permits := sr_permits s - 1, sr_phase := AwaitConnection\<rparr>)"
| accept: "mint_serves n s \<Longrightarrow> sr_phase s = AwaitConnection \<Longrightarrow> mint_serves n (accepted_connection ok s)"
| signal_waiting: "mint_serves n s \<Longrightarrow> sr_phase s = AwaitPermit \<Longrightarrow> mint_serves n (s\<lparr>sr_phase := Draining\<rparr>)"
| signal_idle: "mint_serves n s \<Longrightarrow> sr_phase s = AwaitConnection \<Longrightarrow>
    mint_serves n (s\<lparr>sr_phase := Draining, sr_permits := Suc (sr_permits s)\<rparr>)"
| ended: "mint_serves n s \<Longrightarrow> sr_open s > 0 \<Longrightarrow> mint_serves n (connection_ended timed_out s)"

section \<open>The control plane's listener\<close>

record shared_secret_auth =
  ss_key :: string
  ss_tag :: "string option"

definition shared_secret_auth_new :: "crypto \<Rightarrow> string \<Rightarrow> string option \<Rightarrow> shared_secret_auth" where
  "shared_secret_auth_new cr blinding_key configured =
     \<lparr>ss_key = blinding_key,
      ss_tag = (case configured of
                  Some s \<Rightarrow> if trim s \<noteq> [] then Some (cr_hmac cr blinding_key s) else None
                | None \<Rightarrow> None)\<rparr>"

definition constant_time_eq :: "string \<Rightarrow> string \<Rightarrow> bool" where
  "constant_time_eq a b = (fold (\<lambda>i diff. or diff (xor (of_char (a ! i)) (of_char (b ! i)))) [0..<32] (0 :: 8 word) = 0)"

definition shared_secret_header :: string where
  "shared_secret_header = ''x-shared-secret''"

definition secret_accepts :: "crypto \<Rightarrow> shared_secret_auth \<Rightarrow> header_map \<Rightarrow> bool" where
  "secret_accepts cr a headers =
     (case ss_tag a of
        None \<Rightarrow> False
      | Some expected \<Rightarrow>
          (case get_header headers shared_secret_header of
             None \<Rightarrow> False
           | Some presented \<Rightarrow> constant_time_eq expected (cr_hmac cr (ss_key a) presented)))"

record session_request =
  sq_sub :: string
  sq_principal_type :: principal_type
  sq_tenant :: string
  sq_organization_id :: string
  sq_groups :: "string list"
  sq_duration_seconds :: u64

record derived_key_request =
  dq_sub :: string
  dq_principal_type :: principal_type
  dq_tenant :: string
  dq_organization_id :: string
  dq_key_epoch :: "u32 option"

datatype session_refusal =
    Unauthenticated
  | Malformed string
  | SessionEmptySubject
  | ZeroDuration
  | SessionUnroutableTenant string
  | SessionOrganizationMismatch
  | SessionMintFailed string

fun session_refusal_status :: "session_refusal \<Rightarrow> nat" where
  "session_refusal_status Unauthenticated = 401"
| "session_refusal_status (SessionMintFailed _) = 500"
| "session_refusal_status _ = 400"

fun session_refusal_message :: "session_refusal \<Rightarrow> string" where
  "session_refusal_message Unauthenticated = ''unauthenticated''"
| "session_refusal_message (Malformed why) = ''malformed session request: '' @ why"
| "session_refusal_message SessionEmptySubject = ''sub must be non-empty''"
| "session_refusal_message ZeroDuration = ''duration_seconds must be > 0''"
| "session_refusal_message (SessionUnroutableTenant t) = ''tenant '' @ debug_str t @ '' is not routable on this gateway''"
| "session_refusal_message SessionOrganizationMismatch =
     ''organization_id disagrees with this gateway'' @ [CHR 0x27] @ ''s tenant binding''"
| "session_refusal_message (SessionMintFailed why) = ''mint failed: '' @ why"

record internal_api =
  ia_auth :: shared_secret_auth
  ia_sts :: sts_authority
  ia_registry :: backend_registry
  ia_max_ttl_secs :: u64
  ia_derived :: "derived_keys option"

definition internal_api_new ::
  "crypto \<Rightarrow> string \<Rightarrow> internal_api_config \<Rightarrow> sts_authority \<Rightarrow> backend_registry \<Rightarrow> internal_api" where
  "internal_api_new cr blinding_key cfg sts reg =
     \<lparr>ia_auth = shared_secret_auth_new cr blinding_key (ic_shared_secret cfg), ia_sts = sts, ia_registry = reg,
      ia_max_ttl_secs = ic_max_session_ttl_secs cfg, ia_derived = None\<rparr>"

definition with_derived_keys :: "derived_keys option \<Rightarrow> internal_api \<Rightarrow> internal_api" where
  "with_derived_keys derived api = api\<lparr>ia_derived := derived\<rparr>"

definition clamp_ttl :: "internal_api \<Rightarrow> u64 \<Rightarrow> u64" where
  "clamp_ttl api requested = (if requested > ia_max_ttl_secs api then ia_max_ttl_secs api else requested)"

definition internal_claims :: "internal_api \<Rightarrow> u64 \<Rightarrow> session_request \<Rightarrow> string \<Rightarrow> session_claims" where
  "internal_claims api now req sid =
     \<lparr>sc_sub = sq_sub req, sc_principal_type = sq_principal_type req, sc_groups = sq_groups req, sc_tenant = sq_tenant req,
      sc_org = sq_organization_id req, sc_sid = sid, sc_exp = now + clamp_ttl api (sq_duration_seconds req)\<rparr>"

definition mint_session ::
  "crypto \<Rightarrow> internal_api \<Rightarrow> string + u64 \<Rightarrow> session_request \<Rightarrow> string \<Rightarrow> session_refusal + session_credentials" where
  "mint_session cr api clock req sid =
     (if trim (sq_sub req) = [] then Inl SessionEmptySubject
      else if sq_duration_seconds req = 0 then Inl ZeroDuration
      else case route_snapshot_for (ia_registry api) (sq_tenant req) of
        None \<Rightarrow> Inl (SessionUnroutableTenant (sq_tenant req))
      | Some route \<Rightarrow>
          if rs_organization_id route \<noteq> sq_organization_id req then Inl SessionOrganizationMismatch
          else case clock of
            Inl e \<Rightarrow> Inl (SessionMintFailed (''clock: '' @ e))
          | Inr now \<Rightarrow>
              (case sts_mint cr (ia_sts api) sid (internal_claims api now req sid) of
                 Inl e \<Rightarrow> Inl (SessionMintFailed (gateway_error_display e))
               | Inr c \<Rightarrow> Inr c))"

fun derived_mint_status :: "derived_mint_refusal \<Rightarrow> nat" where
  "derived_mint_status (NotEnabledForTenant _) = 409"
| "derived_mint_status (EpochBelowFloor _ _) = 409"
| "derived_mint_status (MintFailed _) = 500"
| "derived_mint_status _ = 400"

definition internal_json_error :: "(json \<Rightarrow> string) \<Rightarrow> nat \<Rightarrow> string \<Rightarrow> http_answer" where
  "internal_json_error show status msg = no_store_answer status ''application/json'' (error_body show msg)"

definition refuse_session :: "(json \<Rightarrow> string) \<Rightarrow> session_refusal \<Rightarrow> http_answer" where
  "refuse_session show why = internal_json_error show (session_refusal_status why) (session_refusal_message why)"

text \<open>The deserializers of the two request bodies, the JSON writer, the clock and the fresh session id.\<close>

record internal_env =
  ie_crypto :: crypto
  ie_show :: "json \<Rightarrow> string"
  ie_number :: "nat \<Rightarrow> json"
  ie_session_request :: "string \<Rightarrow> string + session_request"
  ie_derived_request :: "string \<Rightarrow> string + derived_key_request"
  ie_clock :: "string + u64"
  ie_sid :: string

definition minted_derived_key_response :: "(nat \<Rightarrow> json) \<Rightarrow> minted_derived_key \<Rightarrow> json" where
  "minted_derived_key_response number m =
     JObj [(''access_key_id'', JStr (dc_access_key_id (mk_credential m))),
           (''secret_access_key'', JStr (dc_secret_access_key (mk_credential m))),
           (''key_epoch'', number (unat (mk_key_epoch m))), (''kid'', JStr (mk_kid m))]"

definition route_derived_key :: "internal_env \<Rightarrow> internal_api \<Rightarrow> string \<Rightarrow> http_answer" where
  "route_derived_key env api body =
     (case ia_derived api of
        None \<Rightarrow>
          internal_json_error (ie_show env) 409
            (''long-lived keys are not configured on this gateway (no `derived_keys` section); the path exists but the feature is off'')
      | Some derived \<Rightarrow>
          (case ie_derived_request env body of
             Inl e \<Rightarrow> refuse_session (ie_show env) (Malformed (''malformed derived key request: '' @ e))
           | Inr req \<Rightarrow>
               (case derived_keys_mint (ie_crypto env) derived (dq_tenant req) (dq_organization_id req) (dq_principal_type req)
                       (dq_sub req) (dq_key_epoch req) of
                  Inr m \<Rightarrow>
                    no_store_answer 200 ''application/json'' (ie_show env (minted_derived_key_response (ie_number env) m))
                | Inl why \<Rightarrow>
                    internal_json_error (ie_show env) (derived_mint_status why) (derived_mint_refusal_message why))))"

definition internal_max_body_bytes :: nat where
  "internal_max_body_bytes = 16 * 1024"

definition session_path :: string where
  "session_path = ''/internal/v1/sts/sessions''"

definition derived_key_path :: string where
  "derived_key_path = ''/internal/v1/derived-keys''"

definition internal_route :: "internal_env \<Rightarrow> internal_api \<Rightarrow> mint_request \<Rightarrow> http_answer" where
  "internal_route env api req =
     (if \<not> secret_accepts (ie_crypto env) (ia_auth api) (mr_headers req) then refuse_session (ie_show env) Unauthenticated
      else if mr_method req \<noteq> ''POST'' then internal_json_error (ie_show env) 405 ''use POST''
      else if mr_path req \<noteq> session_path \<and> mr_path req \<noteq> derived_key_path then
        internal_json_error (ie_show env) 404 ''not found''
      else case limited internal_max_body_bytes (mr_body req) of
        None \<Rightarrow>
          refuse_session (ie_show env)
            (Malformed (''body exceeds '' @ nat_digits internal_max_body_bytes @ '' bytes or could not be read''))
      | Some body \<Rightarrow>
          if mr_path req = derived_key_path then route_derived_key env api body
          else case ie_session_request env body of
            Inl e \<Rightarrow> refuse_session (ie_show env) (Malformed e)
          | Inr parsed \<Rightarrow>
              (case mint_session (ie_crypto env) api (ie_clock env) parsed (ie_sid env) of
                 Inr c \<Rightarrow> no_store_answer 200 ''application/json'' (ie_show env (minted_credentials (ie_number env) c))
               | Inl why \<Rightarrow> refuse_session (ie_show env) why))"

section \<open>The verifier's key set\<close>

text \<open>What a lookup in a key set promises: an empty set holds no key.\<close>

definition jwt_lib_ok :: "('k, 's) jwt_lib \<Rightarrow> bool" where
  "jwt_lib_ok jl \<longleftrightarrow> (\<forall>s kid. jl_find jl s kid \<noteq> None \<longrightarrow> jl_count jl s \<noteq> 0)"

lemma token_asked_steers:
  "assume_role_from_params cr (ws\<lparr>ws_verifier := v\<rparr>) clock ps sid = assume_role_from_params cr (ws\<lparr>ws_verifier := v'\<rparr>) clock ps sid"
  if "token_asked ps = None"
proof (cases "params_get ps ''Action'' = Some assume_role_action \<and>
    (case params_get ps ''Version'' of Some v \<Rightarrow> v = [] \<or> v = ''2011-06-15'' | None \<Rightarrow> True)")
  case True
  have "assume_role cr (ws\<lparr>ws_verifier := v\<rparr>) clock req sid = assume_role cr (ws\<lparr>ws_verifier := v'\<rparr>) clock req sid"
    if "from_params ps = Inr req" for req
    using that \<open>token_asked ps = None\<close> True by (cases "role_arn_parse (aq_role_arn req)") (auto simp: token_asked_def assume_role_def)
  then show ?thesis using True
    by (cases "from_params ps"; cases "params_get ps ''Version''") (auto simp: assume_role_from_params_def)
next
  case False
  then show ?thesis by (auto simp: assume_role_from_params_def Let_def split: option.splits)
qed

lemma decoding_key_cache:
  "snd (decoding_key jl v fetched token cache) = cache \<or>
   (\<exists>fresh kid. fetched = Inr fresh \<and> snd (decoding_key jl v fetched token cache) = fresh \<and>
      jl_header_kid jl token = Inr (Some kid) \<and> jl_find jl cache kid = None \<and> jl_find jl fresh kid \<noteq> None)"
  by (auto simp: decoding_key_def split: key_source.splits sum.splits option.splits)

lemma verify_cache:
  "snd (verify_token jl v fetched token cache) = snd (decoding_key jl v fetched token cache)"
  "snd (oidc_verify jl v fetched token cache) = snd (decoding_key jl v fetched token cache)"
  by (auto simp: verify_token_def oidc_verify_def split: prod.splits sum.splits jwt_error.splits)

lemma mint_exchange_cache:
  "snd (mint_exchange env m token cache) = snd (decoding_key (me_jwt env) (mn_verifier m) (me_fetched env) token cache)"
  using verify_cache(2) [of "me_jwt env" "mn_verifier m" "me_fetched env" token cache]
  by (auto simp: mint_exchange_def split: prod.splits sum.splits)

lemma route_sts_cache: "snd (route_sts env m ws ps cache) = jwks_after env m ps cache"
  by (auto simp: route_sts_def Let_def split: sum.splits)

lemma jwks_after_cache:
  "jwks_after env m ps cache = cache \<or>
   (\<exists>token. jwks_after env m ps cache = snd (decoding_key (me_jwt env) (mn_verifier m) (me_fetched env) token cache))"
  by (auto simp: jwks_after_def verify_cache split: option.splits)

lemma mint_doors_cache:
  "snd (mint_doors env m ps bt cache) = cache \<or>
   (\<exists>token. snd (mint_doors env m ps bt cache) = snd (decoding_key (me_jwt env) (mn_verifier m) (me_fetched env) token cache))"
proof (cases "params_get ps ''Action''")
  case None
  have "snd (mint_doors env m ps bt cache) = (case bt of None \<Rightarrow> cache | Some token \<Rightarrow> snd (mint_exchange env m token cache))"
    by (simp add: mint_doors_def None split: option.split prod.split sum.split)
  then show ?thesis by (cases bt) (auto simp: mint_exchange_cache)
next
  case (Some action)
  have "snd (mint_doors env m ps bt cache) = (case mn_web_identity m of None \<Rightarrow> cache | Some ws \<Rightarrow> jwks_after env m ps cache)"
    by (simp add: mint_doors_def Some route_sts_cache split: option.split)
  then show ?thesis using jwks_after_cache [of env m ps cache] by (cases "mn_web_identity m") auto
qed

lemma mint_route_jwks:
  "\<exists>ps bt. ms_jwks (snd (mint_route env m req st)) \<in> {ms_jwks st, snd (mint_doors env m ps bt (ms_jwks st))}"
proof (cases "mr_method req \<noteq> ''POST'' \<or> limited max_mint_body_bytes (mr_body req) = None")
  case True
  then have "ms_jwks (snd (mint_route env m req st)) = ms_jwks st" by (elim disjE) (simp_all add: mint_route_def)
  then show ?thesis by simp
next
  case False
  then obtain body where "mr_method req = ''POST''" "limited max_mint_body_bytes (mr_body req) = Some body" by auto
  then show ?thesis by (auto simp: mint_route_def split_beta)
qed

lemma mint_route_cache:
  "ms_jwks (snd (mint_route env m req st)) = ms_jwks st \<or>
   (\<exists>token. ms_jwks (snd (mint_route env m req st)) = snd (decoding_key (me_jwt env) (mn_verifier m) (me_fetched env) token (ms_jwks st)))"
proof -
  obtain ps bt where "ms_jwks (snd (mint_route env m req st)) \<in> {ms_jwks st, snd (mint_doors env m ps bt (ms_jwks st))}"
    using mint_route_jwks [of env m req st] by blast
  then show ?thesis using mint_doors_cache [of env m ps bt "ms_jwks st"] by auto
qed

datatype ('k, 's) mint_event = RefreshKeys "gateway_error + 's" | ServeMint "('k, 's) mint_env" mint_request

fun offered_keys :: "('k, 's) mint_event \<Rightarrow> gateway_error + 's" where
  "offered_keys (RefreshKeys fetched) = fetched"
| "offered_keys (ServeMint env req) = me_fetched env"

fun mint_event_step :: "('k, 's) jwt_lib \<Rightarrow> 'k mint \<Rightarrow> ('k, 's) mint_event \<Rightarrow> 's mint_state \<Rightarrow> 's mint_state" where
  "mint_event_step jl m (RefreshKeys fetched) st =
     st\<lparr>ms_jwks := snd (refresh_jwks jl (mn_verifier m) fetched (ms_jwks st))\<rparr>"
| "mint_event_step jl m (ServeMint env req) st = snd (mint_route (env\<lparr>me_jwt := jl\<rparr>) m req st)"

lemma mint_event_step_cache:
  assumes "jwt_lib_ok jl"
  shows "ms_jwks (mint_event_step jl m ev st) = ms_jwks st \<or>
    (\<exists>fresh. offered_keys ev = Inr fresh \<and> ms_jwks (mint_event_step jl m ev st) = fresh \<and>
       (jl_count jl fresh = 0 \<longrightarrow> jl_count jl (ms_jwks st) = 0))"
proof (cases ev)
  case (RefreshKeys fetched)
  then show ?thesis by (auto simp: refresh_jwks_def split: key_source.splits sum.splits)
next
  case (ServeMint env req)
  note route = mint_route_cache [of "env\<lparr>me_jwt := jl\<rparr>" m req st, simplified]
  show ?thesis
  proof (cases "ms_jwks (snd (mint_route (env\<lparr>me_jwt := jl\<rparr>) m req st)) = ms_jwks st")
    case False
    with route obtain token where t: "ms_jwks (snd (mint_route (env\<lparr>me_jwt := jl\<rparr>) m req st)) =
        snd (decoding_key jl (mn_verifier m) (me_fetched env) token (ms_jwks st))" by blast
    with False decoding_key_cache [of jl "mn_verifier m" "me_fetched env" token "ms_jwks st"]
    obtain fresh kid where "me_fetched env = Inr fresh" "jl_find jl fresh kid \<noteq> None"
      "ms_jwks (snd (mint_route (env\<lparr>me_jwt := jl\<rparr>) m req st)) = fresh" by metis
    moreover from this(2) assms have "jl_count jl fresh \<noteq> 0" unfolding jwt_lib_ok_def by blast
    ultimately show ?thesis by (simp add: ServeMint)
  qed (simp add: ServeMint)
qed

text \<open>C24: The verifier's key set cannot be emptied. Through any interleaving of timed refreshes and requests, whoever sends
  them and whatever the key endpoint answers, a mint that starts with signing keys has signing keys: its set is the one it had
  or one the endpoint served with at least one key in it. So neither a failing endpoint, nor one that serves an empty
  document, nor a flood of tokens with made-up key ids locks every client out.\<close>
theorem jwks_never_emptied:
  assumes "jwt_lib_ok jl" and "jl_count jl (ms_jwks st) \<noteq> 0"
  shows "jl_count jl (ms_jwks (fold (mint_event_step jl m) evs st)) \<noteq> 0 \<and>
    ms_jwks (fold (mint_event_step jl m) evs st) \<in> insert (ms_jwks st) {fresh. Inr fresh \<in> offered_keys ` set evs}"
  using assms(2)
proof (induction evs arbitrary: st)
  case (Cons ev evs)
  note step = mint_event_step_cache [OF assms(1), of m ev st]
  then have "jl_count jl (ms_jwks (mint_event_step jl m ev st)) \<noteq> 0" using Cons.prems by auto
  from Cons.IH [OF this] step show ?case by (auto simp: image_iff)
qed simp

definition demo_jwt :: "(nat, (string \<times> nat) list) jwt_lib" where
  "demo_jwt = \<lparr>jl_header_kid = (\<lambda>token. Inr (Some token)), jl_find = (\<lambda>s kid. map_option Inr (map_of s kid)), jl_count = length,
     jl_decode = (\<lambda>token key v. Inr (JObj [])), jl_show_error = (\<lambda>_. [])\<rparr>"

definition demo_oidc_mint :: "nat mint" where
  "demo_oidc_mint = \<lparr>mn_verifier = \<lparr>sv_key_source = Jwks ''https://idp/jwks'' 300, sv_issuer = ''iss'', sv_audience = ''aud'',
       sv_claims = \<lparr>cn_sub = ''sub'', cn_groups = ''groups'', cn_tenant = ''tenant'', cn_org = ''org''\<rparr>, sv_web_identity_audiences = []\<rparr>,
     mn_sts = \<lparr>sa_master_keys = [(''v1'', demo_key)], sa_current_kid = ''v1'', sa_signing_key = demo_signing_key\<rparr>,
     mn_ttl = 60, mn_web_identity = None, mn_limits = mint_limits_default\<rparr>"

text \<open>The endpoint serves an empty document, then a rotated set.\<close>

theorem jwks_never_emptied_witness:
  "fold (mint_event_step demo_jwt demo_oidc_mint) [RefreshKeys (Inr []), RefreshKeys (Inr [(''k2'', 2)])]
     \<lparr>ms_jwks = [(''k1'', 1)], ms_metrics = mint_metrics_default\<rparr> = \<lparr>ms_jwks = [(''k2'', 2)], ms_metrics = mint_metrics_default\<rparr> \<and>
   ms_jwks (fold (mint_event_step demo_jwt demo_oidc_mint) [RefreshKeys (Inr []), RefreshKeys (Inr [(''k2'', 2)])]
     \<lparr>ms_jwks = [(''k1'', 1)], ms_metrics = mint_metrics_default\<rparr>) \<noteq> []"
proof -
  have "jwt_lib_ok demo_jwt" by (auto simp: jwt_lib_ok_def demo_jwt_def)
  from jwks_never_emptied [OF this, of "\<lparr>ms_jwks = [(''k1'', 1)], ms_metrics = mint_metrics_default\<rparr>" demo_oidc_mint
      "[RefreshKeys (Inr []), RefreshKeys (Inr [(''k2'', 2)])]"]
  show ?thesis by (simp add: demo_jwt_def demo_oidc_mint_def refresh_jwks_def)
qed

section \<open>Connections\<close>

definition accepting :: "mint_server \<Rightarrow> nat" where
  "accepting s = (if sr_phase s = AwaitConnection then 1 else 0)"

lemmas server_steps = try_acquire_def accepted_connection_def connection_ended_def mint_server_new_def mint_metrics_default_def accepting_def Let_def

lemma mint_serves_inv:
  assumes "mint_serves n s"
  shows "sr_permits s + sr_open s + accepting s = n"
    and "mm_connections_active (sr_metrics s) = of_nat (sr_open s)"
proof -
  from assms show "sr_permits s + sr_open s + accepting s = n" by induction (auto simp: server_steps)
  from assms show "mm_connections_active (sr_metrics s) = of_nat (sr_open s)"
    by induction (auto simp: server_steps of_nat_diff algebra_simps gr0_conv_Suc)
qed

text \<open>C23: The mint never serves more connections than it is configured for, whatever anonymous clients do. In every state
  the accept loop and its connection tasks reach, permits are neither lost nor duplicated: those free, those held by open
  connections and the one held across \<open>accept\<close> add up to \<open>max_connections\<close>, so at most that many connections are open. The gauge
  on the metrics page is their exact number, and a loop that waits for a permit gets one as soon as a connection ends.\<close>
theorem mint_connections_bounded:
  assumes "mint_serves n s"
  shows "sr_permits s + sr_open s + accepting s = n \<and> sr_open s \<le> n \<and>
    (n < 2 ^ 64 \<longrightarrow> unat (mm_connections_active (sr_metrics s)) = sr_open s) \<and>
    (sr_phase s = AwaitPermit \<and> sr_open s > 0 \<longrightarrow>
       mint_serves n ((connection_ended timed_out s)\<lparr>sr_permits := sr_permits s, sr_phase := AwaitConnection\<rparr>))"
proof -
  note inv = mint_serves_inv [OF assms]
  moreover have "unat (mm_connections_active (sr_metrics s)) = sr_open s" if "n < 2 ^ 64"
    using inv that by (simp add: unat_of_nat)
  moreover have "mint_serves n ((connection_ended timed_out s)\<lparr>sr_permits := sr_permits s, sr_phase := AwaitConnection\<rparr>)"
    if "sr_phase s = AwaitPermit" "sr_open s > 0"
    using permit_freed [OF ended [OF assms that(2), of timed_out]] that by (simp add: connection_ended_def Let_def)
  ultimately show ?thesis by auto
qed

definition demo_full :: mint_server where
  "demo_full = try_acquire (accepted_connection True (try_acquire (mint_server_new 1)))"

lemma demo_full_served: "mint_serves 1 demo_full"
  unfolding demo_full_def
  by (intro at_head accept listening) (simp_all add: server_steps)

theorem mint_connections_bounded_witness:
  "sr_open demo_full \<le> 1 \<and> sr_phase demo_full = AwaitPermit \<and> sr_open demo_full = 1 \<and>
   mint_serves 1 ((connection_ended True demo_full)\<lparr>sr_permits := 0, sr_phase := AwaitConnection\<rparr>)"
proof -
  have "sr_open demo_full = 1" "sr_phase demo_full = AwaitPermit" "sr_permits demo_full = 0"
    by (simp_all add: demo_full_def server_steps)
  with mint_connections_bounded [OF demo_full_served, of True] show ?thesis by simp
qed

section \<open>The control plane's secret\<close>

lemma constant_time_fold:
  "fold (\<lambda>i diff. or diff (f i)) is (d :: 8 word) = 0 \<longleftrightarrow> d = 0 \<and> (\<forall>i \<in> set is. f i = 0)"
  by (induction "is" arbitrary: d) (auto simp: or_eq_0_iff)

lemma of_char_xor: "xor (of_char a :: 8 word) (of_char b) = 0 \<longleftrightarrow> a = b"
proof -
  have "(of_char a :: 8 word) = of_char b \<longleftrightarrow> a = b"
  proof
    assume "(of_char a :: 8 word) = of_char b"
    then have "(of_nat (of_char a) :: 8 word) = of_nat (of_char b)" by (simp only: of_nat_of_char)
    then have "(of_char a :: nat) mod 256 = of_char b mod 256" by (simp add: of_nat_eq_iff word_of_nat_eq_iff take_bit_eq_mod)
    then show "a = b" by (metis of_char_mod_256 of_char_eq_iff)
  qed simp
  moreover have "xor x y = 0 \<longleftrightarrow> x = y" for x y :: "8 word"
  proof
    assume "xor x y = 0"
    then have "xor (xor x y) y = y" by simp
    then show "x = y" by (simp add: xor.assoc)
  qed simp
  ultimately show ?thesis by simp
qed

text \<open>The fold without an early exit decides equality of two tags.\<close>

lemma constant_time_eq_iff:
  assumes "length a = 32" and "length b = 32"
  shows "constant_time_eq a b \<longleftrightarrow> a = b"
  using assms by (auto simp: constant_time_eq_def constant_time_fold of_char_xor intro!: nth_equalityI)


lemma secret_accepts_iff:
  assumes "crypto_ok cr"
  shows "secret_accepts cr (shared_secret_auth_new cr key configured) headers \<longleftrightarrow>
    (\<exists>s p. configured = Some s \<and> trim s \<noteq> [] \<and> get_header headers shared_secret_header = Some p \<and> cr_hmac cr key p = cr_hmac cr key s)"
proof -
  have "constant_time_eq (cr_hmac cr key s) (cr_hmac cr key p) \<longleftrightarrow> cr_hmac cr key p = cr_hmac cr key s" for s p
    using assms by (subst constant_time_eq_iff) (auto simp: crypto_ok_def)
  then show ?thesis
    by (auto simp: secret_accepts_def shared_secret_auth_new_def split: option.splits)
qed

lemma refused_status: "ha_status (refuse_session show why) = 401 \<longleftrightarrow> why = Unauthenticated"
  by (cases why) (simp_all add: refuse_session_def internal_json_error_def no_store_answer_def)

lemma mint_session_not_unauthenticated: "mint_session cr api clock req sid \<noteq> Inl Unauthenticated"
  by (auto simp: mint_session_def split: option.splits sum.splits if_splits)

lemma route_derived_key_status: "ha_status (route_derived_key env api body) \<noteq> 401"
proof -
  have "derived_mint_status why \<noteq> 401" for why by (cases why) simp_all
  then show ?thesis
    by (auto simp: route_derived_key_def refused_status internal_json_error_def no_store_answer_def split: option.splits sum.splits)
qed

lemma internal_route_status:
  "ha_status (internal_route env api req) = 401 \<longleftrightarrow> \<not> secret_accepts (ie_crypto env) (ia_auth api) (mr_headers req)"
proof (cases "secret_accepts (ie_crypto env) (ia_auth api) (mr_headers req)")
  case True
  have "ha_status (no_store_answer 200 t b) \<noteq> 401" "ha_status (internal_json_error f 405 x) \<noteq> 401" "ha_status (internal_json_error f 404 x) \<noteq> 401" for t b f x
    by (simp_all add: no_store_answer_def internal_json_error_def)
  moreover have "Inl Unauthenticated \<noteq> mint_session cr api clock parsed sid" for cr clock parsed sid
    using mint_session_not_unauthenticated by metis
  ultimately show ?thesis using True
    by (simp add: internal_route_def refused_status route_derived_key_status split: option.split sum.split)
      (metis mint_session_not_unauthenticated)
qed (simp add: internal_route_def refused_status)

text \<open>C14: The control plane's listener answers nobody without the secret. Whatever a request asks for, it gets something
  other than the 401 refusal exactly if a non-blank secret is configured and the request's header carries a value with the same
  HMAC; all others get one and the same answer, which depends neither on method, path or body nor on whether a secret is
  configured at all. The comparison that runs in constant time decides equality.\<close>
theorem internal_route_authenticated:
  assumes "crypto_ok (ie_crypto env)"
    and "ia_auth api = shared_secret_auth_new (ie_crypto env) key (ic_shared_secret cfg)"
  shows "(ha_status (internal_route env api req) \<noteq> 401 \<longleftrightarrow>
      (\<exists>s p. ic_shared_secret cfg = Some s \<and> trim s \<noteq> [] \<and> get_header (mr_headers req) shared_secret_header = Some p \<and>
         cr_hmac (ie_crypto env) key p = cr_hmac (ie_crypto env) key s)) \<and>
    (ha_status (internal_route env api req) = 401 \<longrightarrow>
       internal_route env api req = refuse_session (ie_show env) Unauthenticated)"
  unfolding internal_route_status assms(2) secret_accepts_iff [OF assms(1)] not_not
  using secret_accepts_iff [OF assms(1), of key "ic_shared_secret cfg" "mr_headers req"]
  by (auto simp: internal_route_def assms(2))


definition demo_api :: internal_api where
  "demo_api = \<lparr>ia_auth = shared_secret_auth_new demo_web_crypto ''k'' (Some ''hush''), ia_sts = id_sts demo_identity,
     ia_registry = demo_registry ''s1'', ia_max_ttl_secs = 60, ia_derived = None\<rparr>"

definition demo_internal_env :: internal_env where
  "demo_internal_env = \<lparr>ie_crypto = demo_web_crypto, ie_show = (\<lambda>_. ''{}''), ie_number = (\<lambda>_. JNull),
     ie_session_request = (\<lambda>_. Inr \<lparr>sq_sub = ''u1'', sq_principal_type = User, sq_tenant = ''acme'', sq_organization_id = ''org1'',
       sq_groups = [], sq_duration_seconds = 7200\<rparr>),
     ie_derived_request = (\<lambda>_. Inl ''unused''), ie_clock = Inr 5, ie_sid = ''s1''\<rparr>"

definition demo_internal_request :: "header_map \<Rightarrow> mint_request" where
  "demo_internal_request hs = \<lparr>mr_method = ''POST'', mr_path = session_path, mr_query = None, mr_headers = hs, mr_body = Some ''{}''\<rparr>"

text \<open>A MAC that tells the two secrets apart.\<close>

definition demo_mac_crypto :: crypto where
  "demo_mac_crypto = demo_web_crypto\<lparr>cr_hmac := (\<lambda>k m. take 32 (m @ replicate 32 CHR ''m''))\<rparr>"

lemma demo_mac_crypto_ok: "crypto_ok demo_mac_crypto"
  using demo_web_crypto_ok unfolding crypto_ok_def demo_mac_crypto_def by (simp add: min_def)

lemma demo_macs: "cr_hmac demo_mac_crypto k ''guess'' \<noteq> cr_hmac demo_mac_crypto k ''hush''"
  by (simp add: demo_mac_crypto_def)

theorem internal_route_authenticated_witness:
  "let env = demo_internal_env\<lparr>ie_crypto := demo_mac_crypto\<rparr>;
       api = demo_api\<lparr>ia_auth := shared_secret_auth_new demo_mac_crypto ''k'' (Some ''hush'')\<rparr>
   in ha_status (internal_route env api (demo_internal_request [(''x-shared-secret'', ''hush'')])) \<noteq> 401 \<and>
      ha_status (internal_route env api (demo_internal_request [(''x-shared-secret'', ''guess'')])) = 401"
proof -
  let ?env = "demo_internal_env\<lparr>ie_crypto := demo_mac_crypto\<rparr>"
  let ?cfg = "\<lparr>ic_listen = undefined, ic_shared_secret = Some ''hush'', ic_max_session_ttl_secs = 60\<rparr>"
  define api where "api = demo_api\<lparr>ia_auth := shared_secret_auth_new demo_mac_crypto ''k'' (Some ''hush'')\<rparr>"
  have ok: "crypto_ok (ie_crypto ?env)" "ia_auth api = shared_secret_auth_new (ie_crypto ?env) ''k'' (ic_shared_secret ?cfg)"
    by (simp_all add: demo_mac_crypto_ok api_def)
  have "trim ''hush'' \<noteq> []" by code_simp
  with internal_route_authenticated [OF ok] demo_macs [of "''k''"]
  have "ha_status (internal_route ?env api (demo_internal_request [(''x-shared-secret'', v)])) \<noteq> 401 \<longleftrightarrow>
      cr_hmac demo_mac_crypto ''k'' v = cr_hmac demo_mac_crypto ''k'' ''hush''" for v
    by (simp add: demo_internal_request_def shared_secret_header_def get_header_def get_all_def)
  from this [of "''hush''"] this [of "''guess''"] demo_macs [of "''k''"] show ?thesis by (simp add: Let_def api_def)
qed

section \<open>The control plane's sessions\<close>

definition internal_door ::
  "crypto \<Rightarrow> sts_authority \<Rightarrow> backend_registry \<Rightarrow> u64 \<Rightarrow> u64 \<Rightarrow> string \<Rightarrow> session_claims \<Rightarrow> session_credentials \<Rightarrow> bool" where
  "internal_door cr a reg cap now sid claims c \<longleftrightarrow>
     (\<exists>api req. ia_sts api = a \<and> ia_registry api = reg \<and> ia_max_ttl_secs api = cap \<and>
        mint_session cr api (Inr now) req sid = Inr c \<and> claims = internal_claims api now req sid)"

lemma mint_session_steps:
  assumes "mint_session cr api (Inr now) req sid = Inr c"
  shows "sts_mint cr (ia_sts api) sid (internal_claims api now req sid) = Inr c"
    and "\<exists>route. route_snapshot_for (ia_registry api) (sq_tenant req) = Some route \<and> rs_organization_id route = sq_organization_id req"
  using assms by (auto simp: mint_session_def split: if_splits option.splits sum.splits)

interpretation control_plane: session_door internal_door
proof (unfold_locales, goal_cases)
  case (1 cr a reg cap now sid claims c)
  then show ?case using mint_session_steps(1) by (auto simp: internal_door_def)
next
  case (2 cr a reg cap now sid claims c)
  then show ?case using mint_session_steps(2) by (fastforce simp: internal_door_def internal_claims_def)
next
  case (3 cr a reg cap now sid claims c)
  then obtain api req where d: "ia_max_ttl_secs api = cap" "claims = internal_claims api now req sid" by (auto simp: internal_door_def)
  have "clamp_ttl api (sq_duration_seconds req) \<le> cap" using d by (simp add: clamp_ttl_def linorder_not_less)
  then show ?case using d by (auto simp: internal_claims_def)
qed

lemma internal_route_minted:
  assumes "ha_status (internal_route env api req) = 200" and "mr_path req = session_path"
  shows "\<exists>body q c. secret_accepts (ie_crypto env) (ia_auth api) (mr_headers req) \<and> mr_body req = Some body \<and>
    ie_session_request env body = Inr q \<and> mint_session (ie_crypto env) api (ie_clock env) q (ie_sid env) = Inr c \<and>
    internal_route env api req = no_store_answer 200 ''application/json'' (ie_show env (minted_credentials (ie_number env) c))"
proof -
  have p: "session_path \<noteq> derived_key_path" by (simp add: session_path_def derived_key_path_def)
  have r: "ha_status (refuse_session f why) = 200 \<longleftrightarrow> False" for f why
    by (cases why) (simp_all add: refuse_session_def internal_json_error_def no_store_answer_def)
  have e: "ha_status (internal_json_error f n x) = n" for f n x by (simp add: internal_json_error_def no_store_answer_def)
  have acc: "secret_accepts (ie_crypto env) (ia_auth api) (mr_headers req)"
    by (rule ccontr) (use assms(1) in \<open>simp add: internal_route_def r\<close>)
  have post: "mr_method req = ''POST''"
    by (rule ccontr) (use assms(1) acc in \<open>simp add: internal_route_def e\<close>)
  note step = internal_route_def [of env api req, unfolded assms(2), simplified acc post p not_True_eq_False if_False simp_thms]
  obtain body where b: "limited internal_max_body_bytes (mr_body req) = Some body"
    using assms(1) unfolding step by (cases "limited internal_max_body_bytes (mr_body req)") (simp_all add: r)
  obtain q where q: "ie_session_request env body = Inr q"
    using assms(1) unfolding step b by (cases "ie_session_request env body") (simp_all add: r)
  obtain c where c: "mint_session (ie_crypto env) api (ie_clock env) q (ie_sid env) = Inr c"
    using assms(1) unfolding step b by (cases "mint_session (ie_crypto env) api (ie_clock env) q (ie_sid env)") (simp_all add: r q)
  have "mr_body req = Some body" using b by (auto simp: limited_def bind_eq_Some_conv split: if_splits)
  then show ?thesis using acc b q c by (simp add: step)
qed

text \<open>C13: What the control plane mints, the data plane honours, and for no longer than configured. Whenever the session
  endpoint answers 200, the secret was presented, the body is the JSON of a fresh credential that no cache may keep, and the
  request named a tenant this gateway routes together with the organization it is bound to. The credential expires at most
  \<open>max_session_ttl_secs\<close> from now, whatever lifetime was asked for, and until then it resolves to the requested subject with
  the requested principal class - a service account stays one - in that tenant and organization.\<close>
theorem internal_session_resolves:
  assumes "ha_status (internal_route env api req) = 200" and "mr_path req = session_path"
    and "crypto_ok (ie_crypto env)" and "sts_with_key_ring ring cur sk = Inr (id_sts i)" and "ia_sts api = id_sts i"
    and "ie_clock env = Inr now" and "unat now + unat (ia_max_ttl_secs api) < 2 ^ 64"
  shows "\<exists>body q c route. secret_accepts (ie_crypto env) (ia_auth api) (mr_headers req) \<and> mr_body req = Some body \<and>
    ie_session_request env body = Inr q \<and>
    internal_route env api req = no_store_answer 200 ''application/json'' (ie_show env (minted_credentials (ie_number env) c)) \<and>
    route_snapshot_for (ia_registry api) (sq_tenant q) = Some route \<and> rs_organization_id route = sq_organization_id q \<and>
    unat (sn_expires_at c) \<le> unat now + unat (ia_max_ttl_secs api) \<and>
    (\<forall>later < unat (sn_expires_at c). \<exists>p.
       identity_resolve (ie_crypto env) i later (sn_access_key_id c) (Some (sn_session_token c)) = Inr p \<and>
       rp_sub p = sq_sub q \<and> rp_principal_type p = sq_principal_type q \<and> rp_tenant p = sq_tenant q \<and>
       rp_organization_id p = sq_organization_id q \<and>
       identity_secret_key (ie_crypto env) i (sn_access_key_id c) = Some (sn_secret_access_key c))"
proof -
  obtain body q c where m: "secret_accepts (ie_crypto env) (ia_auth api) (mr_headers req)" "mr_body req = Some body"
    "ie_session_request env body = Inr q" "mint_session (ie_crypto env) api (Inr now) q (ie_sid env) = Inr c"
    "internal_route env api req = no_store_answer 200 ''application/json'' (ie_show env (minted_credentials (ie_number env) c))"
    using internal_route_minted [OF assms(1,2)] assms(6) by auto
  have door: "internal_door (ie_crypto env) (ia_sts api) (ia_registry api) (ia_max_ttl_secs api) now (ie_sid env)
      (internal_claims api now q (ie_sid env)) c"
    using m(4) by (auto simp: internal_door_def)
  obtain route where route: "route_snapshot_for (ia_registry api) (sq_tenant q) = Some route" "rs_organization_id route = sq_organization_id q"
    using mint_session_steps(2) [OF m(4)] by blast
  have "\<exists>p. identity_resolve (ie_crypto env) i later (sn_access_key_id c) (Some (sn_session_token c)) = Inr p \<and>
       rp_sub p = sq_sub q \<and> rp_principal_type p = sq_principal_type q \<and> rp_tenant p = sq_tenant q \<and>
       rp_organization_id p = sq_organization_id q \<and>
       identity_secret_key (ie_crypto env) i (sn_access_key_id c) = Some (sn_secret_access_key c)"
    if "later < unat (sn_expires_at c)" for later
    using control_plane.door_resolves [OF door assms(3) _ assms(5) [symmetric] that, of ring cur sk] assms(4,5) route
    by (auto simp: internal_claims_def)
  with m route control_plane.door_expiry [OF door assms(7)] show ?thesis by blast
qed

lemma demo_minted:
  "mint_session demo_web_crypto demo_api (Inr 5) \<lparr>sq_sub = ''u1'', sq_principal_type = User, sq_tenant = ''acme'', sq_organization_id = ''org1'',
     sq_groups = [], sq_duration_seconds = 7200\<rparr> ''s1'' =
   Inr \<lparr>sn_access_key_id = ''HFSTv1.s1'', sn_secret_access_key = demo_key, sn_session_token = ''tok'', sn_expires_at = 65\<rparr>"
proof -
  have "trim ''u1'' \<noteq> []" by code_simp
  then show ?thesis
    by (simp add: mint_session_def demo_api_def route_snapshot_for_def demo_registry_def internal_claims_def clamp_ttl_def sts_mint_def
        demo_identity_def derive_secret_def demo_web_crypto_def demo_web_session_claims_def demo_crypto_def demo_key_def demo_backend_def
        sts_access_key_id_def access_key_id_for_def sts_prefix_def kid_sep_def)
qed

text \<open>Two hours were asked for; the configured minute is granted.\<close>

theorem internal_session_resolves_witness:
  "\<exists>c. unat (sn_expires_at c) \<le> 65 \<and> internal_route demo_internal_env demo_api (demo_internal_request [(''x-shared-secret'', ''hush'')]) =
     no_store_answer 200 ''application/json'' (ie_show demo_internal_env (minted_credentials (ie_number demo_internal_env) c))"
proof -
  let ?req = "demo_internal_request [(''x-shared-secret'', ''hush'')]"
  have "trim ''hush'' \<noteq> []" by code_simp
  then have a: "secret_accepts demo_web_crypto (ia_auth demo_api) (mr_headers ?req)"
    by (simp add: demo_api_def secret_accepts_iff [OF demo_web_crypto_ok] demo_internal_request_def shared_secret_header_def
        get_header_def get_all_def)
  have "session_path \<noteq> derived_key_path" by (simp add: session_path_def derived_key_path_def)
  then have r: "ha_status (internal_route demo_internal_env demo_api ?req) = 200"
    using a demo_minted by (simp add: internal_route_def demo_internal_env_def demo_internal_request_def limited_def
        internal_max_body_bytes_def no_store_answer_def)
  have k: "sts_with_key_ring [(''v1'', demo_key)] ''v1'' demo_signing_key = Inr (id_sts demo_identity)"
    using demo_ring_ok by (simp add: demo_identity_def)
  have p: "crypto_ok (ie_crypto demo_internal_env)" "ia_sts demo_api = id_sts demo_identity" "ie_clock demo_internal_env = Inr 5"
    "unat (5 :: u64) + unat (ia_max_ttl_secs demo_api) < 2 ^ 64" "mr_path ?req = session_path"
    using demo_web_crypto_ok by (simp_all add: demo_internal_env_def demo_api_def demo_internal_request_def)
  from internal_session_resolves [OF r p(5) p(1) k p(2-4)] show ?thesis by (auto simp: demo_api_def)
qed

end
