(* ===== verification/S0_Admin.thy ===== *)
theory S0_Admin
  imports S0_Audit S0_Pdp S0_Cors S0_Mint
begin

text \<open>
  The edge of the process: the probes and the metrics page, \<open>src/src/admin.rs\<close>; the data plane's accept
  loop, \<open>src/src/server.rs\<close>; the order of start-up and shutdown, \<open>src/src/main.rs\<close>; and where a batch of audit
  records goes, \<open>src/src/audit/backend.rs\<close>. Sockets, signals and timeouts are steps that may happen at any time.
\<close>

section \<open>Probes\<close>

record admin_state =
  ad_audit :: audit_metrics
  ad_health :: bundle_health
  ad_bundles :: bundle_store
  ad_mint :: "mint_metrics option"
  ad_cors :: "cors_metrics option"
  ad_instance :: string
  ad_shutting_down :: bool

definition admin_state_new :: "audit_metrics \<Rightarrow> bundle_health \<Rightarrow> bundle_store \<Rightarrow> string \<Rightarrow> admin_state" where
  "admin_state_new audit health bundles inst =
     \<lparr>ad_audit = audit, ad_health = health, ad_bundles = bundles, ad_mint = None, ad_cors = None,
      ad_instance = inst, ad_shutting_down = False\<rparr>"

definition begin_shutdown :: "admin_state \<Rightarrow> admin_state" where
  "begin_shutdown st = st\<lparr>ad_shutting_down := True\<rparr>"

definition admin_ready :: "admin_state \<Rightarrow> string + unit" where
  "admin_ready st =
     (if ad_shutting_down st then Inl ''shutting down''
      else if \<not> health_ready (ad_health st) then Inl ''no successful bundle poll yet''
      else Inr ())"

definition health_last_success :: "bundle_health \<Rightarrow> u64 option" where
  "health_last_success h = (if bh_last_success_unix h = 0 then None else Some (bh_last_success_unix h))"

section \<open>Metrics\<close>

text \<open>A call of \<open>metric\<close>: name, kind, help and value.\<close>

type_synonym metric_row = "string \<times> string \<times> string \<times> nat"

definition nl_char :: string where
  "nl_char = [CHR 0x0A]"

fun metric_text :: "metric_row \<Rightarrow> string" where
  "metric_text (name, kind, help, v) =
     ''# HELP '' @ name @ '' '' @ help @ nl_char @ ''# TYPE '' @ name @ '' '' @ kind @ nl_char @ name @ '' '' @ nat_digits v @ nl_char"

definition replace_char :: "char \<Rightarrow> string \<Rightarrow> string \<Rightarrow> string" where
  "replace_char c to s = concat (map (\<lambda>x. if x = c then to else [x]) s)"

definition escape_label :: "string \<Rightarrow> string" where
  "escape_label v =
     replace_char CHR 0x0A [] (replace_char CHR 0x22 [CHR 0x5C, CHR 0x22] (replace_char CHR 0x5C [CHR 0x5C, CHR 0x5C] v))"

definition audit_rows :: "audit_metrics \<Rightarrow> metric_row list" where
  "audit_rows m =
     [(''s0_audit_dropped_total'', ''counter'', ''Audit records this process is known to have LOST, from any cause. Any non-zero value is an audit-integrity incident; alert on increase.'',
       dropped_total m),
      (''s0_audit_queue_dropped_total'', ''counter'', ''Audit records dropped because the in-process queue was full or the worker was gone.'',
       am_queue_dropped m),
      (''s0_audit_spill_dropped_total'', ''counter'', ''Audit records lost at the disk spill: file at cap, write failed, or a spilled line came back unparseable.'',
       am_spill_dropped m),
      (''s0_audit_shipped_total'', ''counter'', ''Audit records the control plane accepted.'',
       am_shipped m),
      (''s0_audit_spilled_total'', ''counter'', ''Audit records written to the local spill file after a failed ship. Pending while the process lives; anything still there when it exits is counted in s0_audit_spill_abandoned_total instead, because the spill is node-local and dies with the pod.'',
       am_spilled m),
      (''s0_audit_spill_abandoned_total'', ''counter'', ''Audit records still in the spill file when the worker exited. LOST: the spill is node-local scratch, deleted with the pod. Included in s0_audit_dropped_total. Non-zero after a rolling update means the sink was down for the whole drain.'',
       am_spill_abandoned m),
      (''s0_audit_gate_suppressed_total'', ''counter'', (''Gate-denial records deliberately not emitted because the budget was exhausted '' @ em_dash @ '' an unauthenticated caller can produce these without limit, and letting them fill the queue would evict real decision records. NOT counted as dropped: the count is preserved here and on the next emitted gate record. Sustained non-zero means someone is scanning.''),
       am_gate_suppressed m),
      (''s0_audit_spill_replayed_total'', ''counter'', ''Audit records recovered from the spill file and shipped.'',
       am_spill_replayed m),
      (''s0_audit_post_failures_total'', ''counter'', ''Failed POSTs to the audit sink (batches, not records).'',
       am_post_failures m)]"

definition bundle_rows :: "admin_state \<Rightarrow> metric_row list" where
  "bundle_rows st =
     [(''s0_bundle_poll_success_total'', ''counter'', ''Bundle polls that fetched and applied successfully.'',
       unat (bh_successes (ad_health st))),
      (''s0_bundle_poll_failure_total'', ''counter'', ''Bundle polls that failed. Sustained failure means revocation is not landing.'',
       unat (bh_failures (ad_health st))),
      (''s0_bundle_last_success_timestamp_seconds'', ''gauge'', ''Unix time of the last successful bundle poll; 0 if there has never been one. Bundle age is the alertable signal for a stale policy.'',
       (case health_last_success (ad_health st) of None \<Rightarrow> 0 | Some t \<Rightarrow> unat t)),
      (''s0_bundle_source_remote'', ''gauge'', ''1 when the bundle is polled from the control plane, 0 when it is a local file (development). Readiness on a local-file source proves nothing about control-plane reachability.'',
       (if bh_remote (ad_health st) then 1 else 0)),
      (''s0_ready'', ''gauge'', ''1 when /readyz would answer 200.'',
       (if admin_ready st = Inr () then 1 else 0))]"

definition mint_rows :: "mint_metrics \<Rightarrow> metric_row list" where
  "mint_rows m =
     [(''s0_mint_connection_limit'', ''gauge'', ''Configured sts_mint.max_connections. The saturation counter below is meaningless without it.'',
       unat (mm_connection_limit m)),
      (''s0_mint_connections_active'', ''gauge'', ''Mint connections currently being served. Approaching s0_mint_connection_limit means the next connection waits.'',
       unat (mm_connections_active m)),
      (''s0_mint_connections_accepted_total'', ''counter'', ''Mint connections accepted since start.'',
       unat (mm_connections_accepted m)),
      (''s0_mint_connection_limit_saturated_total'', ''counter'', (''Times the mint'' @ [CHR 0x27] @ ''s connection bound was already full when the accept loop asked for a slot, so the next connection waited in the kernel backlog. NOT a refusal '' @ em_dash @ '' no mint is answered with an error because of this '' @ em_dash @ '' but sustained increase means either raise sts_mint.max_connections or find out who is calling. This socket is unauthenticated by design.''),
       unat (mm_connection_limit_saturated m)),
      (''s0_mint_connection_timeouts_total'', ''counter'', ''Mint connections closed for outliving sts_mint.connection_timeout_secs. A legitimate client never reaches this; sustained increase is a slow-client (slowloris) attempt to hold every connection slot.'',
       unat (mm_connection_timeouts m)),
      (''s0_mint_bodies_too_large_total'', ''counter'', ''Mint requests refused 413 for exceeding the body ceiling. The oversized bytes were never read off the socket.'',
       unat (mm_bodies_too_large m))]"

definition cors_rows :: "cors_metrics \<Rightarrow> metric_row list" where
  "cors_rows c =
     [(''s0_cors_responses_decorated_total'', ''counter'', ''Responses to browser requests that were given CORS headers.'',
       unat (cm_responses_decorated c)),
      (''s0_cors_backend_lookups_total'', ''counter'', (''Reads of a bucket'' @ [CHR 0x27] @ ''s CORS configuration from the backend: every cache miss.''),
       unat (cm_backend_lookups c)),
      (''s0_cors_backend_lookup_failures_total'', ''counter'', (''Backend reads of a bucket'' @ [CHR 0x27] @ ''s CORS configuration that failed for a reason other than a missing bucket or a missing configuration. Sustained increase usually means the tenant'' @ [CHR 0x27] @ ''s backend credential may not read bucket CORS.''),
       unat (cm_backend_lookup_failures c))]"

definition preflight_total_head :: string where
  "preflight_total_head =
     ''# HELP s0_cors_preflight_total CORS preflights (OPTIONS) answered, by result. A refusal is always the same 403 on the wire; reason says which check failed.'' @
     nl_char @ ''# TYPE s0_cors_preflight_total counter'' @ nl_char"

definition preflight_allowed_line :: "cors_metrics \<Rightarrow> string" where
  "preflight_allowed_line c =
     ''s0_cors_preflight_total{result='' @ [CHR 0x22] @ ''allowed'' @ [CHR 0x22] @ ''} '' @ nat_digits (unat (cm_preflight_allowed c)) @ nl_char"

definition preflight_denied_line :: "cors_metrics \<Rightarrow> denial \<Rightarrow> string" where
  "preflight_denied_line c d =
     ''s0_cors_preflight_total{result='' @ [CHR 0x22] @ ''denied'' @ [CHR 0x22] @ '',reason='' @ [CHR 0x22] @ denial_reason d @
     [CHR 0x22] @ ''} '' @ nat_digits (unat (cm_preflight_denied c d)) @ nl_char"

definition cors_text :: "cors_metrics \<Rightarrow> string" where
  "cors_text c =
     preflight_total_head @ preflight_allowed_line c @ concat (map (preflight_denied_line c) denial_all) @
     concat (map metric_text (cors_rows c))"

definition build_info_text :: "string \<Rightarrow> string \<Rightarrow> string" where
  "build_info_text version inst =
     ''# HELP s0_build_info Build and instance identity.'' @ nl_char @ ''# TYPE s0_build_info gauge'' @ nl_char @
     ''s0_build_info{version='' @ [CHR 0x22] @ escape_label version @ [CHR 0x22] @ '',instance='' @ [CHR 0x22] @
     escape_label inst @ [CHR 0x22] @ ''} 1'' @ nl_char"

definition revision_info_text :: "string \<Rightarrow> string" where
  "revision_info_text revision =
     ''# HELP s0_bundle_revision_info The bundle revision in force.'' @ nl_char @ ''# TYPE s0_bundle_revision_info gauge'' @ nl_char @
     ''s0_bundle_revision_info{revision='' @ [CHR 0x22] @ escape_label revision @ [CHR 0x22] @ ''} 1'' @ nl_char"

definition exposition :: "string \<Rightarrow> admin_state \<Rightarrow> string" where
  "exposition version st =
     concat (map metric_text (audit_rows (ad_audit st) @ bundle_rows st)) @
     (case ad_mint st of Some m \<Rightarrow> concat (map metric_text (mint_rows m)) | None \<Rightarrow> []) @
     (case ad_cors st of Some c \<Rightarrow> cors_text c | None \<Rightarrow> []) @
     build_info_text version (ad_instance st) @ revision_info_text (store_revision (ad_bundles st))"

definition prometheus :: "string \<Rightarrow> admin_state \<Rightarrow> http_answer" where
  "prometheus version st = no_store_answer 200 ''text/plain; version=0.0.4; charset=utf-8'' (exposition version st)"

definition text_answer :: "nat \<Rightarrow> string \<Rightarrow> http_answer" where
  "text_answer status body = no_store_answer status ''text/plain; charset=utf-8'' body"

definition admin_route :: "string \<Rightarrow> admin_state \<Rightarrow> string \<Rightarrow> string \<Rightarrow> http_answer" where
  "admin_route version st method path =
     (if method \<noteq> ''GET'' \<and> method \<noteq> ''HEAD'' then text_answer 405 (''use GET'' @ nl_char)
      else if path = ''/healthz'' then text_answer 200 (''ok'' @ nl_char)
      else if path = ''/readyz'' then
        (case admin_ready st of
           Inr _ \<Rightarrow> text_answer 200 (''ready'' @ nl_char)
         | Inl why \<Rightarrow> text_answer 503 (''not ready: '' @ why @ nl_char))
      else if path = ''/metrics'' then prometheus version st
      else text_answer 404 (''not found'' @ nl_char))"


section \<open>What a scraper reads\<close>

text \<open>A scraper finds the sample of a metric by its name at the start of a line.\<close>

definition scrape :: "string \<Rightarrow> string \<Rightarrow> nat option" where
  "scrape name text =
     map_option (\<lambda>l. decimal_value (drop (Suc (length name)) l)) (find (\<lambda>l. prefix (name @ '' '') l) (split_on CHR 0x0A text))"

definition page :: "string list \<Rightarrow> string" where
  "page ls = concat (map (\<lambda>l. l @ nl_char) ls)"

lemma page_simps [simp]: "page [] = []" "page (l # ls) = l @ nl_char @ page ls" "page (ls @ ls') = page ls @ page ls'"
  by (simp_all add: page_def)

lemma split_on_page:
  "list_all (\<lambda>l. CHR 0x0A \<notin> set l) ls \<Longrightarrow> split_on CHR 0x0A (page ls) = ls @ [[]]"
  by (induction ls) (simp_all add: nl_char_def split_on_append_sep)

fun row_lines :: "metric_row \<Rightarrow> string list" where
  "row_lines (name, kind, help, v) = [''# HELP '' @ name @ '' '' @ help, ''# TYPE '' @ name @ '' '' @ kind, name @ '' '' @ nat_digits v]"

lemma metric_text_page: "metric_text r = page (row_lines r)"
  by (cases r) simp

definition all_rows :: "admin_state \<Rightarrow> metric_row list" where
  "all_rows st = audit_rows (ad_audit st) @ bundle_rows st @ (case ad_mint st of Some m \<Rightarrow> mint_rows m | None \<Rightarrow> []) @
     (case ad_cors st of Some c \<Rightarrow> cors_rows c | None \<Rightarrow> [])"

text \<open>A name in a sample ends at a space or, with labels, at a brace.\<close>

definition name_ok :: "string \<Rightarrow> bool" where
  "name_ok n \<longleftrightarrow> CHR 0x20 \<notin> set n \<and> CHR 0x7B \<notin> set n \<and> CHR 0x23 \<notin> set n \<and> n \<noteq> []"

fun row_ok :: "metric_row \<Rightarrow> bool" where
  "row_ok (name, kind, help, v) \<longleftrightarrow> name_ok name \<and> list_all (\<lambda>s. CHR 0x0A \<notin> set s) [name, kind, help]"

lemma prefix_name_space:
  assumes "CHR 0x20 \<notin> set n" and "CHR 0x20 \<notin> set a"
  shows "prefix (n @ [CHR 0x20]) (a @ CHR 0x20 # b) \<longleftrightarrow> n = a"
  using assms
proof (induction n arbitrary: a)
  case (Cons c n)
  then show ?case by (cases a) auto
next
  case Nil
  then show ?case by (cases a) auto
qed

lemma prefix_name_brace:
  assumes "CHR 0x7B \<notin> set n" and "CHR 0x20 \<notin> set a"
  shows "\<not> prefix (n @ [CHR 0x20]) (a @ CHR 0x7B # b)"
  using assms
proof (induction n arbitrary: a)
  case (Cons c n)
  then show ?case by (cases a) auto
next
  case Nil
  then show ?case by (cases a) auto
qed

lemma find_unique:
  assumes "x \<in> set ls" and "P x" and "\<And>y. y \<in> set ls \<Longrightarrow> P y \<Longrightarrow> y = x"
  shows "find P ls = Some x"
proof -
  obtain y where y: "find P ls = Some y" using assms(1,2) by (cases "find P ls") (auto simp: find_None_iff)
  then have "y \<in> set ls" "P y" by (auto simp: find_Some_iff)
  with y assms(3) show ?thesis by blast
qed

text \<open>A page of samples and of lines that no name fits, in any order.\<close>

lemma scrape_page:
  assumes lines: "list_all (\<lambda>l. CHR 0x0A \<notin> set l) ls"
    and covered: "\<And>l. l \<in> set ls \<Longrightarrow> (\<exists>r \<in> set rows. l \<in> set (row_lines r)) \<or> (\<forall>n. name_ok n \<longrightarrow> \<not> prefix (n @ [CHR 0x20]) l)"
    and rows: "list_all row_ok rows" "distinct (map fst rows)"
    and row: "(name, kind, help, v) \<in> set rows" "set (row_lines (name, kind, help, v)) \<subseteq> set ls"
  shows "scrape name (page ls) = Some v"
proof -
  let ?l = "name @ CHR 0x20 # nat_digits v"
  have ok: "name_ok name" using rows(1) row(1) by (auto simp: list_all_iff)
  have f: "find (\<lambda>l. prefix (name @ '' '') l) (split_on CHR 0x0A (page ls)) = Some ?l"
    unfolding split_on_page [OF lines]
  proof (rule find_unique)
    show "?l \<in> set (ls @ [[]])" using row(2) by simp
    show "prefix (name @ '' '') ?l" by simp
    fix l assume l: "l \<in> set (ls @ [[]])" "prefix (name @ '' '') l"
    then have "l \<in> set ls" by (cases "l = []") simp_all
    from covered [OF this] ok l(2) obtain r where r: "r \<in> set rows" "l \<in> set (row_lines r)" by blast
    obtain n' k' h' v' where r': "r = (n', k', h', v')" by (cases r)
    have n': "name_ok n'" using rows(1) r(1) r' by (auto simp: list_all_iff)
    have "\<not> prefix (name @ '' '') (CHR 0x23 # x)" for x using ok by (cases name) (auto simp: name_ok_def)
    then have l': "l = n' @ CHR 0x20 # nat_digits v'" using r(2) l(2) unfolding r' by auto
    with l(2) ok n' have "n' = name" by (simp add: name_ok_def prefix_name_space)
    then have "v' = v" using eq_key_imp_eq_value [OF rows(2), of name "(k', h', v')" "(kind, help, v)"] r(1) r' row(1) by simp
    then show "l = ?l" using l' \<open>n' = name\<close> by simp
  qed
  show ?thesis unfolding scrape_def f by simp
qed


lemma rows_ok:
  "list_all row_ok (audit_rows m)" "list_all row_ok (bundle_rows st)" "list_all row_ok (mint_rows mm)" "list_all row_ok (cors_rows c)"
  by (simp_all add: audit_rows_def bundle_rows_def mint_rows_def cors_rows_def name_ok_def em_dash_def)

lemma names_distinct: "distinct (map fst (audit_rows m @ bundle_rows st @ mint_rows mm @ cors_rows c))"
  by (simp add: audit_rows_def bundle_rows_def mint_rows_def cors_rows_def)

lemma all_rows_distinct: "distinct (map fst (all_rows st))"
  using names_distinct [of "ad_audit st" st "the (ad_mint st)" "the (ad_cors st)"]
  by (cases "ad_mint st"; cases "ad_cors st") (simp_all add: all_rows_def Int_Un_distrib)

lemma all_rows_ok: "list_all row_ok (all_rows st)"
  by (simp add: all_rows_def rows_ok split: option.split)


text \<open>The lines with labels, and those of a comment: no name fits them.\<close>

definition labelled :: "string \<Rightarrow> string \<Rightarrow> string" where
  "labelled name rest = name @ CHR 0x7B # rest"

definition info_lines :: "string \<Rightarrow> admin_state \<Rightarrow> string list" where
  "info_lines version st =
     [''# HELP s0_build_info Build and instance identity.'', ''# TYPE s0_build_info gauge'',
      labelled ''s0_build_info'' (''version='' @ [CHR 0x22] @ escape_label version @ [CHR 0x22] @ '',instance='' @ [CHR 0x22] @
        escape_label (ad_instance st) @ [CHR 0x22] @ ''} 1''),
      ''# HELP s0_bundle_revision_info The bundle revision in force.'', ''# TYPE s0_bundle_revision_info gauge'',
      labelled ''s0_bundle_revision_info'' (''revision='' @ [CHR 0x22] @ escape_label (store_revision (ad_bundles st)) @ [CHR 0x22] @ ''} 1'')]"

definition preflight_lines :: "cors_metrics \<Rightarrow> string list" where
  "preflight_lines c =
     ''# HELP s0_cors_preflight_total CORS preflights (OPTIONS) answered, by result. A refusal is always the same 403 on the wire; reason says which check failed.'' #
     ''# TYPE s0_cors_preflight_total counter'' #
     labelled ''s0_cors_preflight_total'' (''result='' @ [CHR 0x22] @ ''allowed'' @ [CHR 0x22] @ ''} '' @ nat_digits (unat (cm_preflight_allowed c))) #
     map (\<lambda>d. labelled ''s0_cors_preflight_total'' (''result='' @ [CHR 0x22] @ ''denied'' @ [CHR 0x22] @ '',reason='' @ [CHR 0x22] @
       denial_reason d @ [CHR 0x22] @ ''} '' @ nat_digits (unat (cm_preflight_denied c d)))) denial_all"

definition exposition_lines :: "string \<Rightarrow> admin_state \<Rightarrow> string list" where
  "exposition_lines version st =
     concat (map row_lines (audit_rows (ad_audit st) @ bundle_rows st)) @
     (case ad_mint st of Some m \<Rightarrow> concat (map row_lines (mint_rows m)) | None \<Rightarrow> []) @
     (case ad_cors st of Some c \<Rightarrow> preflight_lines c @ concat (map row_lines (cors_rows c)) | None \<Rightarrow> []) @ info_lines version st"

lemma rows_page: "concat (map metric_text rows) = page (concat (map row_lines rows))"
  by (induction rows) (simp_all add: metric_text_page)

lemma preflight_page: "preflight_total_head @ preflight_allowed_line c @ concat (map (preflight_denied_line c) denial_all) = page (preflight_lines c)"
proof -
  have "concat (map (preflight_denied_line c) ds) =
      page (map (\<lambda>d. labelled ''s0_cors_preflight_total'' (''result='' @ [CHR 0x22] @ ''denied'' @ [CHR 0x22] @ '',reason='' @ [CHR 0x22] @
        denial_reason d @ [CHR 0x22] @ ''} '' @ nat_digits (unat (cm_preflight_denied c d)))) ds)" for ds
    by (induction ds) (simp_all add: preflight_denied_line_def labelled_def)
  then show ?thesis by (simp add: preflight_lines_def preflight_total_head_def preflight_allowed_line_def labelled_def)
qed

lemma info_page: "build_info_text version (ad_instance st) @ revision_info_text (store_revision (ad_bundles st)) = page (info_lines version st)"
  by (simp add: build_info_text_def revision_info_text_def info_lines_def labelled_def)

lemma exposition_page: "exposition version st = page (exposition_lines version st)"
proof -
  have "cors_text c = page (preflight_lines c @ concat (map row_lines (cors_rows c)))" for c
    unfolding cors_text_def page_simps preflight_page [symmetric] rows_page by simp
  then show ?thesis
    unfolding exposition_def exposition_lines_def page_simps info_page [symmetric] rows_page by (simp split: option.split)
qed

lemma escape_label_no_newline: "CHR 0x0A \<notin> set (escape_label v)"
  by (auto simp: escape_label_def replace_char_def)

lemma digits_no_newline: "CHR 0x0A \<notin> set (nat_digits n)"
  using nat_digits_are_digits [of n] by (auto simp: list_all_iff is_digit_def)

lemma row_lines_one_line: "row_ok r \<Longrightarrow> l \<in> set (row_lines r) \<Longrightarrow> CHR 0x0A \<notin> set l"
  by (cases r) (auto simp: digits_no_newline)

lemma extra_lines:
  assumes "l \<in> set (info_lines version st) \<union> set (preflight_lines c)"
  shows "CHR 0x0A \<notin> set l" and "name_ok n \<Longrightarrow> \<not> prefix (n @ [CHR 0x20]) l"
proof -
  have hash: "name_ok n \<Longrightarrow> \<not> prefix (n @ [CHR 0x20]) (CHR 0x23 # x)" for n x by (cases n) (auto simp: name_ok_def)
  have brace: "name_ok n \<Longrightarrow> CHR 0x20 \<notin> set a \<Longrightarrow> \<not> prefix (n @ [CHR 0x20]) (labelled a x)" for n a x
    by (simp add: labelled_def prefix_name_brace name_ok_def)
  have reason: "CHR 0x0A \<notin> set (denial_reason d)" for d by (cases d) simp_all
  from assms show "CHR 0x0A \<notin> set l"
    by (auto simp: info_lines_def preflight_lines_def labelled_def escape_label_no_newline digits_no_newline reason)
  from assms show "name_ok n \<Longrightarrow> \<not> prefix (n @ [CHR 0x20]) l"
    unfolding info_lines_def preflight_lines_def by (auto simp: hash brace)
qed



definition demo_admin :: admin_state where
  "demo_admin = \<lparr>ad_audit = metrics_default\<lparr>am_queue_dropped := 3\<rparr>,
     ad_health = \<lparr>bh_remote = True, bh_successes = 1, bh_failures = 0, bh_last_success_unix = 7\<rparr>,
     ad_bundles = \<lparr>bst_current = bundle_new (\<lambda>_. []) (\<lambda>_. None) 0 ([CHR 0x0A] @ ''s0_audit_dropped_total 0'') (JObj [])\<rparr>,
     ad_mint = None, ad_cors = None, ad_instance = ''pod-1'', ad_shutting_down = False\<rparr>"


lemma admin_ready_iff:
  "ha_status (admin_route version st ''GET'' ''/readyz'') = 200 \<longleftrightarrow> \<not> ad_shutting_down st \<and> bh_successes (ad_health st) \<noteq> 0"
  "ha_status (admin_route version st ''GET'' ''/healthz'') = 200"
  by (simp_all add: admin_route_def admin_ready_def text_answer_def no_store_answer_def health_ready_def word_gt_0)


section \<open>The data plane's accept loop\<close>

record front_server =
  fs_permits :: nat
  fs_phase :: accept_phase
  fs_open :: nat

definition front_server_new :: "nat \<Rightarrow> front_server" where
  "front_server_new max_connections = \<lparr>fs_permits = max_connections, fs_phase = AwaitPermit, fs_open = 0\<rparr>"

inductive front_serves :: "nat \<Rightarrow> front_server \<Rightarrow> bool" for n where
  front_listening: "front_serves n (front_server_new n)"
| front_permit: "front_serves n s \<Longrightarrow> fs_phase s = AwaitPermit \<Longrightarrow> fs_permits s > 0 \<Longrightarrow>
    front_serves n (s\<lparr>fs_permits := fs_permits s - 1, fs_phase := AwaitConnection\<rparr>)"
| front_accepted: "front_serves n s \<Longrightarrow> fs_phase s = AwaitConnection \<Longrightarrow>
    front_serves n (s\<lparr>fs_phase := AwaitPermit, fs_open := Suc (fs_open s)\<rparr>)"
| front_accept_failed: "front_serves n s \<Longrightarrow> fs_phase s = AwaitConnection \<Longrightarrow>
    front_serves n (s\<lparr>fs_phase := AwaitPermit, fs_permits := Suc (fs_permits s)\<rparr>)"
| front_signal_waiting: "front_serves n s \<Longrightarrow> fs_phase s = AwaitPermit \<Longrightarrow> front_serves n (s\<lparr>fs_phase := Draining\<rparr>)"
| front_signal_idle: "front_serves n s \<Longrightarrow> fs_phase s = AwaitConnection \<Longrightarrow>
    front_serves n (s\<lparr>fs_phase := Draining, fs_permits := Suc (fs_permits s)\<rparr>)"
| front_connection_ended: "front_serves n s \<Longrightarrow> fs_open s > 0 \<Longrightarrow>
    front_serves n (s\<lparr>fs_open := fs_open s - 1, fs_permits := Suc (fs_permits s)\<rparr>)"

definition front_accepting :: "front_server \<Rightarrow> nat" where
  "front_accepting s = (if fs_phase s = AwaitConnection then 1 else 0)"

text \<open>A listener that takes its permit before it accepts: permits are conserved, so its connections are bounded.\<close>

locale bounded_listener =
  fixes serves :: "nat \<Rightarrow> 's \<Rightarrow> bool" and permits opened held :: "'s \<Rightarrow> nat"
  assumes conserved: "serves n s \<Longrightarrow> permits s + opened s + held s = n"
begin

lemma opened_bounded: "serves n s \<Longrightarrow> opened s + held s \<le> n"
  using conserved [of n s] by linarith

lemma waits_only_when_full: "serves n s \<Longrightarrow> permits s = 0 \<Longrightarrow> held s = 0 \<Longrightarrow> opened s = n"
  using conserved [of n s] by linarith

end

interpretation mint_loop: bounded_listener mint_serves sr_permits sr_open accepting
  by unfold_locales (rule mint_serves_inv(1))

interpretation front_loop: bounded_listener front_serves fs_permits fs_open front_accepting
proof
  fix n s
  assume "front_serves n s"
  then show "fs_permits s + fs_open s + front_accepting s = n"
    by induction (auto simp: front_server_new_def front_accepting_def)
qed

text \<open>The front waits for a permit only when as many connections as configured are open.\<close>

lemma front_connections_bounded:
  assumes "front_serves n s"
  shows "fs_open s \<le> n" and "fs_phase s = AwaitPermit \<Longrightarrow> fs_permits s = 0 \<Longrightarrow> fs_open s = n"
  using front_loop.opened_bounded [OF assms] front_loop.waits_only_when_full [OF assms] by (auto simp: front_accepting_def)

section \<open>The process\<close>

datatype task = TaskStarting | TaskServing | TaskDraining | TaskEnded

datatype main_phase = ServeFront | JoinInternal | JoinMint | DrainAudit | StopAdmin | MainReturned | MainFailed

record process =
  pc_signal :: bool
  pc_admin :: admin_state
  pc_admin_stop :: bool
  pc_front :: task
  pc_internal :: "task option"
  pc_mint :: "task option"
  pc_main :: main_phase
  pc_audit_drained :: bool

definition process_new :: "admin_state \<Rightarrow> bool \<Rightarrow> bool \<Rightarrow> process" where
  "process_new admin with_internal with_mint =
     \<lparr>pc_signal = False, pc_admin = admin, pc_admin_stop = False, pc_front = TaskStarting,
      pc_internal = (if with_internal then Some TaskServing else None), pc_mint = (if with_mint then Some TaskServing else None),
      pc_main = ServeFront, pc_audit_drained = False\<rparr>"

text \<open>The next step of \<open>main\<close> once it has spawned its tasks. Joining the internal listener and the mint is bounded by a timeout,
  so it goes on whether they have ended or not.\<close>

definition main_step :: "process \<Rightarrow> process" where
  "main_step p =
     (case pc_main p of
        ServeFront \<Rightarrow> if pc_front p = TaskEnded then p\<lparr>pc_main := JoinInternal\<rparr> else p
      | JoinInternal \<Rightarrow> p\<lparr>pc_main := JoinMint\<rparr>
      | JoinMint \<Rightarrow> p\<lparr>pc_main := DrainAudit\<rparr>
      | DrainAudit \<Rightarrow> p\<lparr>pc_main := StopAdmin, pc_audit_drained := True\<rparr>
      | StopAdmin \<Rightarrow> p\<lparr>pc_main := MainReturned, pc_admin_stop := True\<rparr>
      | MainReturned \<Rightarrow> p
      | MainFailed \<Rightarrow> p)"

text \<open>A listener of its own: it may exit with an error at any time; on the signal it drains; the drain ends, if only by its timeout.\<close>

inductive side_step :: "bool \<Rightarrow> task option \<Rightarrow> task option \<Rightarrow> bool" where
  side_failed: "side_step sig (Some TaskServing) (Some TaskEnded)"
| side_signal: "side_step True (Some TaskServing) (Some TaskDraining)"
| side_drained: "side_step sig (Some TaskDraining) (Some TaskEnded)"

inductive process_step :: "process \<Rightarrow> process \<Rightarrow> bool" where
  signalled: "process_step p (p\<lparr>pc_signal := True\<rparr>)"
| readiness_fails: "pc_signal p \<Longrightarrow> process_step p (p\<lparr>pc_admin := begin_shutdown (pc_admin p)\<rparr>)"
| polled: "process_step p (p\<lparr>pc_admin := (pc_admin p)\<lparr>ad_health := refresh_tick now result (ad_health (pc_admin p))\<rparr>\<rparr>)"
| front_bound: "pc_front p = TaskStarting \<Longrightarrow> process_step p (p\<lparr>pc_front := TaskServing\<rparr>)"
| front_bind_failed: "pc_front p = TaskStarting \<Longrightarrow> process_step p (p\<lparr>pc_front := TaskEnded, pc_main := MainFailed\<rparr>)"
| front_signalled: "pc_signal p \<Longrightarrow> pc_front p = TaskServing \<Longrightarrow> process_step p (p\<lparr>pc_front := TaskDraining\<rparr>)"
| front_drained: "pc_front p = TaskDraining \<Longrightarrow> process_step p (p\<lparr>pc_front := TaskEnded\<rparr>)"
| internal_moves: "side_step (pc_signal p) (pc_internal p) t \<Longrightarrow> process_step p (p\<lparr>pc_internal := t\<rparr>)"
| mint_moves: "side_step (pc_signal p) (pc_mint p) t \<Longrightarrow> process_step p (p\<lparr>pc_mint := t\<rparr>)"
| main_moves: "process_step p (main_step p)"

definition process_ok :: "process \<Rightarrow> bool" where
  "process_ok p \<longleftrightarrow>
     (pc_front p \<in> {TaskDraining, TaskEnded} \<and> pc_main p \<noteq> MainFailed \<longrightarrow> pc_signal p) \<and>
     (pc_main p \<noteq> ServeFront \<longrightarrow> pc_front p = TaskEnded) \<and>
     (pc_audit_drained p \<longleftrightarrow> pc_main p \<in> {StopAdmin, MainReturned}) \<and>
     (pc_admin_stop p \<longleftrightarrow> pc_main p = MainReturned) \<and>
     (ad_shutting_down (pc_admin p) \<longrightarrow> pc_signal p)"

lemma process_step_ok: "process_step p q \<Longrightarrow> process_ok p \<Longrightarrow> process_ok q"
  by (induction rule: process_step.induct)
    (auto simp: process_ok_def begin_shutdown_def main_step_def split: main_phase.splits if_splits)

lemma process_reach_ok:
  assumes "process_step\<^sup>*\<^sup>* (process_new admin i m) p" and "\<not> ad_shutting_down admin"
  shows "process_ok p"
  using assms(1)
proof (induction rule: rtranclp_induct)
  case base
  then show ?case using assms(2) by (simp add: process_ok_def process_new_def)
qed (rule process_step_ok)


lemma main_finishes:
  assumes "pc_main p \<in> {JoinInternal, JoinMint, DrainAudit, StopAdmin}" and "process_ok p"
  shows "\<exists>q. process_step\<^sup>*\<^sup>* p q \<and> pc_main q = MainReturned \<and> pc_audit_drained q"
proof -
  have m: "process_step\<^sup>*\<^sup>* r ((main_step ^^ k) r)" for r k
    by (induction k) (auto intro: rtranclp.rtrancl_into_rtrancl main_moves)
  define k where "k = (case pc_main p of JoinInternal \<Rightarrow> 4 | JoinMint \<Rightarrow> 3 | DrainAudit \<Rightarrow> 2 | _ \<Rightarrow> (1 :: nat))"
  have "pc_main ((main_step ^^ k) p) = MainReturned \<and> pc_audit_drained ((main_step ^^ k) p)"
    using assms by (cases "pc_main p") (simp_all add: k_def main_step_def process_ok_def numeral_eq_Suc)
  with m show ?thesis by blast
qed

lemma front_finishes:
  assumes "pc_main p = ServeFront" and "pc_signal p"
  shows "\<exists>q. process_step\<^sup>*\<^sup>* p q \<and> pc_main q = JoinInternal"
proof -
  have ended: "\<exists>q. process_step\<^sup>*\<^sup>* r q \<and> pc_main q = JoinInternal" if "pc_front r = TaskEnded" "pc_main r = ServeFront" for r
    using main_moves [of r] that by (intro exI [of _ "main_step r"]) (auto simp: main_step_def)
  have draining: "\<exists>q. process_step\<^sup>*\<^sup>* r q \<and> pc_main q = JoinInternal" if "pc_front r = TaskDraining" "pc_main r = ServeFront" for r
    using ended [of "r\<lparr>pc_front := TaskEnded\<rparr>"] front_drained [of r] that by (auto intro: converse_rtranclp_into_rtranclp)
  have serving: "\<exists>q. process_step\<^sup>*\<^sup>* r q \<and> pc_main q = JoinInternal"
    if "pc_front r = TaskServing" "pc_main r = ServeFront" "pc_signal r" for r
    using draining [of "r\<lparr>pc_front := TaskDraining\<rparr>"] front_signalled [of r] that by (auto intro: converse_rtranclp_into_rtranclp)
  show ?thesis
  proof (cases "pc_front p")
    case TaskStarting
    then show ?thesis using serving [of "p\<lparr>pc_front := TaskServing\<rparr>"] front_bound [of p] assms
      by (auto intro: converse_rtranclp_into_rtranclp)
  qed (use ended draining serving assms in blast)+
qed



text \<open>C40: Readiness does not fail before the data plane stops. The task that fails readiness and the accept loop of the data plane
  wait for the same signal, and nothing orders them: a process that polled its bundle reaches a state in which the data
  plane has stopped accepting while \<open>/readyz\<close> still answers 200.\<close>
theorem ready_after_front_stopped:
  assumes "bh_successes (ad_health admin) \<noteq> 0" and "\<not> ad_shutting_down admin"
  shows "\<exists>p. process_step\<^sup>*\<^sup>* (process_new admin i m) p \<and> pc_front p = TaskDraining \<and>
    ha_status (admin_route version (pc_admin p) ''GET'' ''/readyz'') = 200"
proof -
  let ?p = "process_new admin i m"
  have "process_step ?p (?p\<lparr>pc_front := TaskServing\<rparr>)" by (rule front_bound) (simp add: process_new_def)
  moreover have "process_step (?p\<lparr>pc_front := TaskServing\<rparr>) (?p\<lparr>pc_front := TaskServing, pc_signal := True\<rparr>)"
    using signalled [of "?p\<lparr>pc_front := TaskServing\<rparr>"] by (simp add: process_new_def)
  moreover have "process_step (?p\<lparr>pc_front := TaskServing, pc_signal := True\<rparr>) (?p\<lparr>pc_front := TaskDraining, pc_signal := True\<rparr>)"
    using front_signalled [of "?p\<lparr>pc_front := TaskServing, pc_signal := True\<rparr>"] by (simp add: process_new_def)
  ultimately have "process_step\<^sup>*\<^sup>* ?p (?p\<lparr>pc_front := TaskDraining, pc_signal := True\<rparr>)"
    by (intro converse_rtranclp_into_rtranclp [OF _ converse_rtranclp_into_rtranclp [OF _ r_into_rtranclp]])
  moreover have "ha_status (admin_route version (pc_admin (?p\<lparr>pc_front := TaskDraining, pc_signal := True\<rparr>)) ''GET'' ''/readyz'') = 200"
    using assms by (simp add: admin_ready_iff process_new_def)
  ultimately show ?thesis by (intro exI [of _ "?p\<lparr>pc_front := TaskDraining, pc_signal := True\<rparr>"] conjI) (simp_all add: process_new_def)
qed

theorem ready_after_front_stopped_witness:
  "\<exists>p. process_step\<^sup>*\<^sup>* (process_new demo_admin True True) p \<and> pc_front p = TaskDraining \<and>
    ha_status (admin_route ''1.0'' (pc_admin p) ''GET'' ''/readyz'') = 200"
  by (rule ready_after_front_stopped) (simp_all add: demo_admin_def)

section \<open>Where audit records go\<close>

definition control_plane_ship :: "(string \<Rightarrow> audit_record list \<Rightarrow> string + nat) \<Rightarrow> (nat \<Rightarrow> string) \<Rightarrow> string \<Rightarrow> audit_record list \<Rightarrow> string + unit" where
  "control_plane_ship post show_status url batch =
     on_ok (post url batch) (\<lambda>status.
       if 200 \<le> status \<and> status < 300 then Inr () else Inl (''status '' @ show_status status))"

text \<open>The serializer of \<open>NdjsonLine\<close>, the record's fields beside the event kind, is a parameter.\<close>

primrec ndjson_render :: "(audit_record \<Rightarrow> string + string) \<Rightarrow> audit_record list \<Rightarrow> string + string" where
  "ndjson_render to_string [] = Inr []"
| "ndjson_render to_string (r # batch) =
     on_ok (to_string r) (\<lambda>line. on_ok (ndjson_render to_string batch) (\<lambda>out. Inr (line @ nl_char @ out)))"

text \<open>The write runs on a thread of its own: it may be lost, fail, or succeed.\<close>

definition stdout_ship ::
  "(audit_record \<Rightarrow> string + string) \<Rightarrow> (string \<Rightarrow> string + (string + unit)) \<Rightarrow> audit_record list \<Rightarrow> string + unit" where
  "stdout_ship to_string write_all batch =
     on_ok (ndjson_render to_string batch) (\<lambda>rendered.
     on_ok (map_err (\<lambda>e. ''stdout writer task failed: '' @ e) (write_all rendered)) (\<lambda>r. r))"

text \<open>A batch is written as one line per record: with a serializer that writes no line break, the lines of what was rendered
  are the serialized records, in order.\<close>

lemma ndjson_render_lines:
  assumes "ndjson_render to_string batch = Inr out" and "\<And>r line. to_string r = Inr line \<Longrightarrow> CHR 0x0A \<notin> set line"
  shows "\<exists>lines. map to_string batch = map Inr lines \<and> split_on CHR 0x0A out = lines @ [[]]"
  using assms(1)
proof (induction batch arbitrary: out)
  case (Cons r batch)
  then obtain line rest where s: "to_string r = Inr line" "ndjson_render to_string batch = Inr rest" "out = line @ CHR 0x0A # rest"
    by (auto simp: on_ok_def nl_char_def split: sum.splits)
  then obtain lines where "map to_string batch = map Inr lines" "split_on CHR 0x0A rest = lines @ [[]]" using Cons.IH by blast
  then show ?case using s assms(2) by (intro exI [of _ "line # lines"]) (auto simp: split_on_append_sep)
qed simp

end
