(* ===== verification/S0_Capture.thy ===== *)
theory S0_Capture
  imports S0_Forward S0_Admin
begin

text \<open>
  The capture tap of \<open>src/src/authz/capture.rs\<close>: a bounded record of the questions put to the policy engine. It stands in
  \<open>GatewayAccess::decide\<close> just before the engine is asked, so what it is shown is the list of questions asked; \<open>Gateway::build\<close>
  leaves it unset.
\<close>

section \<open>The capture tap\<close>

record captured_input =
  ci_id :: string
  ci_operation :: string
  ci_raw :: json
  ci_round_trip_error :: "string option"

record capture_sink =
  cs_records :: "captured_input list"
  cs_capacity :: nat
  cs_dropped :: nat
  cs_round_trip_failures :: nat

definition capture_sink_new :: "nat \<Rightarrow> capture_sink" where
  "capture_sink_new capacity = \<lparr>cs_records = [], cs_capacity = capacity, cs_dropped = 0, cs_round_trip_failures = 0\<rparr>"

text \<open>The derived reader and writer of \<open>OpaInput\<close> and the printer of a document are parameters.\<close>

definition round_trip :: "(json \<Rightarrow> string + opa_input) \<Rightarrow> (opa_input \<Rightarrow> string + json) \<Rightarrow> (json \<Rightarrow> string) \<Rightarrow> json \<Rightarrow> string + unit" where
  "round_trip from_value to_value show raw =
     on_ok (map_err (\<lambda>e. ''captured input does not parse back into OpaInput: '' @ e) (from_value raw)) (\<lambda>typed.
     on_ok (map_err (\<lambda>e. ''re-serialize: '' @ e) (to_value typed)) (\<lambda>back.
       if back = raw then Inr ()
       else Inl (''round-trip changed the document '' @ em_dash @ '' the emitted wire shape and OpaInput disagree'' @ nl_char @
                 ''  emitted:       '' @ show raw @ nl_char @ ''  re-serialized: '' @ show back)))"

definition capture_record ::
  "codec \<Rightarrow> (json \<Rightarrow> string + opa_input) \<Rightarrow> (opa_input \<Rightarrow> string + json) \<Rightarrow> string \<times> opa_input \<Rightarrow> capture_sink \<Rightarrow> capture_sink" where
  "capture_record cd from_value to_value = (\<lambda>(operation, input) s.
     case to_value input of
       Inl e \<Rightarrow> s\<lparr>cs_dropped := Suc (cs_dropped s)\<rparr>
     | Inr raw \<Rightarrow>
         let err = (case round_trip from_value to_value (cd_show cd) raw of Inl e \<Rightarrow> Some e | Inr _ \<Rightarrow> None);
             s = (if err \<noteq> None then s\<lparr>cs_round_trip_failures := Suc (cs_round_trip_failures s)\<rparr> else s);
             ident = operation @ ''-'' @ take 12 (cd_sha256_hex cd (cd_show cd raw))
         in if length (cs_records s) \<ge> cs_capacity s then s\<lparr>cs_dropped := Suc (cs_dropped s)\<rparr>
            else s\<lparr>cs_records := cs_records s @
                     [\<lparr>ci_id = ident, ci_operation = operation, ci_raw = raw, ci_round_trip_error = err\<rparr>]\<rparr>)"

definition corpus :: "capture_sink \<Rightarrow> captured_input list" where
  "corpus s = map snd (fold (\<lambda>r seen. if map_of seen (ci_id r) = None then btree_insert (ci_id r) r seen else seen) (cs_records s) [])"

text \<open>The tap holds at most its capacity, and every question it was shown is in it or counted as dropped.\<close>

lemma capture_record_steps:
  "cs_capacity (capture_record cd from_value to_value q t) = cs_capacity t"
  "length (cs_records t) \<le> cs_capacity t \<Longrightarrow> length (cs_records (capture_record cd from_value to_value q t)) \<le> cs_capacity t"
  "length (cs_records (capture_record cd from_value to_value q t)) + cs_dropped (capture_record cd from_value to_value q t) =
     Suc (length (cs_records t) + cs_dropped t)"
  by (cases q; simp add: capture_record_def Let_def split: sum.split)+

lemma capture_accounts:
  assumes "s = fold (capture_record cd from_value to_value) qs (capture_sink_new capacity)"
  shows "length (cs_records s) \<le> capacity" and "length (cs_records s) + cs_dropped s = length qs"
proof -
  have "length (cs_records t) \<le> cs_capacity t \<Longrightarrow>
      length (cs_records (fold (capture_record cd from_value to_value) qs t)) \<le> cs_capacity t \<and>
      length (cs_records (fold (capture_record cd from_value to_value) qs t)) +
        cs_dropped (fold (capture_record cd from_value to_value) qs t) = length (cs_records t) + cs_dropped t + length qs" for t
  proof (induction qs arbitrary: t)
    case (Cons q qs)
    from Cons.IH [of "capture_record cd from_value to_value q t"] Cons.prems show ?case by (simp add: capture_record_steps)
  qed simp
  from this [of "capture_sink_new capacity"] show "length (cs_records s) \<le> capacity" "length (cs_records s) + cs_dropped s = length qs"
    by (simp_all add: assms capture_sink_new_def)
qed

text \<open>The corpus has one document per id, in order of the ids, so a second run of the same requests writes the same files.\<close>

lemma corpus_sorted: "btree_ok (fold (\<lambda>r seen. if map_of seen (ci_id r) = None then btree_insert (ci_id r) r seen else seen) rs [])"
proof -
  have "btree_ok m \<Longrightarrow> btree_ok (fold (\<lambda>r seen. if map_of seen (ci_id r) = None then btree_insert (ci_id r) r seen else seen) rs m)" for m
    by (induction rs arbitrary: m) (auto simp: btree_insert_ok)
  then show ?thesis by (simp add: btree_ok_def)
qed

text \<open>The tap's place in \<open>decide\<close>: after the placement screen, before the engine.\<close>

definition decide_tap ::
  "(string \<times> opa_input \<Rightarrow> capture_sink \<Rightarrow> capture_sink) \<Rightarrow> req_ctx \<Rightarrow> opa_input \<Rightarrow> capture_sink option \<Rightarrow> capture_sink option" where
  "decide_tap tap cx input capture =
     (case input_placement_refusal cx input of Some _ \<Rightarrow> capture | None \<Rightarrow> map_option (tap (cx_operation cx, input)) capture)"

text \<open>The tap is shown the questions the engine is asked, and no other.\<close>

lemma decide_tap_sees_asked:
  "\<exists>new. hs_asked (snd (decide env cx input s)) = hs_asked s @ new \<and>
     decide_tap tap cx input (Some t) = Some (fold tap (map (\<lambda>(q, _). (cx_operation cx, q)) new) t)"
  by (auto simp: decide_def decide_tap_def Let_def split: option.split prod.split)

end
