(* ===== verification/S0_Main.thy ===== *)
theory S0_Main
  imports S0_Capture
begin

text \<open>
  Assembly: \<open>Gateway::build\<close> of \<open>src/src/gateway.rs\<close>, the service of \<open>src/src/server.rs\<close> and the listeners
  \<open>src/src/main.rs\<close> builds from one configuration, so that statements about a component can be made about the process that
  contains it. The bundle file, the key parser, the blinding key, HTTP clients and the disk are parameters.
\<close>

section \<open>The audit sink\<close>

text \<open>\<open>AuditConfig\<close>: durations are in seconds.\<close>

record audit_settings =
  au_sink_url :: string
  au_backend :: audit_backend_kind
  au_queue_capacity :: nat
  au_batch_max :: nat
  au_flush_interval :: nat
  au_http_timeout :: nat
  au_spill_path :: string
  au_instance :: string
  au_labels :: label_policy

definition audit_settings_default :: "string \<Rightarrow> audit_settings" where
  "audit_settings_default inst =
     \<lparr>au_sink_url = ''http://127.0.0.1:9000/api/v1/decision-logs'', au_backend = ControlPlane, au_queue_capacity = 100000,
      au_batch_max = 256, au_flush_interval = 2, au_http_timeout = 5, au_spill_path = ''/var/lib/s0/audit-spill.ndjson'',
      au_instance = inst, au_labels = label_policy_default\<rparr>"

definition audit_file_config_default :: audit_file_config where
  "audit_file_config_default =
     \<lparr>af_sink_url = ''http://127.0.0.1:9000/api/v1/decision-logs'', af_spill_path = ''/var/lib/s0/audit-spill.ndjson'',
      af_backend = ControlPlane, af_organization_label_key = default_org_label_key, af_extra_labels = []\<rparr>"

text \<open>What the sink finds outside: the serializers, the endpoint, stdout, the disk with its owner markers and spill files.\<close>

record audit_world =
  aw_to_string :: "audit_record \<Rightarrow> string option"
  aw_from_str :: "string \<Rightarrow> audit_record option"
  aw_post :: "string \<Rightarrow> audit_record list \<Rightarrow> string + nat"
  aw_show_status :: "nat \<Rightarrow> string"
  aw_ndjson :: "audit_record \<Rightarrow> string + string"
  aw_write_all :: "string \<Rightarrow> string + (string + unit)"
  aw_instance :: string
  aw_disk_ok :: bool
  aw_owners :: "string \<rightharpoonup> string"
  aw_files :: "string \<Rightarrow> spill_file"

record audit_sink =
  sk_config :: audit_config
  sk_ship :: "audit_record list \<Rightarrow> string + unit"
  sk_spill_path :: string
  sk_labels :: label_policy
  sk_state :: audit_state

definition spawn_backend :: "audit_world \<Rightarrow> audit_settings \<Rightarrow> audit_record list \<Rightarrow> string + unit" where
  "spawn_backend w cfg =
     (case au_backend cfg of
        ControlPlane \<Rightarrow> control_plane_ship (aw_post w) (aw_show_status w) (au_sink_url cfg)
      | StdoutNdjson \<Rightarrow> stdout_ship (aw_ndjson w) (aw_write_all w))"

text \<open>The second component is the disk's owner markers once the spill path is claimed.\<close>

definition spawn_sink :: "audit_world \<Rightarrow> audit_settings \<Rightarrow> audit_sink \<times> (string \<rightharpoonup> string)" where
  "spawn_sink w cfg =
     (let (owners, spill_path) = claim_spill_path (aw_disk_ok w) (au_spill_path cfg) (au_instance cfg) (aw_owners w)
      in (\<lparr>sk_config = \<lparr>ac_queue_capacity = au_queue_capacity cfg, ac_batch_max = au_batch_max cfg, ac_to_string = aw_to_string w,
                        ac_from_str = aw_from_str w\<rparr>,
           sk_ship = spawn_backend w cfg, sk_spill_path = spill_path, sk_labels = au_labels cfg,
           sk_state = audit_spawn (aw_files w spill_path)\<rparr>, owners))"

definition gateway_audit_settings :: "string \<Rightarrow> gateway_config \<Rightarrow> audit_settings" where
  "gateway_audit_settings inst cfg = (audit_settings_default inst)\<lparr>
     au_sink_url := af_sink_url (gc_audit cfg), au_spill_path := af_spill_path (gc_audit cfg), au_backend := af_backend (gc_audit cfg),
     au_labels := \<lparr>lp_organization_key = af_organization_label_key (gc_audit cfg), lp_extra = af_extra_labels (gc_audit cfg)\<rparr>\<rparr>"

section \<open>The gateway\<close>

datatype 'c pdp_engine = EmbeddedPdp "'c pdp_world" | SidecarPdp string

record 'c gateway =
  gt_identity :: identity
  gt_pdp :: "'c pdp_engine"
  gt_audit :: audit_sink
  gt_credentials :: static_credential_store
  gt_state :: gateway_state
  gt_cors :: cors_world
  gt_capture :: "capture_sink option"

definition cors_metrics_default :: cors_metrics where
  "cors_metrics_default = \<lparr>cm_preflight_allowed = 0, cm_preflight_denied = (\<lambda>_. 0), cm_responses_decorated = 0,
     cm_backend_lookups = 0, cm_backend_lookup_failures = 0\<rparr>"

text \<open>\<open>CorsState::new\<close>, beside the registry its lookups go to.\<close>

definition cors_state_new :: "backend_registry \<Rightarrow> cors_world" where
  "cors_state_new registry = \<lparr>cw_registry = registry, cw_cache = Map.empty, cw_metrics = cors_metrics_default, cw_reads = []\<rparr>"

definition build_pdp ::
  "('e, 'v, 'c) rego \<Rightarrow> codec \<Rightarrow> string \<Rightarrow> u64 \<Rightarrow> (string \<Rightarrow> string + string) \<Rightarrow> string + unit \<Rightarrow> gateway_config \<Rightarrow>
   gateway_error + bundle_store \<times> 'c pdp_engine" where
  "build_pdp rg cd gateway_rego generation read_to_string opa_client cfg =
     on_ok (map_err (\<lambda>e. Bundle (''read '' @ debug_str (gc_bundle_path cfg) @ '': '' @ e)) (read_to_string (gc_bundle_path cfg))) (\<lambda>raw.
     on_ok (map_err Bundle (parse_bundle (cd_read cd) raw)) (\<lambda>parsed.
       let revision = content_revision (cd_sha256_hex cd) raw;
           bundles = \<lparr>bst_current = bundle_new (cd_show cd) (cd_rfc3339 cd) generation revision (pb_data parsed)\<rparr>
       in case gc_pdp cfg of
            PdpEmbedded _ \<Rightarrow>
              on_ok (build_embedded rg cd gateway_rego generation (gc_bundle_url cfg \<noteq> None) raw) (\<lambda>w. Inr (bundles, EmbeddedPdp w))
          | PdpSidecar base_url _ _ \<Rightarrow>
              on_ok (map_err (\<lambda>e. Pdp (''build opa client: '' @ e)) opa_client) (\<lambda>_. Inr (bundles, SidecarPdp (sidecar_url base_url)))))"

text \<open>The owner markers left on the disk come with the gateway.\<close>

definition gateway_build ::
  "('e, 'v, 'c) rego \<Rightarrow> codec \<Rightarrow> (string \<Rightarrow> string res) \<Rightarrow> string \<Rightarrow> u64 \<Rightarrow> (string \<Rightarrow> string + string) \<Rightarrow> string + unit \<Rightarrow> audit_world \<Rightarrow>
   gateway_config \<Rightarrow> gateway_error + 'c gateway \<times> (string \<rightharpoonup> string)" where
  "gateway_build rg cd hex_decode gateway_rego generation read_to_string opa_client aw cfg =
     on_ok (build_sts hex_decode cfg) (\<lambda>sts.
     let credentials = store_from_config cfg in
     on_ok (build_pdp rg cd gateway_rego generation read_to_string opa_client cfg) (\<lambda>(bundles, pdp).
     on_ok (registry_from_config cfg) (\<lambda>registry.
     on_ok (build_identity hex_decode cfg sts credentials registry bundles) (\<lambda>i.
     let (audit, owners) = spawn_sink aw (gateway_audit_settings (aw_instance aw) cfg)
     in Inr (\<lparr>gt_identity = i, gt_pdp = pdp, gt_audit = audit, gt_credentials = credentials,
              gt_state = \<lparr>gw_bundles = bundles, gw_registry = registry, gw_limits = gc_limits cfg, gw_quota = ledger_new\<rparr>,
              gt_cors = cors_state_new registry, gt_capture = None\<rparr>, owners)))))"

section \<open>The service\<close>

record s3_config =
  s3_xml_max_body_size :: nat
  s3_post_object_max_file_size :: u64
  s3_presigned_url_max_skew_time_secs :: u32

definition s3_config_of :: "'c gateway \<Rightarrow> s3_config" where
  "s3_config_of gw =
     (let limits = gw_limits (gt_state gw)
      in \<lparr>s3_xml_max_body_size = lm_xml_max_body_size limits, s3_post_object_max_file_size = lm_post_object_max_file_size limits,
          s3_presigned_url_max_skew_time_secs = lm_presigned_url_max_skew_time_secs limits\<rparr>)"

text \<open>An outgoing request as the client's interceptor sees it; the length of its body is known or not.\<close>

record out_request =
  oq_method :: string
  oq_headers :: header_map
  oq_body_length :: "nat option"

definition explicit_empty_body_length :: "out_request \<Rightarrow> out_request" where
  "explicit_empty_body_length q =
     (if oq_method q \<in> {''PUT'', ''POST''} \<and> oq_body_length q = Some 0 \<and> get_all (oq_headers q) ''content-length'' = [] \<and>
         get_all (oq_headers q) ''transfer-encoding'' = []
      then q\<lparr>oq_headers := oq_headers q @ [(''content-length'', ''0'')]\<rparr> else q)"

definition framed :: "out_request \<Rightarrow> bool" where
  "framed q \<longleftrightarrow> get_all (oq_headers q) ''content-length'' \<noteq> [] \<or> get_all (oq_headers q) ''transfer-encoding'' \<noteq> []"

text \<open>An empty upload leaves with its framing, no request is framed twice, and every other header is as it was.\<close>

lemma explicit_empty_body_length_frames:
  "oq_method q \<in> {''PUT'', ''POST''} \<Longrightarrow> oq_body_length q = Some 0 \<Longrightarrow> framed (explicit_empty_body_length q)"
  "framed q \<Longrightarrow> explicit_empty_body_length q = q"
  "n \<noteq> ''content-length'' \<Longrightarrow> get_all (oq_headers (explicit_empty_body_length q)) n = get_all (oq_headers q) n"
  by (auto simp: explicit_empty_body_length_def framed_def get_all_def)

section \<open>The listeners\<close>

definition build_source :: "string + unit \<Rightarrow> gateway_config \<Rightarrow> gateway_error + bundle_source" where
  "build_source client cfg =
     (case gc_bundle_url cfg of
        Some url \<Rightarrow>
          on_ok (map_err (\<lambda>e. Config (''bundle http client: '' @ e)) client) (\<lambda>_. Inr (SourceHttp url (gc_bundle_shared_secret cfg)))
      | None \<Rightarrow> Inr (SourceFile (gc_bundle_path cfg)))"

text \<open>The verifier object the endpoint shares with the mint: \<open>with_verifier\<close> puts its answers in place at each request.\<close>

definition idle_verifier :: "'k standard_verifier \<Rightarrow> web_verifier" where
  "idle_verifier v = \<lparr>wv_verify_token = (\<lambda>_. Inl (InvalidIdentityToken [])), wv_audience_is_accepted = audience_is_accepted v\<rparr>"

definition build_mint ::
  "(string \<Rightarrow> string + 'k) \<Rightarrow> string + unit \<Rightarrow> gateway_config \<Rightarrow> 'c gateway \<Rightarrow> gateway_error + 'k mint option" where
  "build_mint from_rsa_pem client cfg gw =
     (case gc_sts_mint cfg of
        None \<Rightarrow> Inr None
      | Some mc \<Rightarrow>
          on_ok (verifier_from_config from_rsa_pem client mc) (\<lambda>v.
            let ttl = st_session_ttl_secs (gc_sts cfg);
                m = with_limits (mint_limits_from_config mc) (mint_new v (id_sts (gt_identity gw)) ttl)
            in Inr (Some
                 (if mc_web_identity_enabled mc then
                    with_web_identity
                      \<lparr>ws_verifier = idle_verifier v, ws_sts = id_sts (gt_identity gw), ws_registry = gw_registry (gt_state gw),
                       ws_config = web_identity_config_from mc ttl,
                       ws_subjects = Some (store_knows_service_account (gw_bundles (gt_state gw)))\<rparr> m
                  else m))))"

definition build_internal :: "crypto \<Rightarrow> string \<Rightarrow> gateway_config \<Rightarrow> 'c gateway \<Rightarrow> internal_api option" where
  "build_internal cr blinding_key cfg gw =
     map_option (\<lambda>ic. with_derived_keys (id_derived (gt_identity gw))
         (internal_api_new cr blinding_key ic (id_sts (gt_identity gw)) (gw_registry (gt_state gw))))
       (gc_internal cfg)"

definition build_admin_state :: "bundle_health \<Rightarrow> string \<Rightarrow> mint_metrics \<Rightarrow> gateway_config \<Rightarrow> 'c gateway \<Rightarrow> admin_state" where
  "build_admin_state health inst mint_metrics cfg gw =
     (let st = (admin_state_new (as_metrics (sk_state (gt_audit gw))) health (gw_bundles (gt_state gw)) inst)
                 \<lparr>ad_cors := Some (cw_metrics (gt_cors gw))\<rparr>
      in if gc_sts_mint cfg \<noteq> None then st\<lparr>ad_mint := Some mint_metrics\<rparr> else st)"

text \<open>The start of \<open>main\<close>: everything that can refuse to start, in its order.\<close>

record ('k, 'c) started =
  sd_config :: gateway_config
  sd_gateway :: "'c gateway"
  sd_source :: bundle_source
  sd_mint :: "'k mint option"
  sd_internal :: "internal_api option"

definition main_start ::
  "(gateway_error + gateway_config) \<Rightarrow> (gateway_config \<Rightarrow> gateway_error + 'c gateway \<times> (string \<rightharpoonup> string)) \<Rightarrow>
   string + unit \<Rightarrow> string + unit \<Rightarrow> (string \<Rightarrow> string + 'k) \<Rightarrow> crypto \<Rightarrow> string \<Rightarrow> gateway_error + ('k, 'c) started" where
  "main_start loaded build bundle_client jwks_client from_rsa_pem cr blinding_key =
     on_ok loaded (\<lambda>cfg.
     on_ok (build cfg) (\<lambda>(gw, _).
     on_ok (build_source bundle_client cfg) (\<lambda>source.
     on_ok (build_mint from_rsa_pem jwks_client cfg gw) (\<lambda>mint_of.
     Inr \<lparr>sd_config = cfg, sd_gateway = gw, sd_source = source, sd_mint = mint_of,
          sd_internal = build_internal cr blinding_key cfg gw\<rparr>))))"

lemma main_start_parts:
  assumes "main_start loaded build bc jc pem cr key = Inr p"
  obtains owners where "loaded = Inr (sd_config p)" and "build (sd_config p) = Inr (sd_gateway p, owners)"
    and "build_source bc (sd_config p) = Inr (sd_source p)" and "build_mint pem jc (sd_config p) (sd_gateway p) = Inr (sd_mint p)"
    and "sd_internal p = build_internal cr key (sd_config p) (sd_gateway p)"
  using assms by (auto simp: main_start_def on_ok_def split: sum.splits)

section \<open>Listeners that keep no bound\<close>

datatype loop_phase = Listening | DrainingConnections | LoopReturned

record plain_server =
  pv_phase :: loop_phase
  pv_open :: nat

definition plain_server_new :: plain_server where
  "plain_server_new = \<lparr>pv_phase = Listening, pv_open = 0\<rparr>"

text \<open>The internal listener. A failed accept is waited out and changes nothing.\<close>

inductive internal_step :: "plain_server \<Rightarrow> plain_server \<Rightarrow> bool" where
  internal_accepted: "pv_phase s = Listening \<Longrightarrow> internal_step s (s\<lparr>pv_open := Suc (pv_open s)\<rparr>)"
| internal_accept_failed: "pv_phase s = Listening \<Longrightarrow> internal_step s s"
| internal_signal: "pv_phase s = Listening \<Longrightarrow> internal_step s (s\<lparr>pv_phase := DrainingConnections\<rparr>)"
| internal_ended: "pv_open s > 0 \<Longrightarrow> internal_step s (s\<lparr>pv_open := pv_open s - 1\<rparr>)"
| internal_drained: "pv_phase s = DrainingConnections \<Longrightarrow> pv_open s = 0 \<Longrightarrow> internal_step s (s\<lparr>pv_phase := LoopReturned\<rparr>)"
| internal_drain_timed_out: "pv_phase s = DrainingConnections \<Longrightarrow> internal_step s (s\<lparr>pv_phase := LoopReturned\<rparr>)"

text \<open>The listener of the probes.\<close>

inductive admin_step :: "plain_server \<Rightarrow> plain_server \<Rightarrow> bool" where
  admin_accepted: "pv_phase s = Listening \<Longrightarrow> admin_step s (s\<lparr>pv_open := Suc (pv_open s)\<rparr>)"
| admin_accept_failed: "pv_phase s = Listening \<Longrightarrow> admin_step s s"
| admin_signal: "pv_phase s = Listening \<Longrightarrow> admin_step s (s\<lparr>pv_phase := DrainingConnections\<rparr>)"
| admin_ended: "pv_open s > 0 \<Longrightarrow> admin_step s (s\<lparr>pv_open := pv_open s - 1\<rparr>)"
| admin_drained: "pv_phase s = DrainingConnections \<Longrightarrow> pv_open s = 0 \<Longrightarrow> admin_step s (s\<lparr>pv_phase := LoopReturned\<rparr>)"
| admin_drain_timed_out: "pv_phase s = DrainingConnections \<Longrightarrow> admin_step s (s\<lparr>pv_phase := LoopReturned\<rparr>)"

text \<open>Once such a listener has seen the signal it takes no connection any more, and while it listens nothing bounds how many it takes.\<close>

locale draining_listener =
  fixes step :: "'s \<Rightarrow> 's \<Rightarrow> bool" and listening :: "'s \<Rightarrow> bool" and opened :: "'s \<Rightarrow> nat"
  assumes closed: "step s t \<Longrightarrow> \<not> listening s \<Longrightarrow> \<not> listening t \<and> opened t \<le> opened s"
    and takes: "listening s \<Longrightarrow> \<exists>t. step s t \<and> listening t \<and> opened t = Suc (opened s)"
begin

lemma stays_closed: "step\<^sup>*\<^sup>* s t \<Longrightarrow> \<not> listening s \<Longrightarrow> \<not> listening t \<and> opened t \<le> opened s"
  by (induction rule: rtranclp_induct) (auto dest: closed intro: le_trans)

lemma takes_any: "listening s \<Longrightarrow> \<exists>t. step\<^sup>*\<^sup>* s t \<and> listening t \<and> opened t = opened s + n"
proof (induction n)
  case (Suc n)
  then obtain t u where "step\<^sup>*\<^sup>* s t" "opened t = opened s + n" "step t u" "listening u" "opened u = Suc (opened t)"
    using takes by blast
  then show ?case by (auto intro: rtranclp.rtrancl_into_rtrancl)
qed auto

end

interpretation internal_loop: draining_listener internal_step "\<lambda>s. pv_phase s = Listening" pv_open
proof
  fix s t
  show "internal_step s t \<Longrightarrow> pv_phase s \<noteq> Listening \<Longrightarrow> pv_phase t \<noteq> Listening \<and> pv_open t \<le> pv_open s"
    by (cases rule: internal_step.cases) auto
  show "pv_phase s = Listening \<Longrightarrow> \<exists>t. internal_step s t \<and> pv_phase t = Listening \<and> pv_open t = Suc (pv_open s)"
    by (rule exI [of _ "s\<lparr>pv_open := Suc (pv_open s)\<rparr>"]) (simp add: internal_accepted)
qed

interpretation admin_loop: draining_listener admin_step "\<lambda>s. pv_phase s = Listening" pv_open
proof
  fix s t
  show "admin_step s t \<Longrightarrow> pv_phase s \<noteq> Listening \<Longrightarrow> pv_phase t \<noteq> Listening \<and> pv_open t \<le> pv_open s"
    by (cases rule: admin_step.cases) auto
  show "pv_phase s = Listening \<Longrightarrow> \<exists>t. admin_step s t \<and> pv_phase t = Listening \<and> pv_open t = Suc (pv_open s)"
    by (rule exI [of _ "s\<lparr>pv_open := Suc (pv_open s)\<rparr>"]) (simp add: admin_accepted)
qed

section \<open>One authority\<close>

text \<open>A session handed out by the process: by the web-identity endpoint of its mint, whatever its verifier answers at the time, or by its
  internal listener.\<close>

definition minted_on ::
  "crypto \<Rightarrow> ('k, 's) jwt_lib \<Rightarrow> 'k mint option \<Rightarrow> internal_api option \<Rightarrow> u64 \<Rightarrow> session_claims \<Rightarrow> session_credentials \<Rightarrow> bool" where
  "minted_on cr jl mint_of api now claims c \<longleftrightarrow>
     (\<exists>m ws env cache req sid s. me_jwt env = jl \<and> mint_of = Some m \<and> mn_web_identity m = Some ws \<and>
        assume_role cr (with_verifier env m cache ws) (Inr now) req sid = Inr s \<and>
        claims = web_claims (with_verifier env m cache ws) now req sid s \<and> c = session_of s) \<or>
     (\<exists>a req sid. api = Some a \<and> mint_session cr a (Inr now) req sid = Inr c \<and> claims = internal_claims a now req sid)"

lemma build_identity_sts: "build_identity hex cfg sts creds reg bundles = Inr i \<Longrightarrow> id_sts i = sts"
  by (auto simp: build_identity_def Let_def split: option.splits sum.splits prod.splits)

lemma gateway_build_parts:
  assumes "gateway_build rg cd hex rego gen rd oc aw cfg = Inr (gw, owners)"
  obtains ring cur sk where "sts_with_key_ring ring cur sk = Inr (id_sts (gt_identity gw))"
    and "registry_from_config cfg = Inr (gw_registry (gt_state gw))"
proof -
  obtain sts pdp bundles registry where b: "build_sts hex cfg = Inr sts" "registry_from_config cfg = Inr registry"
    "build_identity hex cfg sts (store_from_config cfg) registry bundles = Inr (gt_identity gw)" "gw_registry (gt_state gw) = registry"
    using assms by (auto simp: gateway_build_def on_ok_def Let_def split: sum.splits prod.splits)
  then have "id_sts (gt_identity gw) = sts" by (blast intro: build_identity_sts)
  moreover obtain ring cur sk where "sts_with_key_ring ring cur sk = Inr sts"
    using b(1) by (auto simp: build_sts_def Let_def split: sum.splits prod.splits)
  ultimately show thesis using that b by blast
qed

lemma gateway_build_audit:
  assumes "gateway_build rg cd hex rego gen rd oc aw cfg = Inr (gw, owners)"
  shows "(gt_audit gw, owners) = spawn_sink aw (gateway_audit_settings (aw_instance aw) cfg)" and "gt_capture gw = None"
  using assms by (auto simp: gateway_build_def on_ok_def Let_def split: sum.splits prod.splits)

text \<open>Replicas started one after the other from one configuration, on one disk, write to different spill files.\<close>

lemma replicas_spill_apart:
  assumes "gateway_build rg cd hex rego gen rd oc aw cfg = Inr (gw, owners)"
    and "gateway_build rg' cd' hex' rego' gen' rd' oc' aw' cfg = Inr (gw', owners')" and "aw_owners aw' = owners"
    and "aw_disk_ok aw" and "aw_disk_ok aw'" and "trim (aw_instance aw) = aw_instance aw" and "trim (aw_instance aw') = aw_instance aw'"
    and "sanitize (aw_instance aw) \<noteq> sanitize (aw_instance aw')"
  shows "sk_spill_path (gt_audit gw) \<noteq> sk_spill_path (gt_audit gw')"
proof -
  have claimed: "claim_spill_path (aw_disk_ok w) (af_spill_path (gc_audit cfg)) (aw_instance w) (aw_owners w) = (os, sk_spill_path k)"
    if "(k, os) = spawn_sink w (gateway_audit_settings (aw_instance w) cfg)" for w k os
    using that by (simp add: spawn_sink_def gateway_audit_settings_def audit_settings_default_def split: prod.splits)
  from claimed [OF gateway_build_audit(1) [OF assms(1)]] claimed [OF gateway_build_audit(1) [OF assms(2)]] show ?thesis
    using spill_path_exclusive [OF _ assms(6-8)] assms(3-5,8) by metis
qed

lemma build_mint_parts:
  assumes "build_mint pem client cfg gw = Inr (Some m)" and "mn_web_identity m = Some ws"
  shows "ws_sts ws = id_sts (gt_identity gw)" and "ws_registry ws = gw_registry (gt_state gw)"
  using assms by (auto simp: build_mint_def mint_new_def with_limits_def with_web_identity_def on_ok_def Let_def
      split: option.splits sum.splits if_splits)

lemma build_internal_parts:
  assumes "build_internal cr key cfg gw = Some a"
  shows "ia_sts a = id_sts (gt_identity gw)" and "ia_registry a = gw_registry (gt_state gw)"
  using assms by (auto simp: build_internal_def with_derived_keys_def internal_api_new_def)

text \<open>Either way the session comes through a door whose authority and routing table are the gateway's own.\<close>

lemma minted_on_door:
  assumes "minted_on cr jl mint_of (build_internal cr key cfg gw) now claims c" and "build_mint pem client cfg gw = Inr mint_of"
  shows "(\<exists>cap sid. web_door cr (id_sts (gt_identity gw)) (gw_registry (gt_state gw)) cap now sid claims c) \<or>
    (\<exists>cap sid. internal_door cr (id_sts (gt_identity gw)) (gw_registry (gt_state gw)) cap now sid claims c)"
  using assms(1) unfolding minted_on_def
proof (elim disjE exE conjE)
  fix m ws env cache req sid s
  assume w: "mint_of = Some m" "mn_web_identity m = Some ws" "assume_role cr (with_verifier env m cache ws) (Inr now) req sid = Inr s"
    "claims = web_claims (with_verifier env m cache ws) now req sid s" "c = session_of s"
  have "ws_sts (with_verifier env m cache ws) = id_sts (gt_identity gw)" "ws_registry (with_verifier env m cache ws) = gw_registry (gt_state gw)"
    using build_mint_parts w(1,2) assms(2) by (simp_all add: with_verifier_def)
  then have "web_door cr (id_sts (gt_identity gw)) (gw_registry (gt_state gw)) (wc_max_duration_secs (ws_config (with_verifier env m cache ws)))
      now sid claims c"
    unfolding web_door_def using w(3-5) by blast
  then show ?thesis by blast
next
  fix a req sid
  assume "build_internal cr key cfg gw = Some a" "mint_session cr a (Inr now) req sid = Inr c" "claims = internal_claims a now req sid"
  then have "internal_door cr (id_sts (gt_identity gw)) (gw_registry (gt_state gw)) (ia_max_ttl_secs a) now sid claims c"
    unfolding internal_door_def using build_internal_parts by blast
  then show ?thesis by blast
qed

lemma config_validate_mint: "config_validate g = Inr () \<Longrightarrow> validate_mint_listener g = Inr ()"
  by (auto simp: config_validate_def and_then_def split: sum.splits)

text \<open>A mint the process starts from a loaded configuration has room for a connection: with none open and none being awaited, a permit
  is free.\<close>

lemma started_mint_has_room:
  assumes "main_start (config_load from_str esc env rd) build bc jc pem cr key = Inr p" and "sd_mint p = Some m"
    and "mint_serves (ml_max_connections (mn_limits m)) s" and "sr_open s = 0" and "accepting s = 0"
  shows "sr_permits s > 0"
proof -
  obtain owners where "config_load from_str esc env rd = Inr (sd_config p)"
    and b: "build_mint pem jc (sd_config p) (sd_gateway p) = Inr (sd_mint p)"
    using main_start_parts [OF assms(1)] by metis
  then have "config_validate (sd_config p) = Inr ()" by (blast intro: config_load_valid)
  then have v: "validate_mint_listener (sd_config p) = Inr ()" by (rule config_validate_mint)
  obtain mc where mc: "gc_sts_mint (sd_config p) = Some mc" "mn_limits m = mint_limits_from_config mc"
    using b assms(2) by (auto simp: build_mint_def mint_new_def with_limits_def with_web_identity_def on_ok_def Let_def
        split: option.splits sum.splits if_splits)
  from v mc(1) have "mc_max_connections mc > 0" by (auto simp: validate_mint_listener_def Let_def split: if_splits option.splits)
  then show ?thesis using mint_loop.conserved [OF assms(3)] assms(4,5) mc(2) by (simp add: mint_limits_from_config_def)
qed

section \<open>A small process\<close>

definition demo_process_config :: gateway_config where
  "demo_process_config = (demo_config ''s1'')\<lparr>
     gc_sts := \<lparr>st_master_key_hex = None, st_master_keys = [(''v1'', demo_key)], st_current_kid = Some ''v1'',
                st_signing_key_hex = demo_signing_key, st_session_ttl_secs = 3600\<rparr>,
     gc_internal := Some \<lparr>ic_listen = \<lparr>so_text = ''0.0.0.0:8017'', so_port = 8017\<rparr>, ic_shared_secret = Some ''hush'',
                          ic_max_session_ttl_secs = 60\<rparr>\<rparr>"

definition demo_audit_world :: audit_world where
  "demo_audit_world = \<lparr>aw_to_string = (\<lambda>_. None), aw_from_str = (\<lambda>_. None), aw_post = (\<lambda>_ _. Inr 201), aw_show_status = nat_digits,
     aw_ndjson = (\<lambda>_. Inr []), aw_write_all = (\<lambda>_. Inr (Inr ())), aw_instance = ''pod-1'', aw_disk_ok = True,
     aw_owners = Map.empty, aw_files = (\<lambda>_. spill_empty)\<rparr>"

lemma demo_process_built:
  "\<exists>gw owners. gateway_build toy_rego toy_codec Inr [] 0 (\<lambda>_. Inr ''A'') (Inr ()) demo_audit_world demo_process_config = Inr (gw, owners) \<and>
     id_sts (gt_identity gw) = id_sts demo_identity \<and> gw_registry (gt_state gw) = demo_registry ''s1''"
proof -
  have "build_sts Inr demo_process_config = Inr (id_sts demo_identity)"
    using demo_ring_ok by (simp add: build_sts_def sts_key_ring_def demo_process_config_def demo_identity_def)
  moreover have "registry_from_config demo_process_config = Inr (demo_registry ''s1'')"
  proof -
    have "build_routes demo_process_config = build_routes (demo_config ''s1'')" "gc_limits demo_process_config = gc_limits (demo_config ''s1'')"
      by (simp_all add: build_routes_def demo_process_config_def)
    then show ?thesis using demo_registry_from_config [of "''s1''"] unfolding registry_from_config_def by presburger
  qed
  moreover have "\<exists>x. build_pdp toy_rego toy_codec [] 0 (\<lambda>_. Inr ''A'') (Inr ()) demo_process_config = Inr x"
    by (simp add: build_pdp_def toy_parse demo_process_config_def demo_config_def build_embedded_def regorus_new_def compile_policy_def
        toy_rego_def Let_def)
  moreover have "gc_derived_keys demo_process_config = None" by (simp add: demo_process_config_def demo_config_def)
  ultimately show ?thesis by (auto simp: gateway_build_def build_identity_def Let_def split: prod.split)
qed


lemma mint_session_depends:
  assumes "ia_sts a = ia_sts b" and "ia_registry a = ia_registry b" and "ia_max_ttl_secs a = ia_max_ttl_secs b"
  shows "mint_session cr a clock req sid = mint_session cr b clock req sid"
proof -
  have c: "internal_claims a = internal_claims b"
    using assms(3) by (intro ext) (simp add: internal_claims_def clamp_ttl_def)
  show ?thesis unfolding mint_session_def assms(1,2) c by (rule refl)
qed


text \<open>The data plane has no such check: a limit of zero connections passes the validation, and a front started with it never takes one.\<close>

lemma front_without_room:
  assumes "config_validate g = Inr ()"
  shows "config_validate (g\<lparr>gc_limits := (gc_limits g)\<lparr>lm_max_connections := 0\<rparr>\<rparr>) = Inr ()" and "front_serves 0 s \<Longrightarrow> fs_open s = 0 \<and> fs_phase s \<noteq> AwaitConnection"
proof -
  let ?g = "g\<lparr>gc_limits := (gc_limits g)\<lparr>lm_max_connections := 0\<rparr>\<rparr>"
  have "validate_sts_key_ring ?g = validate_sts_key_ring g" "validate_derived_key_ring ?g = validate_derived_key_ring g"
    "check_timeouts ?g = check_timeouts g" "validate_internal_listener ?g = validate_internal_listener g"
    "validate_mint_listener ?g = validate_mint_listener g"
    by (simp_all add: validate_sts_key_ring_def validate_derived_key_ring_def check_timeouts_def validate_internal_listener_def
        validate_mint_listener_def split: option.split sum.split)
  then show "config_validate ?g = Inr ()" using assms by (simp add: config_validate_def)
  show "front_serves 0 s \<Longrightarrow> fs_open s = 0 \<and> fs_phase s \<noteq> AwaitConnection"
    using front_loop.opened_bounded [of 0 s] by (auto simp: front_accepting_def split: if_splits)
qed

end
