(* ===== verification/Spec2Isabelle.thy ===== *)
theory Spec2Isabelle
  imports S0_Main
begin

text \<open>
  A verification library for the gateway \<open>s0\<close>: an S3-compatible proxy that authenticates a request, asks a
  policy engine about it, and forwards it to a backend as the tenant's owner. Sources are under \<open>src/src\<close>.

  \<^bold>\<open>The program.\<close> A request meets the CORS front (\<open>cors/front.rs\<close>), then the S3 service. Authentication
  (\<open>auth\<close>) resolves the access key to a principal with a tenant and an organization. The access layer
  (\<open>access/mod.rs\<close>) gates the operation by name, places the bucket, builds one authorization question or several, asks
  the policy engine (\<open>pdp\<close>), applies the verdict's obligations, reserves quota (\<open>quota.rs\<close>) and leaves a
  proof and a pending audit record on the request. The forward path (\<open>proxy/mod.rs\<close>) demands the proof, takes the
  tenant's client from the registry, sends, settles record and reservation, and scrubs the answer. Beside it run the task that
  refreshes the bundle (\<open>bundle_refresh.rs\<close>), the audit worker (\<open>audit/sink.rs\<close>), the mint with the web-identity
  endpoint (\<open>mint.rs\<close>, \<open>webidentity.rs\<close>), the control plane's listener (\<open>internal.rs\<close>) and the probes
  (\<open>admin.rs\<close>); \<open>main.rs\<close> starts and stops them.

  \<^bold>\<open>The theories\<close>, and what their lemmas show.

  \<^item> \<open>S0_Prelude\<close>: machine integers, saturation, the parts of Rust's string library the source calls, sorted
    association lists for \<open>BTreeMap\<close>, with their round trips.
  \<^item> \<open>S0_Model\<close>: \<open>model.rs\<close>, \<open>identity.rs\<close>, \<open>authz/input.rs\<close>, \<open>authz/decision.rs\<close>: verbs, principals, the
    question, its JSON form and cache identity, the verdict.
  \<^item> \<open>S0_Optable\<close>: the whole operation table of \<open>access/optable.rs\<close>; the binary-searching gate is the
    linear reading of the table.
  \<^item> \<open>S0_Error\<close>: \<open>error.rs\<close>; of a backend error only code and status cross.
  \<^item> \<open>S0_Headers\<close>: \<open>access/headers.rs\<close>, \<open>access/tagging.rs\<close>: the ACL screen and its specification, the
    tagging header's parser and its round trip, reserved tags.
  \<^item> \<open>S0_Quota\<close>: \<open>quota.rs\<close>: the ledger as a step relation; books balance, no level is oversold, counters
    refine the set of writes they stand for. Locale \<open>quota_account\<close> is the contract of one counter.
  \<^item> \<open>S0_Placement\<close>: \<open>pdp/bundle.rs\<close>: the bundle, bucket placement (locale \<open>bucket_isolation\<close>), epochs, the store.
  \<^item> \<open>S0_Auth\<close>: \<open>auth/sts.rs\<close>, \<open>auth/derived.rs\<close>, \<open>auth/mod.rs\<close>: what is minted resolves, what is revoked does not
    (locale \<open>key_epochs\<close>, interpreted on the bundle store), the three credential families do not overlap.
  \<^item> \<open>S0_Listing\<close>: \<open>proxy/fanout.rs\<close>, \<open>proxy/obligations.rs\<close>, \<open>proxy/bucketfilter.rs\<close>: cursors, fan-out, bucket
    pages (locale \<open>pager\<close>); paging is complete and stays in the grant.
  \<^item> \<open>S0_Config\<close>, \<open>S0_Registry\<close>: \<open>config.rs\<close>, the registry of \<open>proxy/mod.rs\<close> and \<open>gateway.rs\<close>: a configuration that
    loads is one the gateway can attribute; a client handed out is the current route's (locale \<open>tenant_directory\<close>).
  \<^item> \<open>S0_Audit\<close>: \<open>audit/record.rs\<close>, \<open>audit/pending.rs\<close>, \<open>audit/sink.rs\<close>: no record is lost without being counted.
  \<^item> \<open>S0_Access\<close>: \<open>access/mod.rs\<close>, \<open>access/proof.rs\<close>: the check, every hook, and the enforcing helpers (locale
    \<open>enforcing\<close>, interpreted on each helper: no proof without the verdicts it stands for).
  \<^item> \<open>S0_Forward\<close>: the forward path; served only if authorized, one audit record per request, answers that name no backend.
  \<^item> \<open>S0_Pdp\<close>: \<open>pdp/embedded.rs\<close>, \<open>pdp/sidecar.rs\<close>, \<open>pdp/cache.rs\<close>, \<open>bundle_refresh.rs\<close>. A call of the cached engine and a
    round of the refresh are cut at their awaits (\<open>stage\<close>, \<open>round\<close>) and interleave freely (\<open>pdp_step\<close>). While no
    revision is advertised twice, no verdict predates the bundle in force when its call began; when one is, a run serves a
    revoked verdict.
  \<^item> \<open>S0_Cors\<close>: \<open>cors\<close>: rule matching against a declarative reading, the cache under any sequence of lookups and
    reconfigurations, the front, whose answers are well formed and which leaves the service's own answer alone.
  \<^item> \<open>S0_WebIdentity\<close>: \<open>webidentity.rs\<close>. Locale \<open>session_door\<close> is the contract of a listener that mints
    sessions: through the session authority, for a routed tenant and its organization, for at most a configured time. A session
    from such a door resolves on the data plane. It is interpreted on this endpoint and on the control plane's.
  \<^item> \<open>S0_Mint\<close>: \<open>mint.rs\<close>, \<open>internal.rs\<close>: the verifier and its key set under any interleaving of refreshes and requests, the two
    doors of the mint, the accept loop and its permits, the shared secret, sessions and long-lived keys.
  \<^item> \<open>S0_Admin\<close>: \<open>admin.rs\<close>, \<open>server.rs\<close>, \<open>main.rs\<close>, \<open>audit/backend.rs\<close>: probes, the exposition text and what a scraper reads from
    it, the data plane's accept loop (locale \<open>bounded_listener\<close>, shared with the mint's), the order of shutdown.
  \<^item> \<open>S0_Capture\<close>: \<open>authz/capture.rs\<close>: the tap is shown what the engine is asked, and holds or counts every question.
  \<^item> \<open>S0_Main\<close>: \<open>gateway.rs\<close>, \<open>server.rs\<close>, \<open>main.rs\<close> as assembly: the audit sink, the gateway, the listeners and the start of
    the process from a configuration; replicas of one configuration spill apart, a mint that starts has room for a connection, and
    the internal and probe listeners (locale \<open>draining_listener\<close>) take nothing after the signal.
  \<^item> This theory: what the started process mints, it honours.

  \<^bold>\<open>How the code is rendered.\<close> Structs are records, enums datatypes with the source's variants, \<open>Result\<close> a sum with the
  error on the left, \<open>u64\<close> and \<open>u32\<close> words wherever they are added or compared, header maps lists of pairs with lower-case
  names, a \<open>BTreeMap\<close> a sorted association list, strings their bytes. A handler takes the state it reads and returns the one it leaves.
  Locks and atomics are the atomicity of a step; what runs concurrently is a step relation, and its invariants are proved
  by rule induction. Panics of the source that its own checks exclude are not modelled.

  \<^bold>\<open>Parameters.\<close> HMAC, SHA-256, hex, base64, the JWT and JSON libraries, the rego engine, \<open>chrono\<close>, the clock, fresh identifiers,
  the HTTP clients and servers, the file system and the S3 backend are arguments. What a theorem needs of them is a named
  hypothesis (\<open>crypto_ok\<close>, \<open>jwt_lib_ok\<close>, a conforming lister), satisfied by a concrete instance in its witness.

  \<^bold>\<open>Bounds and fuel.\<close> Every function of the model is total; only \<open>walk\<close>, a client that follows cursors, takes fuel, and the two
  theorems on paging show that some amount ends the walk with the whole listing. Counters of the audit metrics are unbounded
  numbers: \<open>u64\<close> counters of events do not wrap in the life of a process.

  \<^bold>\<open>Not modelled.\<close> The S3 protocol itself (parsing, SigV4, the hook order) is the library \<open>s3s\<close>, so handing it the layers
  has no content here; the token bucket that budgets gate-denial records is over \<open>f64\<close>, so whether it holds a token is an argument.
  The settings of hyper are passed through, serde fills the defaults of a configuration. Tracing, the warnings about a loaded
  document, the signal handler and the \<open>Secret\<close> wrapper, whose content is the absence of a printing function, are I/O and glue.
\<close>

section \<open>Minting and serving\<close>

text \<open>C12: What the process mints, the process honours. Take any configuration the process starts from, and any session its web-identity
  endpoint or its internal listener hands out. Until the session expires, the data plane of that same gateway resolves it to the
  subject and the principal class it was minted for, in the same tenant and under the organization its own routing table binds
  that tenant to, and checks signatures with the secret that was handed out: the listeners and the data plane are built
  around one authority and one routing table.\<close>
theorem minted_sessions_honoured:
  assumes "main_start loaded (gateway_build rg cd hex_decode gateway_rego generation read_to_string opa_client aw) bundle_client jwks_client
      from_rsa_pem cr blinding_key = Inr p0"
    and "gw = sd_gateway p0" and "crypto_ok cr"
    and "minted_on cr jl (sd_mint p0) (sd_internal p0) now claims c" and "t < unat (sn_expires_at c)"
  shows "\<exists>p. identity_resolve cr (gt_identity gw) t (sn_access_key_id c) (Some (sn_session_token c)) = Inr p \<and>
    rp_sub p = sc_sub claims \<and> rp_principal_type p = sc_principal_type claims \<and> rp_tenant p = sc_tenant claims \<and>
    organization_of (gw_registry (gt_state gw)) (rp_tenant p) = Some (rp_organization_id p) \<and>
    identity_secret_key cr (gt_identity gw) (sn_access_key_id c) = Some (sn_secret_access_key c)"
proof -
  obtain owners where p0: "gateway_build rg cd hex_decode gateway_rego generation read_to_string opa_client aw (sd_config p0) = Inr (gw, owners)"
    "build_mint from_rsa_pem jwks_client (sd_config p0) gw = Inr (sd_mint p0)"
    "sd_internal p0 = build_internal cr blinding_key (sd_config p0) gw"
    using main_start_parts [OF assms(1)] assms(2) by metis
  obtain ring cur sk where ring: "sts_with_key_ring ring cur sk = Inr (id_sts (gt_identity gw))"
    using gateway_build_parts [OF p0(1)] by blast
  have org: "organization_of reg tn = Some (rs_organization_id r)" if "route_snapshot_for reg tn = Some r" for reg tn r
    using that by (auto simp: organization_of_def route_snapshot_for_def)
  from minted_on_door [OF assms(4) [unfolded p0(3)] p0(2)] show ?thesis
  proof (elim disjE exE)
    fix cap sid
    assume "web_door cr (id_sts (gt_identity gw)) (gw_registry (gt_state gw)) cap now sid claims c"
    from web.door_resolves [OF this assms(3) ring refl assms(5)] show ?thesis by (auto dest: org)
  next
    fix cap sid
    assume "internal_door cr (id_sts (gt_identity gw)) (gw_registry (gt_state gw)) cap now sid claims c"
    from control_plane.door_resolves [OF this assms(3) ring refl assms(5)] show ?thesis by (auto dest: org)
  qed
qed

theorem minted_sessions_honoured_witness:
  "\<exists>p0 p. main_start (Inr demo_process_config) (gateway_build toy_rego toy_codec Inr [] 0 (\<lambda>_. Inr ''A'') (Inr ()) demo_audit_world)
       (Inr ()) (Inr ()) (\<lambda>_. Inr (0 :: nat)) demo_web_crypto ''k'' = Inr p0 \<and>
     identity_resolve demo_web_crypto (gt_identity (sd_gateway p0)) 10 ''HFSTv1.s1'' (Some ''tok'') = Inr p \<and> rp_sub p = ''u1'' \<and>
     organization_of (gw_registry (gt_state (sd_gateway p0))) ''acme'' = Some (rp_organization_id p)"
proof -
  obtain gw owners where gw: "gateway_build toy_rego toy_codec Inr [] 0 (\<lambda>_. Inr ''A'') (Inr ()) demo_audit_world demo_process_config = Inr (gw, owners)"
    "id_sts (gt_identity gw) = id_sts demo_identity" "gw_registry (gt_state gw) = demo_registry ''s1''"
    using demo_process_built by blast
  let ?req = "\<lparr>sq_sub = ''u1'', sq_principal_type = User, sq_tenant = ''acme'', sq_organization_id = ''org1'', sq_groups = [],
    sq_duration_seconds = 7200\<rparr>"
  let ?c = "\<lparr>sn_access_key_id = ''HFSTv1.s1'', sn_secret_access_key = demo_key, sn_session_token = ''tok'', sn_expires_at = 65\<rparr>"
  let ?start = "main_start (Inr demo_process_config) (gateway_build toy_rego toy_codec Inr [] 0 (\<lambda>_. Inr ''A'') (Inr ()) demo_audit_world)
      (Inr ()) (Inr ()) (\<lambda>_. Inr (0 :: nat)) demo_web_crypto ''k''"
  have "gc_sts_mint demo_process_config = None" "gc_bundle_url demo_process_config = None"
    by (simp_all add: demo_process_config_def demo_config_def)
  then obtain p0 where p0: "?start = Inr p0" "sd_gateway p0 = gw" "sd_internal p0 = build_internal demo_web_crypto ''k'' demo_process_config gw"
    using gw(1) by (simp add: main_start_def build_source_def build_mint_def)
  obtain a where a: "build_internal demo_web_crypto ''k'' demo_process_config gw = Some a" "ia_sts a = ia_sts demo_api"
    "ia_registry a = ia_registry demo_api" "ia_max_ttl_secs a = ia_max_ttl_secs demo_api"
    using gw by (simp add: build_internal_def demo_process_config_def with_derived_keys_def internal_api_new_def demo_api_def)
  have "mint_session demo_web_crypto a (Inr 5) ?req ''s1'' = Inr ?c"
    using mint_session_depends [OF a(2-4)] demo_minted by metis
  then have "minted_on demo_web_crypto demo_jwt (sd_mint p0) (sd_internal p0) 5 (internal_claims a 5 ?req ''s1'') ?c"
    unfolding minted_on_def using a(1) p0(3) by auto
  from minted_sessions_honoured [OF p0(1) refl demo_web_crypto_ok this, of 10] p0(1) show ?thesis
    by (auto simp: internal_claims_def)
qed

end
